(* ===== verification/Unwind_Prelude.thy ===== *)
theory Unwind_Prelude
  imports Main "HOL-Library.Word"
begin

text \<open>
  Shared vocabulary of the development: the fixed-width integers of the code, the outcome of
  a member function that reports failure by returning \<open>false\<close>, state-passing composition of
  such functions, \<open>__builtin_add_overflow\<close>, and the little-endian view of bytes that
  \<open>memcpy\<close> into an integer gives on every Android ABI.
\<close>

unbundle bit_operations_syntax

type_synonym u8 = "8 word"
type_synonym u16 = "16 word"
type_synonym u32 = "32 word"
type_synonym u64 = "64 word"

named_theorems keeps_rules
named_theorems no_abort_rules
named_theorems reports_rules
named_theorems op_defs \<open>definitions of the state-passing operations, unfolded together\<close>

section \<open>Outcomes of fallible operations\<close>

text \<open>
  \<open>Ret v\<close>: the function returned \<open>true\<close> (a pointer, a value) with result \<open>v\<close>.
  \<open>Fail\<close>: it returned \<open>false\<close> (or a null pointer).
  \<open>Abort\<close>: a \<open>CHECK\<close> failed or \<open>abort()\<close> was called.
  \<open>Undef\<close>: execution reached undefined behaviour of C++ (an out-of-range access, a shift by
  at least the width, signed overflow, a dereference of an uninitialised or null pointer).
\<close>

datatype 'a res = Ret 'a | Fail | Abort | Undef

primrec is_Ret :: "'a res \<Rightarrow> bool" where
  "is_Ret (Ret v) = True"
| "is_Ret Fail = False"
| "is_Ret Abort = False"
| "is_Ret Undef = False"

text \<open>An operation on an object: the object before, the outcome and the object after.\<close>

type_synonym ('s, 'a) op = "'s \<Rightarrow> 'a res \<times> 's"

definition rret :: "'a \<Rightarrow> ('s, 'a) op" where
  "rret v s = (Ret v, s)"

definition rfail :: "('s, 'a) op" where
  "rfail s = (Fail, s)"

definition rabort :: "('s, 'a) op" where
  "rabort s = (Abort, s)"

definition rundef :: "('s, 'a) op" where
  "rundef s = (Undef, s)"

definition rbind :: "('s, 'a) op \<Rightarrow> ('a \<Rightarrow> ('s, 'b) op) \<Rightarrow> ('s, 'b) op" where
  "rbind m f s = (case m s of
      (Ret v, s') \<Rightarrow> f v s'
    | (Fail, s') \<Rightarrow> (Fail, s')
    | (Abort, s') \<Rightarrow> (Abort, s')
    | (Undef, s') \<Rightarrow> (Undef, s'))"

text \<open>\<open>if (!f()) { handler; return false; }\<close>: the handler runs on the object when \<open>f\<close> fails.\<close>

definition on_fail :: "('s \<Rightarrow> 's) \<Rightarrow> ('s, 'a) op \<Rightarrow> ('s, 'a) op" where
  "on_fail h m s = (case m s of (Fail, s') \<Rightarrow> (Fail, h s') | r \<Rightarrow> r)"

text \<open>An operation on a component of the object.\<close>

definition on_part :: "('s \<Rightarrow> 't) \<Rightarrow> ('t \<Rightarrow> 's \<Rightarrow> 's) \<Rightarrow> ('t, 'a) op \<Rightarrow> ('s, 'a) op" where
  "on_part get put m s = (let (r, t) = m (get s) in (r, put t s))"

definition modify :: "('s \<Rightarrow> 's) \<Rightarrow> ('s, unit) op" where
  "modify f s = (Ret (), f s)"

lemmas op_basic_defs [op_defs] = rret_def rfail_def rabort_def rundef_def modify_def

lemma rbind_Ret [simp]: "m s = (Ret v, s') \<Longrightarrow> rbind m f s = f v s'"
  by (simp add: rbind_def)

lemma rbind_not_Ret:
  "m s = (Fail, s') \<Longrightarrow> rbind m f s = (Fail, s')"
  "m s = (Abort, s') \<Longrightarrow> rbind m f s = (Abort, s')"
  "m s = (Undef, s') \<Longrightarrow> rbind m f s = (Undef, s')"
  by (simp_all add: rbind_def)

lemma rbind_eq_Ret:
  "rbind m f s = (Ret w, s'') \<longleftrightarrow> (\<exists>v s'. m s = (Ret v, s') \<and> f v s' = (Ret w, s''))"
  by (auto simp: rbind_def split: prod.splits res.splits)

lemma rbind_eq_Fail:
  "rbind m f s = (Fail, s'') \<longleftrightarrow>
     m s = (Fail, s'') \<or> (\<exists>v s'. m s = (Ret v, s') \<and> f v s' = (Fail, s''))"
  by (auto simp: rbind_def split: prod.splits res.splits)

lemma rbind_eq_Abort:
  "rbind m f s = (Abort, s'') \<longleftrightarrow>
     m s = (Abort, s'') \<or> (\<exists>v s'. m s = (Ret v, s') \<and> f v s' = (Abort, s''))"
  by (auto simp: rbind_def split: prod.splits res.splits)

lemma rbind_eq_Undef:
  "rbind m f s = (Undef, s'') \<longleftrightarrow>
     m s = (Undef, s'') \<or> (\<exists>v s'. m s = (Ret v, s') \<and> f v s' = (Undef, s''))"
  by (auto simp: rbind_def split: prod.splits res.splits)

lemma on_fail_eq_Ret: "on_fail h m s = (Ret v, s') \<longleftrightarrow> m s = (Ret v, s')"
  by (auto simp: on_fail_def split: prod.splits res.splits)

lemma on_fail_eq_Abort: "on_fail h m s = (Abort, s') \<longleftrightarrow> m s = (Abort, s')"
  by (auto simp: on_fail_def split: prod.splits res.splits)

lemma on_fail_eq_Undef: "on_fail h m s = (Undef, s') \<longleftrightarrow> m s = (Undef, s')"
  by (auto simp: on_fail_def split: prod.splits res.splits)

lemma on_fail_eq_Fail: "on_fail h m s = (Fail, s') \<longleftrightarrow> (\<exists>t. m s = (Fail, t) \<and> s' = h t)"
  by (auto simp: on_fail_def split: prod.splits res.splits)

lemmas op_outcomes =
  rbind_eq_Ret rbind_eq_Fail rbind_eq_Abort rbind_eq_Undef
  on_fail_eq_Ret on_fail_eq_Fail on_fail_eq_Abort on_fail_eq_Undef

section \<open>What an operation leaves alone\<close>

text \<open>\<open>keeps p f\<close>: whatever the outcome, \<open>f\<close> does not change the part \<open>p\<close> of the object. \<open>no_abort f\<close>:
  no \<open>CHECK\<close> fails in \<open>f\<close>. Both are closed under the combinators; the collections \<open>keeps_rules\<close> and
  \<open>no_abort_rules\<close> are extended by the components.\<close>

definition keeps :: "('s \<Rightarrow> 'p) \<Rightarrow> ('s, 'a) op \<Rightarrow> bool" where
  "keeps p f \<longleftrightarrow> (\<forall>s. p (snd (f s)) = p s)"

definition no_abort :: "('s, 'a) op \<Rightarrow> bool" where
  "no_abort f \<longleftrightarrow> (\<forall>s. fst (f s) \<noteq> Abort)"

lemma keepsD: "keeps p f \<Longrightarrow> f s = (r, s') \<Longrightarrow> p s' = p s"
  unfolding keeps_def by (drule spec [of _ s]) simp

lemma no_abortD: "no_abort f \<Longrightarrow> f s \<noteq> (Abort, s')"
  unfolding no_abort_def by (drule spec [of _ s]) auto

lemma keeps_basic [keeps_rules]: "keeps p (rret v)" "keeps p rfail" "keeps p rabort" "keeps p rundef"
  by (simp_all add: keeps_def op_defs)

lemma no_abort_basic [no_abort_rules]: "no_abort (rret v)" "no_abort rfail" "no_abort rundef"
  by (simp_all add: no_abort_def op_defs)

lemma keeps_rbind [keeps_rules]:
  assumes "keeps p f" and "\<And>v. keeps p (g v)"
  shows "keeps p (rbind f g)"
  unfolding keeps_def
proof
  fix s
  obtain q s1 where q: "f s = (q, s1)" by fastforce
  have "p (snd (g v s1)) = p s1" for v using assms(2) by (simp add: keeps_def)
  then show "p (snd (rbind f g s)) = p s"
    using q keepsD [OF assms(1) q] by (cases q) (simp_all add: rbind_def)
qed

lemma no_abort_rbind [no_abort_rules]:
  assumes "no_abort f" and "\<And>v. no_abort (g v)"
  shows "no_abort (rbind f g)"
  using assms by (auto simp: no_abort_def rbind_def split: prod.split res.split) (metis fst_conv)

lemma keeps_on_fail [keeps_rules]:
  "keeps p f \<Longrightarrow> (\<And>s. p (h s) = p s) \<Longrightarrow> keeps p (on_fail h f)"
  by (auto simp: on_fail_def keeps_def [of p "on_fail h f"] split: prod.split res.split dest: keepsD)

lemma no_abort_on_fail [no_abort_rules]: "no_abort f \<Longrightarrow> no_abort (on_fail h f)"
  by (auto simp: no_abort_def on_fail_def split: prod.split res.split) (metis fst_conv)

lemma keeps_on_part [keeps_rules]: "(\<And>t s. p (put t s) = p s) \<Longrightarrow> keeps p (on_part get put f)"
  by (simp add: keeps_def on_part_def split: prod.split)

lemma no_abort_on_part [no_abort_rules]: "no_abort f \<Longrightarrow> no_abort (on_part get put f)"
  by (auto simp: no_abort_def on_part_def split: prod.split) (metis fst_conv)

lemma keeps_if [keeps_rules]: "(b \<Longrightarrow> keeps p f) \<Longrightarrow> (\<not> b \<Longrightarrow> keeps p g) \<Longrightarrow> keeps p (if b then f else g)"
  by simp

lemma no_abort_if [no_abort_rules]: "(b \<Longrightarrow> no_abort f) \<Longrightarrow> (\<not> b \<Longrightarrow> no_abort g) \<Longrightarrow> no_abort (if b then f else g)"
  by simp

text \<open>\<open>reports p ok f\<close>: a failing \<open>f\<close> leaves an error other than \<open>ok\<close> in the part \<open>p\<close>, a returning one
  leaves that part alone.\<close>

definition reports :: "('s \<Rightarrow> 'e) \<Rightarrow> 'e \<Rightarrow> ('s, 'a) op \<Rightarrow> bool" where
  "reports p ok f \<longleftrightarrow> (\<forall>s. (is_Ret (fst (f s)) \<longrightarrow> p (snd (f s)) = p s) \<and> (fst (f s) = Fail \<longrightarrow> p (snd (f s)) \<noteq> ok))"

lemma reportsI:
  assumes "\<And>s v s'. f s = (Ret v, s') \<Longrightarrow> p s' = p s" and "\<And>s s'. f s = (Fail, s') \<Longrightarrow> p s' \<noteq> ok"
  shows "reports p ok f"
  unfolding reports_def
proof
  fix s
  obtain r s' where "f s = (r, s')" by fastforce
  then show "(is_Ret (fst (f s)) \<longrightarrow> p (snd (f s)) = p s) \<and> (fst (f s) = Fail \<longrightarrow> p (snd (f s)) \<noteq> ok)"
    using assms by (cases r) auto
qed

lemma reportsD:
  assumes "reports p ok f"
  shows "f s = (Ret v, s') \<Longrightarrow> p s' = p s" and "f s = (Fail, s') \<Longrightarrow> p s' \<noteq> ok"
  using assms [unfolded reports_def, rule_format, of s] by auto

lemma reports_basic [reports_rules]: "reports p ok (rret v)" "reports p ok rundef" "reports p ok rabort"
  by (simp_all add: reports_def op_defs)

lemma reports_rbind [reports_rules]:
  assumes "reports p ok f" and "\<And>v. reports p ok (g v)"
  shows "reports p ok (rbind f g)"
proof (rule reportsI)
  fix s v s'
  assume "rbind f g s = (Ret v, s')"
  then obtain w s1 where "f s = (Ret w, s1)" "g w s1 = (Ret v, s')" by (auto simp: rbind_eq_Ret)
  then show "p s' = p s" using reportsD(1) [OF assms(1)] reportsD(1) [OF assms(2)] by metis
next
  fix s s'
  assume "rbind f g s = (Fail, s')"
  then consider "f s = (Fail, s')" | w s1 where "f s = (Ret w, s1)" "g w s1 = (Fail, s')"
    by (auto simp: rbind_eq_Fail)
  then show "p s' \<noteq> ok" by cases (rule reportsD(2) [OF assms(1)], assumption, rule reportsD(2) [OF assms(2)])
qed

lemma reports_if [reports_rules]:
  "(b \<Longrightarrow> reports p ok f) \<Longrightarrow> (\<not> b \<Longrightarrow> reports p ok g) \<Longrightarrow> reports p ok (if b then f else g)"
  by simp

lemma reports_on_fail [reports_rules]:
  assumes "keeps p f" and "\<And>s. p (h s) \<noteq> ok"
  shows "reports p ok (on_fail h f)"
  using assms(2) by (intro reportsI) (auto simp: on_fail_def dest: keepsD [OF assms(1)] split: prod.splits res.splits)

section \<open>Integers\<close>

text \<open>\<open>__builtin_add_overflow(a, n, &r)\<close> on \<open>uint64_t\<close>: whether the sum does not fit.\<close>

definition add_overflow :: "u64 \<Rightarrow> nat \<Rightarrow> bool" where
  "add_overflow a n \<longleftrightarrow> 2 ^ 64 \<le> unat a + n"

text \<open>\<open>sizeof(T)\<close> of an unsigned integer type.\<close>

definition sizeof :: "'a::len itself \<Rightarrow> nat" where
  "sizeof _ = LENGTH('a) div 8"

lemma sizeof_simps [simp]:
  "sizeof TYPE(8) = 1" "sizeof TYPE(16) = 2" "sizeof TYPE(32) = 4" "sizeof TYPE(64) = 8"
  by (simp_all add: sizeof_def)

section \<open>Little-endian bytes\<close>

primrec le_word :: "u8 list \<Rightarrow> 'a::len word" where
  "le_word [] = 0"
| "le_word (b # bs) = ucast b + 256 * le_word bs"

primrec le_bytes :: "nat \<Rightarrow> 'a::len word \<Rightarrow> u8 list" where
  "le_bytes 0 w = []"
| "le_bytes (Suc n) w = ucast w # le_bytes n (drop_bit 8 w)"

lemma length_le_bytes [simp]: "length (le_bytes n w) = n"
  by (induction n arbitrary: w) simp_all

lemma bit_le_word:
  "bit (le_word bs :: 'a::len word) i \<longleftrightarrow>
     i < LENGTH('a) \<and> i div 8 < length bs \<and> bit (bs ! (i div 8)) (i mod 8)"
proof (induction bs arbitrary: i)
  case Nil
  then show ?case by simp
next
  case (Cons b bs)
  have eq: "(ucast b + 256 * le_word bs :: 'a word) = ucast b OR push_bit 8 (le_word bs)"
  proof -
    have "(ucast b :: 'a word) AND push_bit 8 (le_word bs) = 0"
      by (rule bit_word_eqI) (auto simp: bit_simps dest: bit_imp_le_length)
    then have "ucast b OR push_bit 8 (le_word bs) = (ucast b + push_bit 8 (le_word bs) :: 'a word)"
      by (rule disjunctive_add_eq_or [symmetric])
    then show ?thesis
      by (simp add: push_bit_eq_mult mult.commute)
  qed
  show ?case
  proof (cases "i < 8")
    case True
    then show ?thesis
      unfolding le_word.simps eq by (auto simp: bit_simps dest: bit_imp_le_length)
  next
    case False
    then have "i div 8 = Suc ((i - 8) div 8)" "i mod 8 = (i - 8) mod 8"
      by (simp_all add: le_div_geq le_mod_geq)
    moreover have "\<not> bit b i" using False by (auto dest: bit_imp_le_length)
    ultimately show ?thesis
      unfolding le_word.simps eq using False Cons.IH [of "i - 8"]
      by (auto simp: bit_simps)
  qed
qed

lemma nth_le_bytes: "j < n \<Longrightarrow> le_bytes n w ! j = ucast (drop_bit (8 * j) w)"
  by (induction n arbitrary: w j) (auto simp: nth_Cons' drop_bit_drop_bit algebra_simps)

lemma le_word_le_bytes:
  "le_word (le_bytes n (w :: 'b::len word)) = (ucast (take_bit (8 * n) w) :: 'a::len word)"
proof (rule bit_word_eqI)
  fix i assume i: "i < LENGTH('a)"
  have lt: "i div 8 < n \<longleftrightarrow> i < 8 * n" by (auto simp: less_mult_imp_div_less)
  show "bit (le_word (le_bytes n w) :: 'a word) i = bit (ucast (take_bit (8 * n) w) :: 'a word) i"
    using i by (auto simp: bit_le_word nth_le_bytes bit_simps lt)
qed

lemma le_word_le_bytes_id [simp]:
  "LENGTH('a) \<le> 8 * n \<Longrightarrow> le_word (le_bytes n (w :: 'a::len word)) = w"
  by (simp add: le_word_le_bytes take_bit_word_eq_self)

lemma le_bytes_le_word:
  "length bs = n \<Longrightarrow> 8 * n \<le> LENGTH('a) \<Longrightarrow> le_bytes n (le_word bs :: 'a::len word) = bs"
proof (rule nth_equalityI)
  fix i assume n: "length bs = n" "8 * n \<le> LENGTH('a)" and "i < length (le_bytes n (le_word bs :: 'a word))"
  then have i: "i < n" by simp
  show "le_bytes n (le_word bs :: 'a word) ! i = bs ! i"
  proof (rule bit_word_eqI)
    fix k assume "k < LENGTH(8)"
    then have k: "k < 8" by simp
    have "(8 * i + k) div 8 = i" "(8 * i + k) mod 8 = k" "8 * i + k < LENGTH('a)"
      using k i n by simp_all
    then show "bit (le_bytes n (le_word bs :: 'a word) ! i) k = bit (bs ! i) k"
      using i n k by (simp add: nth_le_bytes bit_simps bit_le_word)
  qed
qed simp

section \<open>Words and numbers\<close>

lemma and_not_mask_eq: "(a AND NOT b :: 'a::len word) = a - (a AND b)"
proof -
  have "a - (a AND b) = a AND NOT (a AND b)"
    by (rule disjunctive_diff_eq_and_not) (simp add: bit_eq_iff bit_simps)
  also have "\<dots> = a AND NOT b"
    by (rule bit_word_eqI) (auto simp: bit_simps)
  finally show ?thesis by simp
qed

lemma unat_add_no_wrap: "unat a + n < 2 ^ 64 \<Longrightarrow> unat (a + of_nat n :: u64) = unat a + n"
  by (simp add: unat_word_ariths unat_of_nat)

lemma ucast_of_int_u64: "LENGTH('a::len) \<le> 64 \<Longrightarrow> (ucast (of_int v :: u64) :: 'a word) = of_int v"
  by (rule bit_word_eqI) (auto simp: bit_simps)

lemma unat_pred_less: "d \<noteq> 0 \<Longrightarrow> unat (d - 1 :: 'a::len word) < unat d"
  by (simp add: unat_minus_one unat_gt_0)

lemma add_overflow_less: "\<not> add_overflow a n \<Longrightarrow> unat a + n < 2 ^ 64"
  by (simp add: add_overflow_def)

lemma all_less_add_split:
  "c \<le> n \<Longrightarrow> (\<forall>i<n. P i) \<longleftrightarrow> (\<forall>i<c. P i) \<and> (\<forall>i<n - c. P (c + i))" for n :: nat
  by (metis add_diff_inverse_nat less_diff_conv2 linorder_not_less nat_add_left_cancel_less
      order_less_le_trans add.commute)

section \<open>Bits of a byte\<close>

text \<open>Facts about the fields of a byte are decided bit by bit with the bundle \<open>u8_bits\<close>.\<close>

lemma u8_eq_iff: "(v :: u8) = w \<longleftrightarrow> (bit v 0 = bit w 0 \<and> bit v 1 = bit w 1 \<and> bit v 2 = bit w 2 \<and> bit v 3 = bit w 3 \<and>
   bit v 4 = bit w 4 \<and> bit v 5 = bit w 5 \<and> bit v 6 = bit w 6 \<and> bit v 7 = bit w 7)" (is "?L = ?R")
proof
  assume ?R
  have "bit v i = bit w i" if "i < 8" for i
  proof -
    from that have "i \<in> {0, 1, 2, 3, 4, 5, 6, 7}" by auto
    with \<open>?R\<close> show ?thesis by (elim insertE) simp_all
  qed
  then show ?L by (intro bit_word_eqI) simp
qed simp

lemma u8_no_bit: "8 \<le> n \<Longrightarrow> \<not> bit (b :: u8) n"
  by (auto dest: bit_imp_le_length)

lemmas u8_bits = u8_eq_iff bit_drop_bit_eq bit_and_iff bit_not_iff bit_or_iff u8_no_bit

lemma u8_less_64: "(b :: u8) < 0x40 \<longleftrightarrow> \<not> bit b 6 \<and> \<not> bit b 7"
proof -
  have "b < 0x40 \<longleftrightarrow> unat (drop_bit 6 b) = 0" by (simp add: word_less_nat_alt drop_bit_eq_div unat_div div_eq_0_iff)
  also have "\<dots> \<longleftrightarrow> drop_bit 6 b = 0" by (simp add: unat_eq_0)
  finally show ?thesis by (simp add: u8_bits)
qed

end
