(* ===== verification/Memory.thy ===== *)
theory Memory
  imports Unwind_Prelude
begin

text \<open>
  The memory readers of \<open>Memory.cpp\<close> and \<open>Memory.h\<close>: one constructor per class derived from
  \<open>Memory\<close>, the \<open>Read\<close> of each class, the virtual dispatch \<open>mem_Read\<close>, and the members of the
  base class built on it. What the operating system answers (\<open>open\<close>, \<open>fstat\<close>, \<open>mmap\<close>,
  \<open>ptrace\<close>, \<open>process_vm_readv\<close>) is a parameter. The build is LP64: \<open>size_t\<close> and \<open>long\<close> have
  eight bytes.
\<close>

section \<open>Reading from a buffer\<close>

definition MemoryBuffer_Read :: "u8 list \<Rightarrow> u64 \<Rightarrow> nat \<Rightarrow> u8 list res" where
  "MemoryBuffer_Read raw addr sz =
     (if add_overflow addr sz then Fail
      else if length raw < unat addr + sz then Fail
      else Ret (take sz (drop (unat addr) raw)))"

text \<open>The pointer \<open>GetPtr\<close> returns is the index of the byte it points at.\<close>

definition MemoryBuffer_GetPtr :: "u8 list \<Rightarrow> nat \<Rightarrow> nat res" where
  "MemoryBuffer_GetPtr raw offset = (if offset < length raw then Ret offset else Fail)"

definition MemoryBuffer_Resize :: "nat \<Rightarrow> u8 list \<Rightarrow> u8 list" where
  "MemoryBuffer_Resize sz raw = take sz raw @ replicate (sz - length raw) 0"

definition MemoryBuffer_Size :: "u8 list \<Rightarrow> nat" where
  "MemoryBuffer_Size raw = length raw"

section \<open>Reading from a mapped file\<close>

text \<open>
  The fields of \<open>MemoryFileAtOffset\<close>. \<open>data_\<close> is \<open>None\<close> for the null pointer; otherwise it
  holds the bytes of the whole mapping, and the pointer of the code points at index \<open>offset_\<close>
  of them.
\<close>

record mapped_file =
  mf_size :: u64
  mf_offset :: u64
  mf_data :: "u8 list option"

definition new_mapped_file :: mapped_file where
  "new_mapped_file = \<lparr>mf_size = 0, mf_offset = 0, mf_data = None\<rparr>"

text \<open>\<open>memcpy(dst, &data_[index], size)\<close>: undefined outside of the mapping.\<close>

definition map_copy :: "mapped_file \<Rightarrow> u64 \<Rightarrow> nat \<Rightarrow> u8 list res" where
  "map_copy f index sz =
     (case mf_data f of
        None \<Rightarrow> Undef
      | Some region \<Rightarrow>
          if unat (mf_offset f) + unat index + sz \<le> length region
          then Ret (take sz (drop (unat (mf_offset f) + unat index) region))
          else Undef)"

definition MemoryFileAtOffset_Clear :: "mapped_file \<Rightarrow> mapped_file" where
  "MemoryFileAtOffset_Clear f = (case mf_data f of None \<Rightarrow> f | Some _ \<Rightarrow> f\<lparr>mf_data := None\<rparr>)"

text \<open>What the operating system answers: the contents of a file that can be opened, whether
  \<open>fstat\<close> succeeds on it, the page size, and whether \<open>mmap\<close> of a length at an offset succeeds.\<close>

record os =
  os_open :: "string \<Rightarrow> u8 list option"
  os_fstat_ok :: "string \<Rightarrow> bool"
  os_pagesize :: u64
  os_mmap_ok :: "string \<Rightarrow> u64 \<Rightarrow> u64 \<Rightarrow> bool"

definition MemoryFileAtOffset_Init ::
  "os \<Rightarrow> string \<Rightarrow> u64 \<Rightarrow> u64 \<Rightarrow> (mapped_file, unit) op" where
  "MemoryFileAtOffset_Init sys file offset sz f0 =
     (let f = MemoryFileAtOffset_Clear f0 in
      case os_open sys file of
        None \<Rightarrow> (Fail, f)
      | Some contents \<Rightarrow>
          if \<not> os_fstat_ok sys file then (Fail, f)
          else let st_size = (of_nat (length contents) :: u64) in
            if st_size \<le> offset then (Fail, f)
            else
              let f = f\<lparr>mf_offset := offset AND (os_pagesize sys - 1)\<rparr>;
                  aligned_offset = offset AND NOT (os_pagesize sys - 1) in
              if st_size < aligned_offset \<or> st_size < offset then (Fail, f)
              else
                let f = f\<lparr>mf_size := st_size - aligned_offset\<rparr>;
                    max_size = sz + mf_offset f;
                    f = (if \<not> add_overflow sz (unat (mf_offset f)) \<and> max_size < mf_size f
                         then f\<lparr>mf_size := max_size\<rparr> else f) in
                if \<not> os_mmap_ok sys file (mf_size f) aligned_offset then (Fail, f)
                else (Ret (),
                  f\<lparr>mf_data := Some (take (unat (mf_size f)) (drop (unat aligned_offset) contents)),
                    mf_size := mf_size f - mf_offset f\<rparr>))"

definition MemoryFileAtOffset_Read :: "mapped_file \<Rightarrow> u64 \<Rightarrow> nat \<Rightarrow> u8 list res" where
  "MemoryFileAtOffset_Read f addr sz =
     (if add_overflow addr sz \<or> unat (mf_size f) < unat addr + sz then Fail
      else map_copy f addr sz)"

section \<open>Reading a memory dump\<close>

definition MemoryOffline_Init ::
  "os \<Rightarrow> string \<Rightarrow> u64 \<Rightarrow> mapped_file \<Rightarrow> u64 res \<times> mapped_file" where
  "MemoryOffline_Init sys file offset f0 =
     (case MemoryFileAtOffset_Init sys file offset (-1) f0 of
        (Ret _, f) \<Rightarrow>
          (case MemoryFileAtOffset_Read f 0 8 of
             Ret bs \<Rightarrow> (Ret (le_word bs), f\<lparr>mf_size := mf_size f - 8\<rparr>)
           | Fail \<Rightarrow> (Fail, f)
           | Abort \<Rightarrow> (Abort, f)
           | Undef \<Rightarrow> (Undef, f))
      | (Fail, f) \<Rightarrow> (Fail, f)
      | (Abort, f) \<Rightarrow> (Abort, f)
      | (Undef, f) \<Rightarrow> (Undef, f))"

definition MemoryOffline_Read :: "mapped_file \<Rightarrow> u64 \<Rightarrow> u64 \<Rightarrow> nat \<Rightarrow> u8 list res" where
  "MemoryOffline_Read f start addr sz =
     (if add_overflow addr sz then Fail
      else if add_overflow start (unat (mf_offset f)) \<or>
              add_overflow (start + mf_offset f) (unat (mf_size f)) then Fail
      else
        let real_size = start + mf_offset f + mf_size f in
        if addr < start \<or> unat real_size < unat addr + sz then Fail
        else map_copy f (addr + mf_offset f - start + 8) sz)"

section \<open>Reading another process\<close>

text \<open>\<open>PtraceRead\<close>: the word \<open>ptrace(PTRACE_PEEKTEXT)\<close> returns at an address, \<open>None\<close> when it
  fails with \<open>errno\<close> set.\<close>

type_synonym ptrace_peek = "u64 \<Rightarrow> u64 option"

fun remote_words :: "ptrace_peek \<Rightarrow> u64 \<Rightarrow> nat \<Rightarrow> u8 list option" where
  "remote_words peek addr 0 = Some []"
| "remote_words peek addr (Suc n) =
     (case peek addr of
        None \<Rightarrow> None
      | Some data \<Rightarrow> map_option ((@) (le_bytes 8 data)) (remote_words peek (addr + 8) n))"

text \<open>The part of the loop after the unaligned head: whole words, then the left-over bytes.\<close>

definition remote_aligned :: "ptrace_peek \<Rightarrow> u64 \<Rightarrow> nat \<Rightarrow> u8 list res" where
  "remote_aligned peek addr bytes =
     (case remote_words peek addr (bytes div 8) of
        None \<Rightarrow> Fail
      | Some ws \<Rightarrow>
          let left_over = bytes mod 8 in
          if left_over \<noteq> 0 then
            (case peek (addr + of_nat (8 * (bytes div 8))) of
               None \<Rightarrow> Fail
             | Some data \<Rightarrow> Ret (ws @ take left_over (le_bytes 8 data)))
          else Ret ws)"

definition MemoryRemote_Read :: "ptrace_peek \<Rightarrow> u64 \<Rightarrow> nat \<Rightarrow> u8 list res" where
  "MemoryRemote_Read peek addr bytes =
     (if add_overflow addr bytes then Fail
      else
        let align_bytes = unat (addr AND 7) in
        if align_bytes \<noteq> 0 then
          (case peek (addr AND NOT 7) of
             None \<Rightarrow> Fail
           | Some data \<Rightarrow>
               let copy_bytes = min (8 - align_bytes) bytes in
               (case remote_aligned peek (addr + of_nat copy_bytes) (bytes - copy_bytes) of
                  Ret rest \<Rightarrow> Ret (take copy_bytes (drop align_bytes (le_bytes 8 data)) @ rest)
                | r \<Rightarrow> r))
        else remote_aligned peek addr bytes)"

section \<open>Reading the own process\<close>

text \<open>\<open>process_vm_readv\<close>: the bytes it transferred (possibly fewer than asked for), \<open>None\<close> for
  a return value of -1.\<close>

type_synonym vm_readv = "u64 \<Rightarrow> nat \<Rightarrow> u8 list option"

definition MemoryLocal_Read :: "vm_readv \<Rightarrow> u64 \<Rightarrow> nat \<Rightarrow> u8 list res" where
  "MemoryLocal_Read readv addr sz =
     (if add_overflow addr sz then Fail
      else case readv addr sz of
        None \<Rightarrow> Fail
      | Some bs \<Rightarrow> if length bs = sz then Ret bs else Fail)"

section \<open>The class hierarchy and the virtual call\<close>

datatype memory =
    MemoryBuffer "u8 list"
  | MemoryFileAtOffset mapped_file
  | MemoryOffline mapped_file u64
  | MemoryRemote ptrace_peek
  | MemoryLocal vm_readv
  | MemoryRange memory u64 u64

fun mem_Read :: "memory \<Rightarrow> u64 \<Rightarrow> nat \<Rightarrow> u8 list res" where
  "mem_Read (MemoryBuffer raw) addr sz = MemoryBuffer_Read raw addr sz"
| "mem_Read (MemoryFileAtOffset f) addr sz = MemoryFileAtOffset_Read f addr sz"
| "mem_Read (MemoryOffline f start) addr sz = MemoryOffline_Read f start addr sz"
| "mem_Read (MemoryRemote peek) addr sz = MemoryRemote_Read peek addr sz"
| "mem_Read (MemoryLocal readv) addr sz = MemoryLocal_Read readv addr sz"
| "mem_Read (MemoryRange m begin len) addr sz =
     (if add_overflow addr sz \<or> unat len < unat addr + sz then Fail
      else mem_Read m (addr + begin) sz)"

text \<open>The constructor of \<open>MemoryRange\<close>, with its \<open>CHECK(end > begin)\<close>.\<close>

definition new_MemoryRange :: "memory \<Rightarrow> u64 \<Rightarrow> u64 \<Rightarrow> memory res" where
  "new_MemoryRange m begin end = (if begin < end then Ret (MemoryRange m begin (end - begin)) else Abort)"

definition CreateProcessMemory :: "int \<Rightarrow> vm_readv \<Rightarrow> (int \<Rightarrow> ptrace_peek) \<Rightarrow> int \<Rightarrow> memory" where
  "CreateProcessMemory self readv peek pid =
     (if pid = self then MemoryLocal readv else MemoryRemote (peek pid))"

section \<open>Members of the base class\<close>

definition mem_Read32 :: "memory \<Rightarrow> u64 \<Rightarrow> u32 res" where
  "mem_Read32 m addr = map_res le_word (mem_Read m addr 4)"

definition mem_Read64 :: "memory \<Rightarrow> u64 \<Rightarrow> u64 res" where
  "mem_Read64 m addr = map_res le_word (mem_Read m addr 8)"

text \<open>\<open>ReadField\<close> takes the pointers of the structure and of the field in it.\<close>

definition mem_ReadField :: "memory \<Rightarrow> u64 \<Rightarrow> u64 \<Rightarrow> u64 \<Rightarrow> nat \<Rightarrow> u8 list res" where
  "mem_ReadField m addr start field sz =
     (if field < start then Fail
      else let offset = field - start in
        if add_overflow addr (unat offset) then Fail
        else mem_Read m (addr + offset) sz)"

text \<open>\<open>ReadString\<close>: the second component is the string collected so far, which the code
  leaves in the caller's object also when it returns \<open>false\<close>; \<open>left\<close> is \<open>max_read - bytes_read\<close>.\<close>

function ReadString_loop :: "memory \<Rightarrow> u64 \<Rightarrow> nat \<Rightarrow> u8 list \<Rightarrow> unit res \<times> u8 list" where
  "ReadString_loop m addr left str =
     (if left = 0 then (Fail, str)
      else case mem_Read m addr 1 of
        Ret bs \<Rightarrow> if hd bs = 0 then (Ret (), str)
                 else ReadString_loop m (addr + 1) (left - 1) (str @ [hd bs])
      | Fail \<Rightarrow> (Fail, str)
      | Abort \<Rightarrow> (Abort, str)
      | Undef \<Rightarrow> (Undef, str))"
  by pat_completeness auto
termination
  by (relation "measure (\<lambda>(m, addr, left, str). left)") auto

definition mem_ReadString :: "memory \<Rightarrow> u64 \<Rightarrow> u64 \<Rightarrow> unit res \<times> u8 list" where
  "mem_ReadString m addr max_read = ReadString_loop m addr (unat max_read) []"

declare ReadString_loop.simps [simp del]

section \<open>The contract of a reader\<close>

locale memory_reader =
  fixes read :: "u64 \<Rightarrow> nat \<Rightarrow> u8 list res"
  assumes read_length: "read a n = Ret bs \<Longrightarrow> length bs = n"
    and read_no_wrap: "read a n = Ret bs \<Longrightarrow> unat a + n < 2 ^ 64"
begin

lemma read_advances: "read a n = Ret bs \<Longrightarrow> unat (a + of_nat n) = unat a + n"
  using read_no_wrap [of a n bs] by (simp add: unat_word_ariths unat_of_nat)

lemma read_one: "read a 1 = Ret bs \<Longrightarrow> \<exists>b. bs = [b]"
  using read_length [of a 1 bs] by (cases bs) auto

lemma read_advances_less: "read a n = Ret bs \<Longrightarrow> 0 < n \<Longrightarrow> a < a + of_nat n"
  using read_advances [of a n bs] by (simp add: word_less_nat_alt)

end

lemma map_copy_length: "map_copy f i n = Ret bs \<Longrightarrow> length bs = n"
  by (auto simp: map_copy_def split: option.splits if_splits)

lemma remote_words_length: "remote_words peek a k = Some ws \<Longrightarrow> length ws = 8 * k"
  by (induction k arbitrary: a ws) (auto split: option.splits)

lemma remote_aligned_length: "remote_aligned peek a n = Ret bs \<Longrightarrow> length bs = n"
  by (auto simp: remote_aligned_def Let_def dest!: remote_words_length
      split: option.splits if_splits)

lemma MemoryRemote_Read_length: "MemoryRemote_Read peek a n = Ret bs \<Longrightarrow> length bs = n"
  by (auto simp: MemoryRemote_Read_def Let_def dest!: remote_aligned_length
      split: option.splits if_splits res.splits)

lemma mem_Read_length: "mem_Read m a n = Ret bs \<Longrightarrow> length bs = n"
proof (induction m a n rule: mem_Read.induct)
  case (4 peek a n)
  then show ?case by (simp add: MemoryRemote_Read_length)
qed (auto simp: MemoryBuffer_Read_def MemoryFileAtOffset_Read_def MemoryOffline_Read_def
      MemoryLocal_Read_def Let_def map_copy_length split: if_splits option.splits)

lemma mem_Read_no_wrap: "mem_Read m a n = Ret bs \<Longrightarrow> unat a + n < 2 ^ 64"
  by (cases m) (auto simp: MemoryBuffer_Read_def MemoryFileAtOffset_Read_def
      MemoryOffline_Read_def MemoryLocal_Read_def MemoryRemote_Read_def Let_def
      add_overflow_def split: if_splits)

interpretation mem: memory_reader "mem_Read m" for m
  by unfold_locales (rule mem_Read_length mem_Read_no_wrap, assumption)+

interpretation remote: memory_reader "MemoryRemote_Read peek" for peek
  using mem_Read_length [of "MemoryRemote peek"] mem_Read_no_wrap [of "MemoryRemote peek"]
  by unfold_locales auto

section \<open>Ranges\<close>

lemma MemoryRange_slice:
  assumes "new_MemoryRange m b e = Ret r"
  shows "mem_Read r addr n =
      (if unat addr + n \<le> unat e - unat b then mem_Read m (addr + b) n else Fail)"
    and "unat addr + n \<le> unat e - unat b \<Longrightarrow> unat (addr + b) = unat addr + unat b"
    and "unat addr + n \<le> unat e - unat b \<Longrightarrow> unat (addr + b) + n \<le> unat e"
proof -
  from assms have be: "b < e" and r: "r = MemoryRange m b (e - b)"
    by (auto simp: new_MemoryRange_def split: if_splits)
  have len: "unat (e - b) = unat e - unat b"
    using be by (simp add: unat_sub word_less_nat_alt word_le_nat_alt)
  have e: "unat e < 2 ^ 64" using unsigned_less [of e] by simp
  show "mem_Read r addr n =
      (if unat addr + n \<le> unat e - unat b then mem_Read m (addr + b) n else Fail)"
    using e by (auto simp: r len add_overflow_def)
  show *: "unat addr + n \<le> unat e - unat b \<Longrightarrow> unat (addr + b) = unat addr + unat b"
    using e be by (simp add: unat_word_ariths word_less_nat_alt)
  show "unat addr + n \<le> unat e - unat b \<Longrightarrow> unat (addr + b) + n \<le> unat e"
    using * be by (simp add: word_less_nat_alt)
qed

section \<open>Memory that holds given bytes\<close>

definition mem_holds :: "memory \<Rightarrow> u64 \<Rightarrow> u8 list \<Rightarrow> bool" where
  "mem_holds m a bs \<longleftrightarrow> unat a + length bs < 2 ^ 64 \<and>
     (\<forall>i n. 0 < n \<longrightarrow> i + n \<le> length bs \<longrightarrow> mem_Read m (a + of_nat i) n = Ret (take n (drop i bs)))"

lemma mem_holds_read:
  "mem_holds m a bs \<Longrightarrow> 0 < n \<Longrightarrow> n \<le> length bs \<Longrightarrow> mem_Read m a n = Ret (take n bs)"
  unfolding mem_holds_def by (elim conjE allE [of _ 0] allE [of _ n]) auto

lemma mem_holds_append:
  assumes "mem_holds m a (xs @ ys)"
  shows "mem_holds m a xs" and "mem_holds m (a + of_nat (length xs)) ys"
proof -
  have w: "unat a + (length xs + length ys) < 2 ^ 64"
    and r: "\<And>i n. 0 < n \<Longrightarrow> i + n \<le> length xs + length ys \<Longrightarrow>
      mem_Read m (a + of_nat i) n = Ret (take n (drop i (xs @ ys)))"
    using assms by (auto simp: mem_holds_def)
  show "mem_holds m a xs"
    using w r by (auto simp: mem_holds_def)
  have "unat (a + of_nat (length xs)) = unat a + length xs"
    using w by (simp add: unat_word_ariths unat_of_nat)
  moreover have "mem_Read m (a + of_nat (length xs) + of_nat i) n = Ret (take n (drop i ys))"
    if "0 < n" "i + n \<le> length ys" for i n
    using r [of n "length xs + i"] that by (simp add: add.assoc)
  ultimately show "mem_holds m (a + of_nat (length xs)) ys"
    using w by (auto simp: mem_holds_def)
qed

lemma mem_holds_Cons:
  assumes "mem_holds m a (b # bs)"
  shows "mem_Read m a 1 = Ret [b]" and "mem_holds m (a + 1) bs"
  using mem_holds_read [OF assms, of 1] mem_holds_append(2) [of m a "[b]" bs] assms by simp_all

lemma mem_holds_MemoryBuffer:
  assumes "length pre + length bs + length post < 2 ^ 64"
  shows "mem_holds (MemoryBuffer (pre @ bs @ post)) (of_nat (length pre)) bs"
proof -
  have u: "unat (of_nat (length pre) + of_nat i :: u64) = length pre + i" if "i \<le> length bs" for i
    using assms that by (simp flip: of_nat_add add: unat_of_nat)
  show ?thesis
    using assms u by (auto simp: mem_holds_def MemoryBuffer_Read_def add_overflow_def unat_of_nat)
qed

section \<open>Strings\<close>

lemma ReadString_loop_terminated:
  assumes "mem_holds m a (str @ [0])" and "0 \<notin> set str" and "length str < left"
  shows "ReadString_loop m a left acc = (Ret (), acc @ str)"
  using assms
proof (induction str arbitrary: a left acc)
  case Nil
  then show ?case
    using mem_holds_Cons(1) [of m a 0 "[]"] by (simp add: ReadString_loop.simps)
next
  case (Cons c str)
  from Cons.prems have r: "mem_Read m a 1 = Ret [c]" and h: "mem_holds m (a + 1) (str @ [0])"
    using mem_holds_Cons [of m a c "str @ [0]"] by simp_all
  from Cons.IH [OF h, of "left - 1" "acc @ [c]"] Cons.prems r show ?case
    by (simp add: ReadString_loop.simps [of m a left acc])
qed

lemma ReadString_loop_unterminated:
  assumes "mem_holds m a str" and "0 \<notin> set str" and "length str = left"
  shows "ReadString_loop m a left acc = (Fail, acc @ str)"
  using assms
proof (induction str arbitrary: a left acc)
  case Nil
  then show ?case by (simp add: ReadString_loop.simps)
next
  case (Cons c str)
  from Cons.prems have r: "mem_Read m a 1 = Ret [c]" and h: "mem_holds m (a + 1) str"
    using mem_holds_Cons [of m a c str] by simp_all
  from Cons.IH [OF h, of "left - 1" "acc @ [c]"] Cons.prems r show ?case
    by (auto simp: ReadString_loop.simps [of m a left acc])
qed

section \<open>The word-wise remote read equals a byte-wise read\<close>

definition byte_read :: "(u64 \<Rightarrow> u8) \<Rightarrow> u64 \<Rightarrow> nat \<Rightarrow> u8 list" where
  "byte_read bytes a n = map (\<lambda>i. bytes (a + of_nat i)) [0..<n]"

lemma length_byte_read [simp]: "length (byte_read bytes a n) = n"
  by (simp add: byte_read_def)

lemma byte_read_0 [simp]: "byte_read bytes a 0 = []"
  by (simp add: byte_read_def)

lemma byte_read_add:
  "byte_read bytes a (n + k) = byte_read bytes a n @ byte_read bytes (a + of_nat n) k"
  by (rule nth_equalityI) (auto simp: byte_read_def nth_append add.assoc simp flip: of_nat_add)

lemma take_drop_byte_read:
  "i + n \<le> k \<Longrightarrow> take n (drop i (byte_read bytes a k)) = byte_read bytes (a + of_nat i) n"
  by (rule nth_equalityI) (auto simp: byte_read_def add.assoc)

lemma unat_and_7: "unat (a AND 7 :: u64) = unat a mod 8"
proof -
  have "a AND 7 = take_bit 3 a"
    by (simp add: take_bit_eq_mask mask_eq_exp_minus_1)
  then show ?thesis
    by (simp add: take_bit_eq_mod unat_mod)
qed

lemma unat_and_not_7: "unat (a AND NOT 7 :: u64) = unat a - unat a mod 8"
proof -
  have "a AND 7 \<le> a" by (simp add: word_le_nat_alt unat_and_7)
  then show ?thesis by (simp only: and_not_mask_eq unat_sub unat_and_7)
qed

lemma unat_add_mod_8: "unat (a + of_nat k :: u64) mod 8 = (unat a + k) mod 8"
  by (simp add: unat_word_ariths unat_of_nat mod_mod_cancel mod_add_right_eq)

text \<open>What \<open>PTRACE_PEEKTEXT\<close> documents: the word at an aligned address, if it can be read.\<close>

definition peek_reads :: "ptrace_peek \<Rightarrow> (u64 \<Rightarrow> u8) \<Rightarrow> (u64 \<Rightarrow> bool) \<Rightarrow> bool" where
  "peek_reads peek bytes ok \<longleftrightarrow> (\<forall>a. 8 dvd unat a \<longrightarrow>
     peek a = (if ok a then Some (le_word (byte_read bytes a 8)) else None))"

lemma peek_word: "peek_reads peek bytes ok \<Longrightarrow> 8 dvd unat a \<Longrightarrow>
    peek a = (if ok a then Some (le_word (byte_read bytes a 8)) else None)"
  by (simp add: peek_reads_def)

lemma remote_words_bytes:
  "peek_reads peek bytes ok \<Longrightarrow> 8 dvd unat a \<Longrightarrow> remote_words peek a k =
     (if \<forall>i<k. ok (a + of_nat (8 * i)) then Some (byte_read bytes a (8 * k)) else None)"
proof (induction k arbitrary: a)
  case 0
  then show ?case by simp
next
  case (Suc k)
  have a8: "8 dvd unat (a + 8)"
    using Suc.prems unat_add_mod_8 [of a 8] by (simp add: dvd_eq_mod_eq_0)
  have all: "(\<forall>i<Suc k. ok (a + of_nat (8 * i))) \<longleftrightarrow>
      ok a \<and> (\<forall>i<k. ok (a + 8 + of_nat (8 * i)))"
    by (auto simp: less_Suc_eq_0_disj algebra_simps)
  show ?case
    unfolding all using Suc.IH [OF Suc.prems(1) a8] Suc.prems byte_read_add [of bytes a 8 "8 * k"]
    by (auto simp: peek_word le_bytes_le_word)
qed

lemma all_words_split:
  "(\<forall>i<n. P (i div 8)) \<longleftrightarrow> (\<forall>j<n div 8. P j) \<and> (n mod 8 \<noteq> 0 \<longrightarrow> P (n div 8))" for n :: nat
proof (intro iffI conjI allI impI)
  fix j assume all: "\<forall>i<n. P (i div 8)" and j: "j < n div 8"
  have "8 * j < n" using j by simp
  then show "P j" using all by (metis nonzero_mult_div_cancel_left zero_neq_numeral)
next
  assume all: "\<forall>i<n. P (i div 8)" and "n mod 8 \<noteq> 0"
  then have "8 * (n div 8) < n" by presburger
  then show "P (n div 8)" using all by (metis nonzero_mult_div_cancel_left zero_neq_numeral)
next
  fix i assume h: "(\<forall>j<n div 8. P j) \<and> (n mod 8 \<noteq> 0 \<longrightarrow> P (n div 8))" and i: "i < n"
  consider "i div 8 < n div 8" | "i div 8 = n div 8" "n mod 8 \<noteq> 0"
    using i by (metis div_le_mono dvd_imp_mod_0 le_neq_implies_less less_imp_le_nat
        mod_less_eq_dividend mult_div_mod_eq not_less add_le_cancel_left le_zero_eq)
  then show "P (i div 8)" using h by cases auto
qed

lemma remote_aligned_bytes:
  assumes "peek_reads peek bytes ok" and "8 dvd unat a"
  shows "remote_aligned peek a n =
     (if \<forall>i<n. ok (a + of_nat (8 * (i div 8))) then Ret (byte_read bytes a n) else Fail)"
proof -
  let ?k = "n div 8"
  have al: "8 dvd unat (a + of_nat (8 * ?k))"
    using assms(2) unat_add_mod_8 [of a "8 * ?k"] by (simp only: dvd_eq_mod_eq_0) presburger
  have "byte_read bytes a n = byte_read bytes a (8 * ?k) @ byte_read bytes (a + of_nat (8 * ?k)) (n mod 8)"
    using byte_read_add [of bytes a "8 * ?k" "n mod 8"] by simp
  moreover have "take (n mod 8) (byte_read bytes (a + of_nat (8 * ?k)) 8) =
      byte_read bytes (a + of_nat (8 * ?k)) (n mod 8)"
    using take_drop_byte_read [of 0 "n mod 8" 8] by (simp add: less_imp_le_nat)
  moreover have "(\<forall>i<n. ok (a + of_nat (8 * (i div 8)))) \<longleftrightarrow>
      (\<forall>j<?k. ok (a + of_nat (8 * j))) \<and> (n mod 8 \<noteq> 0 \<longrightarrow> ok (a + of_nat (8 * ?k)))"
    by (rule all_words_split [where P = "\<lambda>j. ok (a + of_nat (8 * j))"])
  ultimately show ?thesis
    using remote_words_bytes [OF assms, of ?k] peek_word [OF assms(1) al]
    by (simp add: remote_aligned_def Let_def le_bytes_le_word)
qed

text \<open>The aligned word that holds the byte at an address.\<close>

definition word_of_addr :: "u64 \<Rightarrow> u64" where
  "word_of_addr a = a AND NOT 7"

lemma unat_word_of_addr: "unat (word_of_addr a) = 8 * (unat a div 8)"
  by (simp only: word_of_addr_def unat_and_not_7 minus_mod_eq_mult_div)

lemma word_of_addr_aligned:
  assumes "8 dvd unat a" and "unat a + i < 2 ^ 64"
  shows "word_of_addr (a + of_nat i) = a + of_nat (8 * (i div 8))"
proof (rule unsigned_word_eqI)
  from assms(1) obtain q where q: "unat a = 8 * q" by (auto elim: dvdE)
  have "unat a + 8 * (i div 8) < 2 ^ 64" using assms(2) by linarith
  then have "unat (a + of_nat (8 * (i div 8))) = unat a + 8 * (i div 8)"
    by (rule unat_add_no_wrap)
  then show "unat (word_of_addr (a + of_nat i)) = unat (a + of_nat (8 * (i div 8)))"
    using assms(2) by (simp add: unat_word_of_addr unat_add_no_wrap q)
qed

lemma remote_aligned_bytes':
  assumes "peek_reads peek bytes ok" and "8 dvd unat a" and "unat a + n < 2 ^ 64"
  shows "remote_aligned peek a n =
     (if \<forall>i<n. ok (word_of_addr (a + of_nat i)) then Ret (byte_read bytes a n) else Fail)"
proof -
  have "(\<forall>i<n. ok (word_of_addr (a + of_nat i))) \<longleftrightarrow> (\<forall>i<n. ok (a + of_nat (8 * (i div 8))))"
    using assms(2,3) by (auto simp: word_of_addr_aligned)
  then show ?thesis using remote_aligned_bytes [OF assms(1,2)] by simp
qed

lemma remote_aligned_0: "remote_aligned peek a 0 = Ret []"
  by (simp add: remote_aligned_def)

lemma word_of_addr_add: "word_of_addr a + of_nat (unat a mod 8) = a"
proof (rule unsigned_word_eqI)
  have eq: "unat (word_of_addr a) + unat a mod 8 = unat a"
    by (simp add: unat_word_of_addr)
  then show "unat (word_of_addr a + of_nat (unat a mod 8)) = unat a"
    using unat_add_no_wrap [of "word_of_addr a" "unat a mod 8"] unsigned_less [of a, where ?'a = nat]
    by simp
qed

lemma word_of_addr_head:
  assumes "unat a mod 8 + i < 8" and "unat a + i < 2 ^ 64"
  shows "word_of_addr (a + of_nat i) = word_of_addr a"
proof -
  have "unat (word_of_addr a) + (unat a mod 8 + i) = unat a + i"
    by (simp add: unat_word_of_addr)
  then have "word_of_addr (word_of_addr a + of_nat (unat a mod 8 + i)) = word_of_addr a"
    using word_of_addr_aligned [of "word_of_addr a" "unat a mod 8 + i"] assms
    by (simp add: unat_word_of_addr)
  then show ?thesis
    using word_of_addr_add [of a] by (simp add: add.assoc [symmetric])
qed

lemma byte_read_head:
  "unat a mod 8 + c \<le> 8 \<Longrightarrow>
   take c (drop (unat a mod 8) (byte_read bytes (word_of_addr a) 8)) = byte_read bytes a c"
  by (simp add: take_drop_byte_read word_of_addr_add)

lemma remote_tail:
  assumes p: "peek_reads peek bytes ok" and w: "unat addr + n < 2 ^ 64"
    and c: "c = min (8 - unat addr mod 8) n"
  shows "remote_aligned peek (addr + of_nat c) (n - c) =
      (if \<forall>i<n - c. ok (word_of_addr (addr + of_nat (c + i)))
       then Ret (byte_read bytes (addr + of_nat c) (n - c)) else Fail)"
proof (cases "c = n")
  case True
  then show ?thesis by (simp add: remote_aligned_0)
next
  case False
  then have "c = 8 - unat addr mod 8" using c by (simp add: min_def split: if_splits)
  then have "(unat addr + c) mod 8 = 0" by presburger
  then have "8 dvd unat (addr + of_nat c)"
    by (simp add: dvd_eq_mod_eq_0 unat_add_mod_8)
  moreover have "unat (addr + of_nat c) + (n - c) < 2 ^ 64"
    using w c by (simp add: unat_add_no_wrap)
  ultimately show ?thesis
    using remote_aligned_bytes' [OF p, of "addr + of_nat c" "n - c"] by (simp add: add.assoc)
qed

lemma MemoryRemote_Read_bytes:
  assumes p: "peek_reads peek bytes ok" and n: "0 < n" and w: "unat addr + n < 2 ^ 64"
  shows "MemoryRemote_Read peek addr n =
     (if \<forall>i<n. ok (word_of_addr (addr + of_nat i)) then Ret (byte_read bytes addr n) else Fail)"
proof (cases "unat (addr AND 7) = 0")
  case True
  then have "8 dvd unat addr" by (simp add: unat_and_7 dvd_eq_mod_eq_0)
  from remote_aligned_bytes' [OF p this w] True w show ?thesis
    by (simp add: MemoryRemote_Read_def add_overflow_def)
next
  case False
  define c where "c = min (8 - unat addr mod 8) n"
  have c: "0 < c" "c \<le> n" "unat addr mod 8 + c \<le> 8"
    using n by (auto simp: c_def min_def less_imp_le_nat)
  have b: "8 dvd unat (word_of_addr addr)" by (simp add: unat_word_of_addr)
  have split: "(\<forall>i<n. ok (word_of_addr (addr + of_nat i))) \<longleftrightarrow>
      ok (word_of_addr addr) \<and> (\<forall>i<n - c. ok (word_of_addr (addr + of_nat (c + i))))"
    using all_less_add_split [OF c(2)] word_of_addr_head [of addr] c w by auto
  have bytes: "byte_read bytes addr n =
      byte_read bytes addr c @ byte_read bytes (addr + of_nat c) (n - c)"
    using byte_read_add [of bytes addr c "n - c"] c by simp
  have "MemoryRemote_Read peek addr n =
      (case peek (word_of_addr addr) of None \<Rightarrow> Fail
       | Some data \<Rightarrow> (case remote_aligned peek (addr + of_nat c) (n - c) of
           Ret rest \<Rightarrow> Ret (take c (drop (unat addr mod 8) (le_bytes 8 data)) @ rest) | e \<Rightarrow> e))"
    unfolding MemoryRemote_Read_def word_of_addr_def [symmetric] unat_and_7 c_def [symmetric]
    using w False by (simp add: Let_def add_overflow_def unat_and_7 c_def split: option.split res.split)
  then show ?thesis
    unfolding split bytes using remote_tail [OF p w c_def] byte_read_head [OF c(3)] peek_word [OF p b]
    by (simp add: le_bytes_le_word)
qed

section \<open>Mapped files\<close>

lemma page_split:
  fixes offset m :: u64
  shows "unat (offset AND NOT m) + unat (offset AND m) = unat offset"
proof -
  have "offset AND m \<le> offset" by (rule word_and_le2)
  then show ?thesis
    by (simp add: and_not_mask_eq unat_sub word_le_nat_alt)
qed

text \<open>The window of the file a successful \<open>Init\<close> leaves in the object.\<close>

definition maps_window :: "mapped_file \<Rightarrow> u8 list \<Rightarrow> nat \<Rightarrow> nat \<Rightarrow> bool" where
  "maps_window f contents first len \<longleftrightarrow>
     unat (mf_size f) = len \<and> first + len \<le> length contents \<and>
     unat (mf_offset f) \<le> first \<and>
     mf_data f = Some (take (unat (mf_offset f) + len) (drop (first - unat (mf_offset f)) contents))"

lemma maps_window_copy:
  assumes "maps_window f contents first len" and "unat i + n \<le> len"
  shows "map_copy f i n = Ret (take n (drop (first + unat i) contents))"
proof -
  have "unat (mf_offset f) + unat i + n \<le> unat (mf_offset f) + len" using assms(2) by simp
  moreover have "first - unat (mf_offset f) + (unat (mf_offset f) + unat i) = first + unat i"
    using assms(1) by (simp add: maps_window_def)
  moreover have "unat (mf_offset f) + len \<le> length contents - (first - unat (mf_offset f))"
    using assms(1) by (auto simp: maps_window_def)
  ultimately show ?thesis
    using assms by (simp add: maps_window_def map_copy_def min_def drop_take add.commute)
qed

lemma maps_window_Read:
  assumes "maps_window f contents first len"
  shows "MemoryFileAtOffset_Read f addr n =
     (if unat addr + n \<le> len then Ret (take n (drop (first + unat addr) contents)) else Fail)"
proof (cases "unat addr + n \<le> len")
  case True
  moreover have "len < 2 ^ 64"
    using assms unsigned_less [of "mf_size f", where ?'a = nat] by (simp add: maps_window_def)
  ultimately show ?thesis
    using maps_window_copy [OF assms] assms
    by (simp add: MemoryFileAtOffset_Read_def add_overflow_def maps_window_def)
next
  case False
  then show ?thesis using assms by (simp add: MemoryFileAtOffset_Read_def maps_window_def)
qed

definition os_maps :: "os \<Rightarrow> string \<Rightarrow> u8 list \<Rightarrow> bool" where
  "os_maps sys file contents \<longleftrightarrow>
     os_open sys file = Some contents \<and> os_fstat_ok sys file \<and> length contents < 2 ^ 63 \<and>
     (\<forall>len off. os_mmap_ok sys file len off)"

text \<open>The length that \<open>Init\<close> maps: from the page boundary to the end of the window.\<close>

lemma mapped_length:
  fixes sz o' al st :: u64
  assumes o': "unat al + unat o' = off" and off: "off < unat st" and st: "unat st < 2 ^ 63"
  defines "len \<equiv> if \<not> add_overflow sz (unat o') \<and> sz + o' < st - al then sz + o' else st - al"
  shows "unat len = unat o' + min (unat sz) (unat st - off)"
proof -
  have "al \<le> st" using o' off by (simp add: word_le_nat_alt)
  then have sub: "unat (st - al) = unat st - unat al" by (simp add: unat_sub)
  show ?thesis
  proof (cases "add_overflow sz (unat o')")
    case True
    then have "unat st - off \<le> unat sz" using st o' by (simp add: add_overflow_def)
    with True show ?thesis using sub o' off by (simp add: len_def min_def)
  next
    case False
    then have "unat (sz + o') = unat sz + unat o'"
      using unat_add_no_wrap [of sz "unat o'"] by (simp add: add_overflow_def)
    with False sub o' off show ?thesis
      by (simp add: len_def word_less_nat_alt min_def) linarith
  qed
qed

lemma MemoryFileAtOffset_Init_window:
  assumes sys: "os_maps sys file contents" and off: "unat offset < length contents"
  shows "\<exists>f'. MemoryFileAtOffset_Init sys file offset sz f = (Ret (), f') \<and>
     mf_offset f' = offset AND (os_pagesize sys - 1) \<and>
     maps_window f' contents (unat offset) (min (unat sz) (length contents - unat offset))"
proof -
  define o' where "o' = offset AND (os_pagesize sys - 1)"
  define al where "al = offset AND NOT (os_pagesize sys - 1)"
  define st :: u64 where "st = of_nat (length contents)"
  define len where "len = (if \<not> add_overflow sz (unat o') \<and> sz + o' < st - al then sz + o' else st - al)"
  have st: "unat st = length contents" "unat st < 2 ^ 63"
    using sys by (simp_all add: st_def os_maps_def unat_of_nat)
  have split: "unat al + unat o' = unat offset"
    unfolding al_def o'_def by (rule page_split)
  have len: "unat len = unat o' + min (unat sz) (length contents - unat offset)"
    unfolding len_def using mapped_length [OF split, of st sz] st off by simp
  then have "unat (len - o') = min (unat sz) (length contents - unat offset)"
    by (simp add: unat_sub word_le_nat_alt)
  moreover have "MemoryFileAtOffset_Init sys file offset sz f =
      (Ret (), \<lparr>mf_size = len - o', mf_offset = o',
                mf_data = Some (take (unat len) (drop (unat al) contents))\<rparr>)"
    using sys off st split
    by (cases "mf_data f") (simp_all add: MemoryFileAtOffset_Init_def MemoryFileAtOffset_Clear_def
        os_maps_def Let_def word_le_nat_alt word_less_nat_alt
        flip: st_def o'_def al_def add: len_def)
  moreover have "unat al = unat offset - unat o'" using split by simp
  ultimately show ?thesis
    using len split off by (auto simp: maps_window_def o'_def)
qed

section \<open>Memory dumps\<close>

text \<open>
  With a page-aligned offset a dump answers exactly the addresses it holds. The first eight
  bytes of the window are the start address.
\<close>

lemma MemoryOffline_Init_window:
  assumes sys: "os_maps sys file contents" and off: "unat offset + 8 \<le> length contents"
  shows "\<exists>f'. MemoryOffline_Init sys file offset f =
       (Ret (le_word (take 8 (drop (unat offset) contents))), f') \<and>
     mf_offset f' = offset AND (os_pagesize sys - 1) \<and>
     unat (mf_size f') = length contents - unat offset - 8 \<and>
     maps_window (f'\<lparr>mf_size := mf_size f' + 8\<rparr>) contents (unat offset) (length contents - unat offset)"
proof -
  obtain f1 where i: "MemoryFileAtOffset_Init sys file offset (-1) f = (Ret (), f1)"
    and o': "mf_offset f1 = offset AND (os_pagesize sys - 1)"
    and w: "maps_window f1 contents (unat offset) (min (unat (-1 :: u64)) (length contents - unat offset))"
    using MemoryFileAtOffset_Init_window [OF sys, of offset "-1" f] off by auto
  have "min (unat (-1 :: u64)) (length contents - unat offset) = length contents - unat offset"
    using sys by (auto simp: os_maps_def min_def unsigned_minus_1_eq_mask mask_eq_exp_minus_1)
  with w have w: "maps_window f1 contents (unat offset) (length contents - unat offset)" by simp
  have r: "MemoryFileAtOffset_Read f1 0 8 = Ret (take 8 (drop (unat offset) contents))"
    using maps_window_Read [OF w, of 0 8] off by simp
  have s: "unat (mf_size f1) = length contents - unat offset" using w by (simp add: maps_window_def)
  then have "unat (mf_size f1 - 8) = length contents - unat offset - 8"
    using off by (simp add: unat_sub word_le_nat_alt)
  then show ?thesis
    using i r o' w by (auto simp: MemoryOffline_Init_def)
qed

lemma MemoryOffline_Read_page_aligned:
  assumes "mf_offset f = 0" and "unat start + unat (mf_size f) < 2 ^ 64"
  shows "MemoryOffline_Read f start addr n =
     (if unat start \<le> unat addr \<and> unat addr + n \<le> unat start + unat (mf_size f)
      then map_copy f (addr - start + 8) n else Fail)"
proof -
  have "unat (start + mf_size f) = unat start + unat (mf_size f)"
    using unat_add_no_wrap [OF assms(2)] by simp
  then show ?thesis
    using assms by (auto simp: MemoryOffline_Read_def add_overflow_def Let_def word_less_nat_alt)
qed

lemma MemoryOffline_Read_dump:
  assumes w: "maps_window (f\<lparr>mf_size := mf_size f + 8\<rparr>) contents first (len + 8)"
    and s: "unat (mf_size f) = len" and o': "mf_offset f = 0" and nw: "unat start + len < 2 ^ 64"
  shows "MemoryOffline_Read f start addr n =
     (if unat start \<le> unat addr \<and> unat addr + n \<le> unat start + len
      then Ret (take n (drop (first + 8 + (unat addr - unat start)) contents)) else Fail)"
proof (cases "unat start \<le> unat addr \<and> unat addr + n \<le> unat start + len")
  case True
  have sub: "unat (addr - start) = unat addr - unat start"
    using True by (simp add: unat_sub word_le_nat_alt)
  have "len + 8 < 2 ^ 64"
    using w unsigned_less [of "mf_size f + 8", where ?'a = nat] by (simp add: maps_window_def)
  then have "unat (addr - start) + 8 < 2 ^ 64" using True sub by linarith
  then have i: "unat (addr - start + 8) = unat addr - unat start + 8"
    using sub unat_add_no_wrap [of "addr - start" 8] by simp
  have "map_copy f (addr - start + 8) n = map_copy (f\<lparr>mf_size := mf_size f + 8\<rparr>) (addr - start + 8) n"
    by (simp add: map_copy_def split: option.split)
  also have "\<dots> = Ret (take n (drop (first + unat (addr - start + 8)) contents))"
    by (rule maps_window_copy [OF w]) (use True i in auto)
  also have "first + unat (addr - start + 8) = first + 8 + (unat addr - unat start)"
    using i by simp
  finally show ?thesis
    using True MemoryOffline_Read_page_aligned [OF o'] nw s by simp
next
  case False
  then show ?thesis
    using MemoryOffline_Read_page_aligned [OF o', of start addr n] nw s by auto
qed

section \<open>Properties\<close>

text \<open>Whatever class of memory is read, a successful \<open>Read\<close> delivers exactly the requested
  number of bytes and the range read does not wrap around the 64-bit address space.\<close>

theorem mem_Read_in_range:
  assumes "mem_Read m a n = Ret bs"
  shows "length bs = n \<and> unat a + n < 2 ^ 64 \<and> (0 < n \<longrightarrow> a < a + of_nat n)"
  using mem.read_length [OF assms] mem.read_no_wrap [OF assms] mem.read_advances_less [OF assms]
  by blast

theorem mem_Read_in_range_witness:
  "mem_Read (MemoryRange (MemoryBuffer [1, 2, 3, 4, 5]) 1 3) 1 2 = Ret [3, 4] \<and>
   length [3, 4 :: u8] = 2 \<and> (1 :: u64) < 1 + of_nat 2"
proof -
  have r: "mem_Read (MemoryRange (MemoryBuffer [1, 2, 3, 4, 5]) 1 3) 1 2 = Ret [3, 4]"
    by (simp add: MemoryBuffer_Read_def add_overflow_def)
  show ?thesis using r mem_Read_in_range [OF r] by simp
qed

text \<open>C8. \<open>MemoryRemote::Read\<close>, which fetches aligned words with ptrace and patches the unaligned
  head and the left-over tail together, returns the bytes at the requested addresses, one by one,
  and fails exactly when one of the words that hold them cannot be read.\<close>

theorem MemoryRemote_Read_is_bytewise:
  assumes "peek_reads peek bytes ok" and "0 < n" and "unat addr + n < 2 ^ 64"
  shows "mem_Read (MemoryRemote peek) addr n =
     (if \<forall>i<n. ok (word_of_addr (addr + of_nat i))
      then Ret (map (\<lambda>i. bytes (addr + of_nat i)) [0..<n]) else Fail)"
  using MemoryRemote_Read_bytes [OF assms] by (simp add: byte_read_def)

text \<open>Memory whose byte at an address is the low byte of the address, readable below 24.\<close>

definition sample_peek :: ptrace_peek where
  "sample_peek a = (if unat a < 24 then Some (le_word (byte_read ucast a 8)) else None)"

theorem MemoryRemote_Read_is_bytewise_witness:
  "mem_Read (MemoryRemote sample_peek) 6 5 = Ret [6, 7, 8, 9, 10]"
proof -
  have p: "peek_reads sample_peek ucast (\<lambda>a. unat a < 24)"
    by (simp add: peek_reads_def sample_peek_def)
  have "\<forall>i<5. unat (word_of_addr (6 + of_nat i :: u64)) < 24"
    by (auto simp: unat_word_of_addr unat_word_ariths unat_of_nat)
  then show ?thesis
    using MemoryRemote_Read_is_bytewise [OF p, of 5 6] by (simp add: upt_rec)
qed

text \<open>C24. After \<open>MemoryFileAtOffset::Init(file, offset, size)\<close> the object is a window on the file:
  address \<open>a\<close> is byte \<open>offset + a\<close> of the file, and reads end at \<open>size\<close> bytes or at the end of the
  file, whichever comes first, independently of the page size and of an earlier mapping.\<close>

theorem MemoryFileAtOffset_window:
  assumes "os_maps sys file contents" and "unat offset < length contents"
  shows "\<exists>f'. MemoryFileAtOffset_Init sys file offset sz f = (Ret (), f') \<and>
     (\<forall>addr n. mem_Read (MemoryFileAtOffset f') addr n =
        (if unat addr + n \<le> min (unat sz) (length contents - unat offset)
         then Ret (take n (drop (unat offset + unat addr) contents)) else Fail))"
proof -
  obtain f' where "MemoryFileAtOffset_Init sys file offset sz f = (Ret (), f')"
    and "maps_window f' contents (unat offset) (min (unat sz) (length contents - unat offset))"
    using MemoryFileAtOffset_Init_window [OF assms, of sz f] by blast
  then show ?thesis by (auto simp: maps_window_Read)
qed

definition sample_os :: "u8 list \<Rightarrow> os" where
  "sample_os contents = \<lparr>os_open = (\<lambda>_. Some contents), os_fstat_ok = (\<lambda>_. True),
     os_pagesize = 4, os_mmap_ok = (\<lambda>_ _ _. True)\<rparr>"

lemma sample_os_maps: "length contents < 2 ^ 63 \<Longrightarrow> os_maps (sample_os contents) file contents"
  by (simp add: os_maps_def sample_os_def)

theorem MemoryFileAtOffset_window_witness:
  "\<exists>f'. MemoryFileAtOffset_Init (sample_os [0, 1, 2, 3, 4, 5, 6, 7, 8, 9, 10]) ''f'' 6 4 new_mapped_file =
       (Ret (), f') \<and>
     mem_Read (MemoryFileAtOffset f') 1 2 = Ret [7, 8] \<and> mem_Read (MemoryFileAtOffset f') 3 2 = Fail"
proof -
  let ?c = "[0, 1, 2, 3, 4, 5, 6, 7, 8, 9, 10] :: u8 list"
  have m: "os_maps (sample_os ?c) ''f'' ?c" by (rule sample_os_maps) simp
  have o6: "unat (6 :: u64) < length ?c" by simp
  from MemoryFileAtOffset_window [OF m o6, of 4 new_mapped_file]
  obtain f' where i: "MemoryFileAtOffset_Init (sample_os ?c) ''f'' 6 4 new_mapped_file = (Ret (), f')"
    and r: "\<And>addr n. mem_Read (MemoryFileAtOffset f') addr n =
        (if unat addr + n \<le> min (unat (4 :: u64)) (length ?c - unat (6 :: u64))
         then Ret (take n (drop (unat (6 :: u64) + unat addr) ?c)) else Fail)"
    by blast
  have "mem_Read (MemoryFileAtOffset f') 1 2 = Ret [7, 8]" "mem_Read (MemoryFileAtOffset f') 3 2 = Fail"
    unfolding r by simp_all
  with i show ?thesis by blast
qed

text \<open>A memory dump whose offset in the file is page aligned answers exactly the addresses from
  its start address on, with the bytes that follow the eight bytes of the start address.\<close>

theorem MemoryOffline_reads_dump:
  assumes "os_maps sys file contents" and "unat offset + 8 \<le> length contents"
    and "offset AND (os_pagesize sys - 1) = 0"
    and "start = le_word (take 8 (drop (unat offset) contents))"
    and "unat start + (length contents - unat offset - 8) < 2 ^ 64"
  shows "\<exists>f'. MemoryOffline_Init sys file offset f = (Ret start, f') \<and>
     (\<forall>addr n. mem_Read (MemoryOffline f' start) addr n =
        (if unat start \<le> unat addr \<and> unat addr + n \<le> unat start + (length contents - unat offset - 8)
         then Ret (take n (drop (unat offset + 8 + (unat addr - unat start)) contents)) else Fail))"
proof -
  obtain f' where f': "MemoryOffline_Init sys file offset f = (Ret start, f')" "mf_offset f' = 0"
      "unat (mf_size f') = length contents - unat offset - 8"
      "maps_window (f'\<lparr>mf_size := mf_size f' + 8\<rparr>) contents (unat offset) (length contents - unat offset)"
    using MemoryOffline_Init_window [OF assms(1,2), of f] unfolding assms(3) assms(4) [symmetric] by blast
  have "maps_window (f'\<lparr>mf_size := mf_size f' + 8\<rparr>) contents (unat offset)
      ((length contents - unat offset - 8) + 8)" using f'(4) assms(2) by simp
  note read = MemoryOffline_Read_dump [OF this f'(3,2) assms(5)]
  show ?thesis
    by (intro exI [of _ f'] conjI allI f'(1)) (simp only: mem_Read.simps read)
qed

theorem MemoryOffline_reads_dump_witness:
  "\<exists>f'. MemoryOffline_Init (sample_os [100, 0, 0, 0, 0, 0, 0, 0, 7, 8, 9]) ''d'' 0 new_mapped_file =
       (Ret 100, f') \<and>
     mem_Read (MemoryOffline f' 100) 101 2 = Ret [8, 9] \<and> mem_Read (MemoryOffline f' 100) 102 2 = Fail"
proof -
  let ?c = "[100, 0, 0, 0, 0, 0, 0, 0, 7, 8, 9] :: u8 list"
  have m: "os_maps (sample_os ?c) ''d'' ?c" by (rule sample_os_maps) simp
  have h: "unat (0 :: u64) + 8 \<le> length ?c" "0 AND (os_pagesize (sample_os ?c) - 1) = 0"
      "100 = (le_word (take 8 (drop (unat (0 :: u64)) ?c)) :: u64)"
      "unat (100 :: u64) + (length ?c - unat (0 :: u64) - 8) < 2 ^ 64"
    by simp_all
  from MemoryOffline_reads_dump [OF m h, of new_mapped_file]
  obtain f' where i: "MemoryOffline_Init (sample_os ?c) ''d'' 0 new_mapped_file = (Ret 100, f')"
    and r: "\<And>addr n. mem_Read (MemoryOffline f' 100) addr n =
        (if unat (100 :: u64) \<le> unat addr \<and> unat addr + n \<le> unat (100 :: u64) + (length ?c - unat (0 :: u64) - 8)
         then Ret (take n (drop (unat (0 :: u64) + 8 + (unat addr - unat (100 :: u64))) ?c)) else Fail)"
    by blast
  have "mem_Read (MemoryOffline f' 100) 101 2 = Ret [8, 9]" "mem_Read (MemoryOffline f' 100) 102 2 = Fail"
    unfolding r by simp_all
  with i show ?thesis by blast
qed



text \<open>A \<open>MemoryRange\<close> is a slice: it translates every accepted address into \<open>[begin, end)\<close> of the
  underlying memory without wrapping, as the comment in the code claims, and rejects all others.\<close>

theorem MemoryRange_is_slice:
  assumes "new_MemoryRange m b e = Ret r"
  shows "mem_Read r addr n = (if unat addr + n \<le> unat e - unat b then mem_Read m (addr + b) n else Fail) \<and>
     (unat addr + n \<le> unat e - unat b \<longrightarrow>
        unat (addr + b) = unat addr + unat b \<and> unat (addr + b) + n \<le> unat e)"
  using MemoryRange_slice [OF assms, of addr n] by blast

theorem MemoryRange_is_slice_witness:
  "new_MemoryRange (MemoryBuffer [1, 2, 3, 4, 5]) 1 4 = Ret (MemoryRange (MemoryBuffer [1, 2, 3, 4, 5]) 1 3) \<and>
   mem_Read (MemoryRange (MemoryBuffer [1, 2, 3, 4, 5]) 1 3) 1 2 = Ret [3, 4] \<and>
   mem_Read (MemoryRange (MemoryBuffer [1, 2, 3, 4, 5]) 1 3) 2 2 = Fail"
proof -
  have n: "new_MemoryRange (MemoryBuffer [1, 2, 3, 4, 5]) 1 4 =
      Ret (MemoryRange (MemoryBuffer [1, 2, 3, 4, 5]) 1 3)"
    by (simp add: new_MemoryRange_def)
  show ?thesis
    using n MemoryRange_is_slice [OF n, of 1 2] MemoryRange_is_slice [OF n, of 2 2]
    by (simp add: MemoryBuffer_Read_def add_overflow_def)
qed

text \<open>\<open>ReadString\<close> returns the bytes up to the terminating NUL when they fit \<open>max_read\<close>, and
  otherwise fails with the first \<open>max_read\<close> bytes in the caller's string.\<close>

theorem ReadString_correct:
  assumes "mem_holds m a (str @ [0])" and "0 \<notin> set str"
  shows "mem_ReadString m a max_read =
     (if length str < unat max_read then (Ret (), str) else (Fail, take (unat max_read) str))"
proof (cases "length str < unat max_read")
  case True
  then show ?thesis
    using ReadString_loop_terminated [OF assms] by (simp add: mem_ReadString_def)
next
  case False
  have "mem_holds m a (take (unat max_read) str)"
    using mem_holds_append(1) [of m a "take (unat max_read) str" "drop (unat max_read) str @ [0]"] assms(1)
    by (simp flip: append_assoc)
  moreover have "0 \<notin> set (take (unat max_read) str)" using assms(2) by (meson in_set_takeD)
  ultimately show ?thesis
    using False ReadString_loop_unterminated [of m a "take (unat max_read) str" "unat max_read"]
    by (simp add: mem_ReadString_def)
qed

theorem ReadString_correct_witness:
  "mem_ReadString (MemoryBuffer [9, 104, 105, 0, 9]) 1 10 = (Ret (), [104, 105]) \<and>
   mem_ReadString (MemoryBuffer [9, 104, 105, 0, 9]) 1 2 = (Fail, [104, 105])"
proof -
  have h: "mem_holds (MemoryBuffer [9, 104, 105, 0, 9]) 1 ([104, 105] @ [0])"
    using mem_holds_MemoryBuffer [of "[9]" "[104, 105] @ [0]" "[9]"] by simp
  show ?thesis
    using ReadString_correct [OF h, of 10] ReadString_correct [OF h, of 2] by simp
qed

end
