(* ===== verification/DwarfMemory.thy ===== *)
theory DwarfMemory
  imports Memory
begin

text \<open>
  The cursor over encoded DWARF data: \<open>DwarfMemory.cpp\<close>, \<open>DwarfMemory.h\<close> and the pointer encodings
  of \<open>DwarfEncoding.h\<close>. An object is a \<open>dwarf_memory\<close> record; every member function is an operation
  on it that returns its outcome and the object after the call, also when it fails half way. The
  template parameter \<open>AddressType\<close> is the type \<open>'a\<close> of an \<open>'a itself\<close> argument (32 or 64).
\<close>

section \<open>Encodings\<close>

definition DW_EH_PE_omit :: u8 where [simp]: "DW_EH_PE_omit = 0xff"
definition DW_EH_PE_absptr :: u8 where [simp]: "DW_EH_PE_absptr = 0x00"
definition DW_EH_PE_uleb128 :: u8 where [simp]: "DW_EH_PE_uleb128 = 0x01"
definition DW_EH_PE_udata2 :: u8 where [simp]: "DW_EH_PE_udata2 = 0x02"
definition DW_EH_PE_udata4 :: u8 where [simp]: "DW_EH_PE_udata4 = 0x03"
definition DW_EH_PE_udata8 :: u8 where [simp]: "DW_EH_PE_udata8 = 0x04"
definition DW_EH_PE_sleb128 :: u8 where [simp]: "DW_EH_PE_sleb128 = 0x09"
definition DW_EH_PE_sdata2 :: u8 where [simp]: "DW_EH_PE_sdata2 = 0x0a"
definition DW_EH_PE_sdata4 :: u8 where [simp]: "DW_EH_PE_sdata4 = 0x0b"
definition DW_EH_PE_sdata8 :: u8 where [simp]: "DW_EH_PE_sdata8 = 0x0c"
definition DW_EH_PE_pcrel :: u8 where [simp]: "DW_EH_PE_pcrel = 0x10"
definition DW_EH_PE_textrel :: u8 where [simp]: "DW_EH_PE_textrel = 0x20"
definition DW_EH_PE_datarel :: u8 where [simp]: "DW_EH_PE_datarel = 0x30"
definition DW_EH_PE_funcrel :: u8 where [simp]: "DW_EH_PE_funcrel = 0x40"
definition DW_EH_PE_aligned :: u8 where [simp]: "DW_EH_PE_aligned = 0x50"
definition DW_EH_PE_udata1 :: u8 where [simp]: "DW_EH_PE_udata1 = 0x0d"
definition DW_EH_PE_sdata1 :: u8 where [simp]: "DW_EH_PE_sdata1 = 0x0e"
definition DW_EH_PE_block :: u8 where [simp]: "DW_EH_PE_block = 0x0f"

section \<open>The object\<close>

record dwarf_memory =
  dm_memory :: memory
  cur_offset :: u64
  pc_offset :: u64
  data_offset :: u64
  func_offset :: u64
  text_offset :: u64

definition new_DwarfMemory :: "memory \<Rightarrow> dwarf_memory" where
  "new_DwarfMemory m = \<lparr>dm_memory = m, cur_offset = 0, pc_offset = -1, data_offset = -1,
     func_offset = -1, text_offset = -1\<rparr>"

definition set_cur_offset :: "u64 \<Rightarrow> dwarf_memory \<Rightarrow> dwarf_memory" where
  "set_cur_offset off dm = dm\<lparr>cur_offset := off\<rparr>"

definition set_pc_offset :: "u64 \<Rightarrow> dwarf_memory \<Rightarrow> dwarf_memory" where
  "set_pc_offset off dm = dm\<lparr>pc_offset := off\<rparr>"

definition set_data_offset :: "u64 \<Rightarrow> dwarf_memory \<Rightarrow> dwarf_memory" where
  "set_data_offset off dm = dm\<lparr>data_offset := off\<rparr>"

definition set_func_offset :: "u64 \<Rightarrow> dwarf_memory \<Rightarrow> dwarf_memory" where
  "set_func_offset off dm = dm\<lparr>func_offset := off\<rparr>"

definition set_text_offset :: "u64 \<Rightarrow> dwarf_memory \<Rightarrow> dwarf_memory" where
  "set_text_offset off dm = dm\<lparr>text_offset := off\<rparr>"

definition clear_pc_offset :: "dwarf_memory \<Rightarrow> dwarf_memory" where
  "clear_pc_offset dm = dm\<lparr>pc_offset := -1\<rparr>"

definition clear_data_offset :: "dwarf_memory \<Rightarrow> dwarf_memory" where
  "clear_data_offset dm = dm\<lparr>data_offset := -1\<rparr>"

definition clear_func_offset :: "dwarf_memory \<Rightarrow> dwarf_memory" where
  "clear_func_offset dm = dm\<lparr>func_offset := -1\<rparr>"

definition clear_text_offset :: "dwarf_memory \<Rightarrow> dwarf_memory" where
  "clear_text_offset dm = dm\<lparr>text_offset := -1\<rparr>"

section \<open>Operations\<close>

definition dm_ReadBytes :: "nat \<Rightarrow> (dwarf_memory, u8 list) op" where
  "dm_ReadBytes num_bytes dm =
     (case mem_Read (dm_memory dm) (cur_offset dm) num_bytes of
        Ret bs \<Rightarrow> (Ret bs, dm\<lparr>cur_offset := cur_offset dm + of_nat num_bytes\<rparr>)
      | Fail \<Rightarrow> (Fail, dm)
      | Abort \<Rightarrow> (Abort, dm)
      | Undef \<Rightarrow> (Undef, dm))"

definition dm_ReadSigned :: "'s::len itself \<Rightarrow> (dwarf_memory, u64) op" where
  "dm_ReadSigned T = rbind (dm_ReadBytes (sizeof T)) (\<lambda>bs. rret (scast (le_word bs :: 's word)))"

text \<open>
  The loop of \<open>ReadULEB128\<close> and \<open>ReadSLEB128\<close> (the same text in both): the value collected, the
  shift after the last byte, and the last byte. \<open>static_cast<uint64_t>(..) << shift\<close> is undefined
  for a shift of 64 or more.
\<close>

function leb128_loop :: "u64 \<Rightarrow> nat \<Rightarrow> (dwarf_memory, u64 \<times> nat \<times> u8) op" where
  "leb128_loop cur_value shift dm =
     (case dm_ReadBytes 1 dm of
        (Ret bs, dm') \<Rightarrow>
          let byte = hd bs in
          if 64 \<le> shift then (Undef, dm')
          else
            let cur_value = cur_value + push_bit shift (ucast (byte AND 0x7f));
                shift' = shift + 7 in
            if byte AND 0x80 \<noteq> 0 then leb128_loop cur_value shift' dm'
            else (Ret (cur_value, shift', byte), dm')
      | (Fail, dm') \<Rightarrow> (Fail, dm')
      | (Abort, dm') \<Rightarrow> (Abort, dm')
      | (Undef, dm') \<Rightarrow> (Undef, dm'))"
  by pat_completeness auto
termination
  by (relation "measure (\<lambda>(cur_value, shift, dm). 64 - shift)") auto

declare leb128_loop.simps [simp del]

definition dm_ReadULEB128 :: "(dwarf_memory, u64) op" where
  "dm_ReadULEB128 = rbind (leb128_loop 0 0) (\<lambda>(cur_value, shift, byte). rret cur_value)"

text \<open>The signed result is kept as the 64-bit word that represents it.\<close>

definition dm_ReadSLEB128 :: "(dwarf_memory, u64) op" where
  "dm_ReadSLEB128 = rbind (leb128_loop 0 0) (\<lambda>(cur_value, shift, byte).
     if byte AND 0x40 \<noteq> 0 then
       if 64 \<le> shift then rundef
       else rret (cur_value OR push_bit shift (-1))
     else rret cur_value)"

definition GetEncodedSize :: "'a::len itself \<Rightarrow> u8 \<Rightarrow> nat" where
  "GetEncodedSize T encoding =
     (let e = encoding AND 0x0f in
      if e = DW_EH_PE_absptr then sizeof T
      else if e = DW_EH_PE_udata1 \<or> e = DW_EH_PE_sdata1 then 1
      else if e = DW_EH_PE_udata2 \<or> e = DW_EH_PE_sdata2 then 2
      else if e = DW_EH_PE_udata4 \<or> e = DW_EH_PE_sdata4 then 4
      else if e = DW_EH_PE_udata8 \<or> e = DW_EH_PE_sdata8 then 8
      else 0)"

definition AdjustEncodedValue :: "u8 \<Rightarrow> u64 \<Rightarrow> (dwarf_memory, u64) op" where
  "AdjustEncodedValue encoding v dm =
     (if encoding AND 0x0f \<noteq> 0 then (Abort, dm)
      else if encoding = DW_EH_PE_aligned then (Abort, dm)
      else if encoding = DW_EH_PE_absptr then (Ret v, dm)
      else if encoding = DW_EH_PE_pcrel then
        (if pc_offset dm = -1 then (Fail, dm) else (Ret (v + pc_offset dm), dm))
      else if encoding = DW_EH_PE_textrel then
        (if text_offset dm = -1 then (Fail, dm) else (Ret (v + text_offset dm), dm))
      else if encoding = DW_EH_PE_datarel then
        (if data_offset dm = -1 then (Fail, dm) else (Ret (v + data_offset dm), dm))
      else if encoding = DW_EH_PE_funcrel then
        (if func_offset dm = -1 then (Fail, dm) else (Ret (v + func_offset dm), dm))
      else (Fail, dm))"

text \<open>The \<open>switch\<close> of \<open>ReadEncodedValue\<close> that gets the data.\<close>

definition read_encoded_data :: "'a::len itself \<Rightarrow> u8 \<Rightarrow> (dwarf_memory, u64) op" where
  "read_encoded_data T encoding =
     (let e = encoding AND 0x0f in
      if e = DW_EH_PE_absptr then rbind (dm_ReadBytes (sizeof T)) (\<lambda>bs. rret (le_word bs))
      else if e = DW_EH_PE_uleb128 then dm_ReadULEB128
      else if e = DW_EH_PE_sleb128 then dm_ReadSLEB128
      else if e = DW_EH_PE_udata1 then rbind (dm_ReadBytes 1) (\<lambda>bs. rret (ucast (le_word bs :: u8)))
      else if e = DW_EH_PE_sdata1 then dm_ReadSigned TYPE(8)
      else if e = DW_EH_PE_udata2 then rbind (dm_ReadBytes 2) (\<lambda>bs. rret (ucast (le_word bs :: u16)))
      else if e = DW_EH_PE_sdata2 then dm_ReadSigned TYPE(16)
      else if e = DW_EH_PE_udata4 then rbind (dm_ReadBytes 4) (\<lambda>bs. rret (ucast (le_word bs :: u32)))
      else if e = DW_EH_PE_sdata4 then dm_ReadSigned TYPE(32)
      else if e = DW_EH_PE_udata8 then rbind (dm_ReadBytes 8) (\<lambda>bs. rret (le_word bs))
      else if e = DW_EH_PE_sdata8 then dm_ReadSigned TYPE(64)
      else rfail)"

text \<open>\<open>__builtin_add_overflow\<close> stores the wrapped sum in \<open>cur_offset_\<close> also when it reports overflow.\<close>

definition dm_ReadEncodedValue :: "'a::len itself \<Rightarrow> u8 \<Rightarrow> (dwarf_memory, u64) op" where
  "dm_ReadEncodedValue T encoding dm =
     (if encoding = DW_EH_PE_omit then (Ret 0, dm)
      else if encoding = DW_EH_PE_aligned then
        (let sum = cur_offset dm + of_nat (sizeof T - 1) in
         if add_overflow (cur_offset dm) (sizeof T - 1) then (Fail, dm\<lparr>cur_offset := sum\<rparr>)
         else rbind (dm_ReadBytes (sizeof T)) (\<lambda>bs. rret (le_word bs))
                (dm\<lparr>cur_offset := sum AND - of_nat (sizeof T)\<rparr>))
      else rbind (read_encoded_data T encoding) (AdjustEncodedValue (encoding AND 0x70)) dm)"

section \<open>What the operations leave alone\<close>

text \<open>Everything of the object but the cursor.\<close>

definition dm_env :: "dwarf_memory \<Rightarrow> memory \<times> u64 \<times> u64 \<times> u64 \<times> u64" where
  "dm_env dm = (dm_memory dm, pc_offset dm, data_offset dm, func_offset dm, text_offset dm)"

lemma dm_env_cur_offset [simp]: "dm_env (dm\<lparr>cur_offset := off\<rparr>) = dm_env dm"
  by (simp add: dm_env_def)

lemma dm_env_eqI: "dm_env dm = dm_env dm' \<Longrightarrow> cur_offset dm = cur_offset dm' \<Longrightarrow> dm = dm'"
  by (simp add: dm_env_def)

abbreviation moves_cursor :: "(dwarf_memory, 'a) op \<Rightarrow> bool" where
  "moves_cursor f \<equiv> keeps dm_env f"

lemma moves_cursor_ReadBytes [keeps_rules]: "moves_cursor (dm_ReadBytes n)"
  by (auto simp: keeps_def dm_ReadBytes_def split: res.splits)

lemma leb128_loop_env: "dm_env (snd (leb128_loop cur shift dm)) = dm_env dm"
proof (induction cur shift dm rule: leb128_loop.induct)
  case (1 cur shift dm)
  obtain q dm1 where q: "dm_ReadBytes 1 dm = (q, dm1)" by fastforce
  have dm1: "dm_env dm1 = dm_env dm" using keepsD [OF moves_cursor_ReadBytes q] .
  show ?case
    using "1.IH" [OF q [symmetric]] q dm1
    by (cases q) (auto simp: leb128_loop.simps [of cur shift dm] Let_def)
qed

lemma moves_cursor_leb128_loop [keeps_rules]: "moves_cursor (leb128_loop cur shift)"
  by (simp add: keeps_def leb128_loop_env)

lemma moves_cursor_LEB128 [keeps_rules]: "moves_cursor dm_ReadULEB128" "moves_cursor dm_ReadSLEB128"
  by (auto simp: dm_ReadULEB128_def dm_ReadSLEB128_def intro!: keeps_rules)

lemma moves_cursor_ReadSigned [keeps_rules]: "moves_cursor (dm_ReadSigned T)"
  unfolding dm_ReadSigned_def by (intro keeps_rules)

lemma moves_cursor_read_encoded_data [keeps_rules]: "moves_cursor (read_encoded_data T e)"
  unfolding read_encoded_data_def Let_def by (intro keeps_rules)

lemma moves_cursor_Adjust [keeps_rules]: "moves_cursor (AdjustEncodedValue e v)"
  by (simp add: keeps_def AdjustEncodedValue_def)

lemma moves_cursor_ReadEncodedValue [keeps_rules]: "moves_cursor (dm_ReadEncodedValue T e)"
proof -
  have "moves_cursor (rbind (dm_ReadBytes n) (\<lambda>bs. rret (le_word bs :: u64)))" for n
    by (intro keeps_rules)
  moreover have "moves_cursor (rbind (read_encoded_data T e) (AdjustEncodedValue (e AND 0x70)))"
    by (intro keeps_rules)
  ultimately show ?thesis
    by (simp add: keeps_def dm_ReadEncodedValue_def Let_def)
qed

section \<open>LEB128\<close>

text \<open>A complete LEB128 encoding: the high bit is set on all bytes but the last.\<close>

fun leb_complete :: "u8 list \<Rightarrow> bool" where
  "leb_complete [] = False"
| "leb_complete [b] = (b AND 0x80 = 0)"
| "leb_complete (b # bs) = (b AND 0x80 \<noteq> 0 \<and> leb_complete bs)"

primrec leb_value :: "u8 list \<Rightarrow> nat" where
  "leb_value [] = 0"
| "leb_value (b # bs) = unat (b AND 0x7f) + 128 * leb_value bs"

lemma leb_value_less: "leb_value bs < 2 ^ (7 * length bs)"
proof (induction bs)
  case (Cons b bs)
  have "unat (b AND 0x7f) \<le> 127"
    using word_and_le1 [of b "0x7f"] by (simp add: word_le_nat_alt)
  moreover have "128 * leb_value bs + 128 \<le> 2 ^ (7 + 7 * length bs)"
    using Cons.IH by (simp add: power_add)
  ultimately show ?case by simp
qed simp

lemma dm_ReadBytes_holds:
  assumes "mem_holds (dm_memory dm) (cur_offset dm) bs" and "0 < n" and "n \<le> length bs"
  shows "dm_ReadBytes n dm = (Ret (take n bs), dm\<lparr>cur_offset := cur_offset dm + of_nat n\<rparr>)"
  using mem_holds_read [OF assms] by (simp add: dm_ReadBytes_def)

lemma leb128_digit: "push_bit shift (ucast (b AND 0x7f) :: u64) = of_nat (2 ^ shift * unat (b AND 0x7f :: u8))"
  by (simp add: push_bit_eq_mult mult.commute)

lemma leb128_step:
  assumes "dm_ReadBytes 1 dm = (Ret [b], dm')" and "shift < 64"
  shows "leb128_loop cur shift dm =
     (if b AND 0x80 \<noteq> 0
      then leb128_loop (cur + of_nat (2 ^ shift * unat (b AND 0x7f))) (shift + 7) dm'
      else (Ret (cur + of_nat (2 ^ shift * unat (b AND 0x7f)), shift + 7, b), dm'))"
  using assms by (simp only: leb128_loop.simps [of cur shift dm] Let_def leb128_digit) simp

lemma leb128_loop_complete:
  assumes "leb_complete bs" and "mem_holds (dm_memory dm) (cur_offset dm) bs"
    and "shift + 7 * (length bs - 1) < 64"
  shows "leb128_loop cur shift dm =
     (Ret (cur + of_nat (2 ^ shift * leb_value bs), shift + 7 * length bs, last bs),
      dm\<lparr>cur_offset := cur_offset dm + of_nat (length bs)\<rparr>)"
  using assms
proof (induction bs arbitrary: cur shift dm rule: leb_complete.induct)
  case 1
  then show ?case by simp
next
  case (2 b)
  have "dm_ReadBytes 1 dm = (Ret [b], dm\<lparr>cur_offset := cur_offset dm + 1\<rparr>)"
    using dm_ReadBytes_holds [OF "2.prems"(2), of 1] by simp
  then show ?case
    using "2.prems"(1,3) leb128_step [of dm b _ shift cur] by simp
next
  case (3 b c bs)
  let ?dm = "dm\<lparr>cur_offset := cur_offset dm + 1\<rparr>"
  have r: "dm_ReadBytes 1 dm = (Ret [b], ?dm)"
    using dm_ReadBytes_holds [OF "3.prems"(2), of 1] by simp
  have h: "mem_holds (dm_memory ?dm) (cur_offset ?dm) (c # bs)"
    using mem_holds_Cons(2) [OF "3.prems"(2)] by simp
  have IH: "leb128_loop cur' (shift + 7) ?dm =
     (Ret (cur' + of_nat (2 ^ (shift + 7) * leb_value (c # bs)), shift + 7 + 7 * length (c # bs), last (c # bs)),
      ?dm\<lparr>cur_offset := cur_offset ?dm + of_nat (length (c # bs))\<rparr>)" for cur'
    by (rule "3.IH" [OF _ h]) (use "3.prems" in simp_all)
  show ?case
    using "3.prems" leb128_step [OF r, of shift cur] IH
    by (simp add: power_add algebra_simps)
qed

text \<open>More bytes than 64 bits hold: the shift reaches 64 on a byte that is still read.\<close>

lemma leb128_loop_too_long:
  assumes "leb_complete bs" and "mem_holds (dm_memory dm) (cur_offset dm) bs"
    and "64 \<le> shift + 7 * (length bs - 1)"
  shows "\<exists>dm'. leb128_loop cur shift dm = (Undef, dm')"
  using assms
proof (induction bs arbitrary: cur shift dm)
  case (Cons b bs)
  let ?dm = "dm\<lparr>cur_offset := cur_offset dm + 1\<rparr>"
  have r: "dm_ReadBytes 1 dm = (Ret [b], ?dm)"
    using dm_ReadBytes_holds [OF Cons.prems(2), of 1] by simp
  show ?case
  proof (cases "64 \<le> shift")
    case True
    then show ?thesis using r by (simp add: leb128_loop.simps [of cur shift dm] Let_def)
  next
    case False
    with Cons.prems(3) obtain c cs where bs: "bs = c # cs" by (cases bs) auto
    have h: "mem_holds (dm_memory ?dm) (cur_offset ?dm) bs"
      using mem_holds_Cons(2) [OF Cons.prems(2)] by simp
    have "\<exists>dm'. leb128_loop cur' (shift + 7) ?dm = (Undef, dm')" for cur'
      by (rule Cons.IH [OF _ h]) (use Cons.prems bs in auto)
    with False bs Cons.prems(1) show ?thesis using leb128_step [OF r, of shift cur] by simp
  qed
qed simp

subsection \<open>Encoders of the DWARF standard\<close>

fun uleb_encode :: "nat \<Rightarrow> u8 list" where
  "uleb_encode n = (if n < 128 then [of_nat n] else of_nat (n mod 128 + 128) # uleb_encode (n div 128))"

declare uleb_encode.simps [simp del]

lemma leb_digit_bits:
  assumes "n < 128"
  shows "of_nat n AND (0x80 :: u8) = 0" and "unat (of_nat n AND (0x7f :: u8)) = n"
    and "of_nat (n + 128) AND (0x80 :: u8) \<noteq> 0" and "unat (of_nat (n + 128) AND (0x7f :: u8)) = n"
proof -
  have m: "(w :: u8) AND 0x7f = take_bit 7 w" for w by (simp add: take_bit_eq_mask mask_eq_exp_minus_1)
  have b: "(w :: u8) AND 0x80 = push_bit 7 (of_bool (bit w 7))" for w
    by (rule bit_word_eqI) (auto simp: bit_simps numeral_eq_Suc less_Suc_eq)
  have "\<not> bit (of_nat n :: u8) 7" "bit (of_nat (n + 128) :: u8) 7"
    using assms by (simp_all only: bit_of_nat_iff) (simp_all add: bit_iff_odd div_add_self2)
  then show "of_nat n AND (0x80 :: u8) = 0" "of_nat (n + 128) AND (0x80 :: u8) \<noteq> 0"
    unfolding b by simp_all
  show "unat (of_nat n AND (0x7f :: u8)) = n" "unat (of_nat (n + 128) AND (0x7f :: u8)) = n"
    using assms by (simp_all only: m unsigned_take_bit_eq unat_of_nat) (simp_all add: take_bit_eq_mod)
qed

lemma uleb_encode_not_Nil: "uleb_encode n \<noteq> []"
  by (subst uleb_encode.simps) simp

lemma leb_complete_Cons: "leb_complete bs \<Longrightarrow> b AND 0x80 \<noteq> 0 \<Longrightarrow> leb_complete (b # bs)"
  by (cases bs) simp_all

lemma uleb_encode_complete: "leb_complete (uleb_encode n)"
  by (induction n rule: uleb_encode.induct)
    (subst uleb_encode.simps, auto simp: leb_digit_bits intro: leb_complete_Cons simp del: of_nat_add)

lemma uleb_encode_value: "leb_value (uleb_encode n) = n"
proof (induction n rule: uleb_encode.induct)
  case (1 n)
  show ?case
  proof (cases "n < 128")
    case True
    then show ?thesis by (subst uleb_encode.simps) (simp add: leb_digit_bits)
  next
    case False
    have "unat (of_nat (n mod 128 + 128) AND (0x7f :: u8)) = n mod 128"
      by (rule leb_digit_bits) simp
    with False 1 show ?thesis by (subst uleb_encode.simps) (simp del: of_nat_add)
  qed
qed

lemma uleb_encode_length: "n < 2 ^ (7 * k) \<Longrightarrow> 0 < k \<Longrightarrow> length (uleb_encode n) \<le> k"
proof (induction n arbitrary: k rule: uleb_encode.induct)
  case (1 n)
  show ?case
  proof (cases "n < 128")
    case True
    then show ?thesis using "1.prems" by (subst uleb_encode.simps) simp
  next
    case False
    then obtain j where k: "k = Suc j" "0 < j"
      using "1.prems" by (cases k; cases "k - 1") auto
    have "n div 128 < 2 ^ (7 * j)"
      using "1.prems"(1) k by (simp add: power_add less_mult_imp_div_less mult.commute)
    with 1 False k show ?thesis by (subst uleb_encode.simps) simp
  qed
qed

lemma uleb_encode_length_64: "n < 2 ^ 64 \<Longrightarrow> length (uleb_encode n) \<le> 10"
  by (rule uleb_encode_length) simp_all

lemma ReadULEB128_complete:
  assumes "leb_complete bs" and "mem_holds (dm_memory dm) (cur_offset dm) bs" and "length bs \<le> 10"
  shows "dm_ReadULEB128 dm =
     (Ret (of_nat (leb_value bs)), dm\<lparr>cur_offset := cur_offset dm + of_nat (length bs)\<rparr>)"
  using leb128_loop_complete [OF assms(1,2), of 0 0] assms(3)
  by (simp add: dm_ReadULEB128_def rret_def)

lemma ReadULEB128_encode:
  assumes "mem_holds (dm_memory dm) (cur_offset dm) (uleb_encode (unat v))"
  shows "dm_ReadULEB128 dm =
     (Ret v, dm\<lparr>cur_offset := cur_offset dm + of_nat (length (uleb_encode (unat v)))\<rparr>)"
proof -
  have "unat v < 2 ^ 64" using unsigned_less [of v, where ?'a = nat] by simp
  then show ?thesis
    using ReadULEB128_complete [OF uleb_encode_complete assms uleb_encode_length_64]
    by (simp add: uleb_encode_value)
qed

function sleb_encode :: "int \<Rightarrow> u8 list" where
  "sleb_encode v = (if -64 \<le> v \<and> v < 64 then [of_int (v mod 128)]
     else of_int (v mod 128 + 128) # sleb_encode (v div 128))"
  by pat_completeness auto
termination
proof (relation "measure (\<lambda>v. nat \<bar>v\<bar>)", goal_cases)
  case (2 v)
  then have "v \<noteq> 0" "v \<noteq> -1" by auto
  then have "\<bar>v div 128\<bar> < \<bar>v\<bar>" by linarith
  with \<open>v \<noteq> 0\<close> show ?case by simp
qed simp

declare sleb_encode.simps [simp del]

lemma sleb_encode_length_iff:
  "length (sleb_encode v) \<le> Suc k \<longleftrightarrow> - (2 ^ (7 * k + 6)) \<le> v \<and> v < 2 ^ (7 * k + 6)"
proof (induction k arbitrary: v)
  case 0
  have "length (sleb_encode w) \<noteq> 0" for w by (simp add: sleb_encode.simps)
  then show ?case using sleb_encode.simps [of v] by (auto simp: le_Suc_eq)
next
  case (Suc k)
  have p: "(2 :: int) ^ (7 * Suc k + 6) = 128 * 2 ^ (7 * k + 6)" "(64 :: int) \<le> 2 ^ (7 * k + 6)"
    using power_increasing [of 6 "7 * k + 6" "2 :: int"] by (simp_all add: power_add)
  have "- (2 ^ (7 * k + 6)) \<le> v div 128 \<and> v div 128 < 2 ^ (7 * k + 6) \<longleftrightarrow>
      - (2 ^ (7 * Suc k + 6)) \<le> v \<and> v < 2 ^ (7 * Suc k + 6)"
    unfolding p(1) by linarith
  then show ?case
    using p Suc.IH [of "v div 128"] by (simp add: sleb_encode.simps [of v])
qed

lemma sleb_digit:
  assumes "0 \<le> b" and "b < 128"
  shows "of_int b AND (0x80 :: u8) = 0" and "unat (of_int b AND (0x7f :: u8)) = nat b"
    and "of_int (b + 128) AND (0x80 :: u8) \<noteq> 0" and "unat (of_int (b + 128) AND (0x7f :: u8)) = nat b"
    and "of_int b AND (0x40 :: u8) \<noteq> 0 \<longleftrightarrow> 64 \<le> b"
proof -
  define n where "n = nat b"
  have n: "n < 128" "b = int n" using assms by (simp_all add: n_def)
  note d = leb_digit_bits [OF n(1)]
  have c: "of_int b = (of_nat n :: u8)" "of_int (b + 128) = (of_nat (n + 128) :: u8)"
    using n by simp_all
  show "of_int b AND (0x80 :: u8) = 0" "unat (of_int b AND (0x7f :: u8)) = nat b"
    "of_int (b + 128) AND (0x80 :: u8) \<noteq> 0" "unat (of_int (b + 128) AND (0x7f :: u8)) = nat b"
    unfolding c using d n by simp_all
  have m: "(w :: u8) AND 0x40 = push_bit 6 (of_bool (bit w 6))" for w
    by (rule bit_word_eqI) (auto simp: bit_simps numeral_eq_Suc less_Suc_eq)
  have "n div 64 = of_bool (64 \<le> n)" using n(1) by (auto intro: div_nat_eqI)
  then have "bit (of_nat n :: u8) 6 \<longleftrightarrow> 64 \<le> n"
    by (simp only: bit_of_nat_iff bit_iff_odd [of n 6]) simp
  then show "of_int b AND (0x40 :: u8) \<noteq> 0 \<longleftrightarrow> 64 \<le> b"
    unfolding c m using n by simp
qed

lemma sleb_encode_complete: "leb_complete (sleb_encode v)"
  by (induction v rule: sleb_encode.induct)
    (subst sleb_encode.simps, auto simp: sleb_digit(1,3) intro!: leb_complete_Cons simp del: of_int_add)

lemma sleb_encode_value: "int (leb_value (sleb_encode v)) = v mod 2 ^ (7 * length (sleb_encode v))"
proof (induction v rule: sleb_encode.induct)
  case (1 v)
  have d: "int (unat (of_int (v mod 128) AND (0x7f :: u8))) = v mod 128"
    "int (unat (of_int (v mod 128 + 128) AND (0x7f :: u8))) = v mod 128"
    using sleb_digit(2,4) [of "v mod 128"] by (simp_all del: of_int_add)
  show ?case
  proof (cases "-64 \<le> v \<and> v < 64")
    case True
    then show ?thesis using d by (simp add: sleb_encode.simps [of v])
  next
    case False
    have "v mod (128 * 2 ^ (7 * length (sleb_encode (v div 128)))) =
        v mod 128 + 128 * ((v div 128) mod 2 ^ (7 * length (sleb_encode (v div 128))))"
      by (subst zmod_zmult2_eq) simp_all
    with False d "1.IH" [OF False] show ?thesis
      by (simp add: sleb_encode.simps [of v] power_add del: of_int_add)
  qed
qed

lemma sleb_encode_sign: "last (sleb_encode v) AND 0x40 \<noteq> 0 \<longleftrightarrow> v < 0"
proof (induction v rule: sleb_encode.induct)
  case (1 v)
  show ?case
  proof (cases "-64 \<le> v \<and> v < 64")
    case True
    then have "64 \<le> v mod 128 \<longleftrightarrow> v < 0" by presburger
    then show ?thesis
      using True sleb_digit(5) [of "v mod 128"] by (simp add: sleb_encode.simps [of v])
  next
    case False
    then have "v div 128 < 0 \<longleftrightarrow> v < 0" by linarith
    moreover have "sleb_encode (v div 128) \<noteq> []" by (simp add: sleb_encode.simps)
    ultimately show ?thesis
      using False "1.IH" [OF False] by (auto simp: sleb_encode.simps [of v])
  qed
qed

lemma sleb_sign_extend:
  assumes "- (2 ^ s) \<le> v" and "v < 0"
  shows "(of_int (v mod 2 ^ s) :: u64) OR push_bit s (-1) = of_int v"
proof -
  have v: "v mod 2 ^ s = v + 2 ^ s"
    using assms mod_add_self2 [of v "2 ^ s"] mod_pos_pos_trivial [of "v + 2 ^ s" "2 ^ s"] by simp
  have "(of_int (v mod 2 ^ s) :: u64) = take_bit s (of_int v)"
    by (simp only: take_bit_eq_mod [of s v, symmetric] take_bit_of_int)
  then have "(of_int (v mod 2 ^ s) :: u64) AND push_bit s (-1) = 0"
    by (simp add: bit_eq_iff bit_simps)
  then have "(of_int (v mod 2 ^ s) :: u64) OR push_bit s (-1) = of_int (v mod 2 ^ s) + push_bit s (-1)"
    by (simp add: disjunctive_add_eq_or)
  also have "\<dots> = of_int v" by (simp add: v push_bit_eq_mult)
  finally show ?thesis .
qed

lemma ReadSLEB128_encode:
  assumes "mem_holds (dm_memory dm) (cur_offset dm) (sleb_encode v)"
    and "- (2 ^ 62) \<le> v" and "v < 2 ^ 63"
  shows "dm_ReadSLEB128 dm =
     (Ret (of_int v), dm\<lparr>cur_offset := cur_offset dm + of_nat (length (sleb_encode v))\<rparr>)"
proof -
  let ?l = "length (sleb_encode v)"
  have l: "?l \<le> 10" "v < 0 \<Longrightarrow> ?l \<le> 9"
    using sleb_encode_length_iff [of v 8] sleb_encode_length_iff [of v 9] assms(2,3) by simp_all
  obtain k where k: "?l = Suc k" using sleb_encode_complete [of v] by (cases "sleb_encode v") auto
  have b: "- (2 ^ (7 * ?l)) \<le> v" "v < 2 ^ (7 * ?l)"
    using sleb_encode_length_iff [of v k] k power_increasing [of "7 * k + 6" "7 * ?l" "2 :: int"]
    by (simp_all del: power_increasing_iff)
  have c: "(of_nat (leb_value (sleb_encode v)) :: u64) = of_int (v mod 2 ^ (7 * ?l))"
    using arg_cong [OF sleb_encode_value [of v], of "of_int :: int \<Rightarrow> u64"] by simp
  have loop: "leb128_loop 0 0 dm = (Ret (of_int (v mod 2 ^ (7 * ?l)), 7 * ?l, last (sleb_encode v)),
      dm\<lparr>cur_offset := cur_offset dm + of_nat ?l\<rparr>)"
    using leb128_loop_complete [OF sleb_encode_complete assms(1), of 0 0] l by (simp add: c)
  show ?thesis
  proof (cases "v < 0")
    case True
    then show ?thesis using l(2) sleb_sign_extend [OF b(1)]
      by (simp add: dm_ReadSLEB128_def rbind_def loop sleb_encode_sign rret_def)
  next
    case False
    then show ?thesis using b
      by (simp add: dm_ReadSLEB128_def rbind_def loop sleb_encode_sign rret_def)
  qed
qed

lemma ReadSLEB128_large_negative:
  assumes "mem_holds (dm_memory dm) (cur_offset dm) (sleb_encode v)"
    and "- (2 ^ 63) \<le> v" and "v < - (2 ^ 62)"
  shows "fst (dm_ReadSLEB128 dm) = Undef"
proof -
  have "length (sleb_encode v) = 10"
    using sleb_encode_length_iff [of v 8] sleb_encode_length_iff [of v 9] assms(2,3) by simp
  then show ?thesis
    using leb128_loop_complete [OF sleb_encode_complete assms(1), of 0 0] sleb_encode_sign [of v] assms(3)
    by (simp add: dm_ReadSLEB128_def rbind_def rundef_def)
qed

section \<open>Pointer encodings\<close>

primrec le_nat :: "u8 list \<Rightarrow> nat" where
  "le_nat [] = 0"
| "le_nat (b # bs) = unat b + 256 * le_nat bs"

lemma le_nat_less: "le_nat bs < 2 ^ (8 * length bs)"
proof (induction bs)
  case (Cons b bs)
  have "unat b < 256" using unsigned_less [of b, where ?'a = nat] by simp
  moreover have "256 * le_nat bs + 256 \<le> 2 ^ (8 + 8 * length bs)"
    using Cons.IH by (simp add: power_add)
  ultimately show ?case by simp
qed simp

lemma le_word_of_nat: "(le_word bs :: 'a::len word) = of_nat (le_nat bs)"
  by (induction bs) simp_all

lemma uint_le_word:
  assumes "8 * length bs \<le> LENGTH('a::len)"
  shows "uint (le_word bs :: 'a word) = int (le_nat bs)"
proof -
  have "le_nat bs < 2 ^ LENGTH('a)"
    by (rule less_le_trans [OF le_nat_less]) (simp add: assms)
  then show ?thesis by (simp add: le_word_of_nat uint_nat unat_of_nat)
qed

text \<open>The number that \<open>length bs\<close> bytes denote, as an unsigned or a two's complement number.\<close>

definition le_int :: "bool \<Rightarrow> u8 list \<Rightarrow> int" where
  "le_int sg bs =
     (if sg \<and> 2 ^ (8 * length bs - 1) \<le> le_nat bs then int (le_nat bs) - 2 ^ (8 * length bs)
      else int (le_nat bs))"

lemma signed_take_bit_int_cases:
  assumes "0 \<le> k" and "k < 2 ^ Suc n"
  shows "signed_take_bit n (k :: int) = (if 2 ^ n \<le> k then k - 2 ^ Suc n else k)"
proof -
  have "bit k n \<longleftrightarrow> 2 ^ n \<le> k"
  proof -
    have "k div 2 ^ n = of_bool (2 ^ n \<le> k)"
      using assms by (auto intro: int_div_pos_eq [of k "2 ^ n" 1 "k - 2 ^ n"])
    then show ?thesis by (simp add: bit_iff_odd)
  qed
  moreover have "take_bit (Suc n) k = k" using assms by (simp only: take_bit_int_eq_self_iff)
  ultimately show ?thesis by (simp only: signed_take_bit_eq_take_bit_minus) simp
qed

lemma scast_le_word:
  assumes "8 * length bs = LENGTH('s::len)"
  shows "(scast (le_word bs :: 's word) :: u64) = of_int (le_int True bs)"
proof -
  obtain n where n: "LENGTH('s) = Suc n" using len_gt_0 [where ?'a = 's] by (cases "LENGTH('s)") auto
  have "sint (le_word bs :: 's word) = signed_take_bit n (int (le_nat bs))"
    using assms n by (simp add: sint_uint uint_le_word)
  also have "\<dots> = le_int True bs"
    using le_nat_less [of bs] signed_take_bit_int_cases [of "int (le_nat bs)" n] assms n
    by (simp add: le_int_def del: power_Suc)
  finally show ?thesis by (simp add: scast_eq)
qed

definition encoded_signed :: "u8 \<Rightarrow> bool" where
  "encoded_signed e = (e AND 0x0f \<in> {DW_EH_PE_sdata1, DW_EH_PE_sdata2, DW_EH_PE_sdata4, DW_EH_PE_sdata8})"

text \<open>The address that a relative encoding adds.\<close>

definition encoded_base :: "dwarf_memory \<Rightarrow> u8 \<Rightarrow> u64 option" where
  "encoded_base dm app =
     (if app = DW_EH_PE_absptr then Some 0
      else let base = (if app = DW_EH_PE_pcrel then pc_offset dm else if app = DW_EH_PE_textrel then text_offset dm
             else if app = DW_EH_PE_datarel then data_offset dm else if app = DW_EH_PE_funcrel then func_offset dm
             else -1) in
        if base = -1 then None else Some base)"

lemma AdjustEncodedValue_base:
  "encoded_base dm (e AND 0x70) = Some b \<Longrightarrow> AdjustEncodedValue (e AND 0x70) v dm = (Ret (v + b), dm)"
proof -
  have "(e AND 0x70) AND 0x0f = 0" by (simp add: and.assoc)
  then show "encoded_base dm (e AND 0x70) = Some b \<Longrightarrow> AdjustEncodedValue (e AND 0x70) v dm = (Ret (v + b), dm)"
    by (auto simp: AdjustEncodedValue_def encoded_base_def Let_def split: if_splits)
qed

lemma encoded_base_env: "dm_env dm = dm_env dm' \<Longrightarrow> encoded_base dm = encoded_base dm'"
  by (simp add: encoded_base_def dm_env_def fun_eq_iff)

lemma nibble_cases:
  fixes e :: u8
  shows "e AND 0x0f \<in> {0, 1, 2, 3, 4, 5, 6, 7, 8, 9, 10, 11, 12, 13, 14, 15}"
proof -
  have "unat (e AND 0x0f) \<le> 15" using word_and_le1 [of e 15] by (simp add: word_le_nat_alt)
  then have "unat (e AND 0x0f) \<in> {0, 1, 2, 3, 4, 5, 6, 7, 8, 9, 10, 11, 12, 13, 14, 15}"
    by (auto simp: numeral_eq_Suc le_Suc_eq)
  from imageI [OF this, of "of_nat :: nat \<Rightarrow> u8"] show ?thesis by simp
qed

lemma ucast_le_word:
  "8 * length bs \<le> LENGTH('l::len) \<Longrightarrow> (ucast (le_word bs :: 'l word) :: 'k::len word) = le_word bs"
  using arg_cong [OF uint_le_word [of bs, where ?'a = 'l], of "of_int :: int \<Rightarrow> 'k word"]
  by (simp add: le_word_of_nat [where ?'a = 'k])

lemma read_encoded_data_fixed:
  fixes T :: "'a::len itself"
  assumes "GetEncodedSize T e = length bs" and "bs \<noteq> []" and "length bs \<le> 8"
    and "mem_holds (dm_memory dm) (cur_offset dm) bs"
  shows "read_encoded_data T e dm =
     (Ret (of_int (le_int (encoded_signed e) bs)), dm\<lparr>cur_offset := cur_offset dm + of_nat (length bs)\<rparr>)"
proof -
  have r: "dm_ReadBytes (length bs) dm = (Ret bs, dm\<lparr>cur_offset := cur_offset dm + of_nat (length bs)\<rparr>)"
    using dm_ReadBytes_holds [OF assms(4), of "length bs"] assms(2) by simp
  have u: "of_int (le_int False bs) = (le_word bs :: u64)" by (simp add: le_int_def le_word_of_nat)
  have c: "length bs = 1 \<Longrightarrow> ucast (le_word bs :: u8) = (le_word bs :: u64)"
    "length bs = 2 \<Longrightarrow> ucast (le_word bs :: u16) = (le_word bs :: u64)"
    "length bs = 4 \<Longrightarrow> ucast (le_word bs :: u32) = (le_word bs :: u64)"
    by (simp_all add: ucast_le_word)
  have s: "length bs = 1 \<Longrightarrow> scast (le_word bs :: u8) = (of_int (le_int True bs) :: u64)"
    "length bs = 2 \<Longrightarrow> scast (le_word bs :: u16) = (of_int (le_int True bs) :: u64)"
    "length bs = 4 \<Longrightarrow> scast (le_word bs :: u32) = (of_int (le_int True bs) :: u64)"
    "length bs = 8 \<Longrightarrow> scast (le_word bs :: u64) = (of_int (le_int True bs) :: u64)"
    by (simp_all add: scast_le_word del: scast_id)
  show ?thesis
    using nibble_cases [of e] assms(1,2) r
    unfolding encoded_signed_def GetEncodedSize_def read_encoded_data_def Let_def dm_ReadSigned_def
    by (elim insertE) (simp_all add: rret_def u c s eq_commute [of _ "length bs"] del: scast_id)
qed

lemma ReadEncodedValue_fixed:
  fixes T :: "'a::len itself"
  assumes "GetEncodedSize T e = length bs" and "bs \<noteq> []" and "length bs \<le> 8"
    and "mem_holds (dm_memory dm) (cur_offset dm) bs"
    and "e \<noteq> DW_EH_PE_aligned" and "encoded_base dm (e AND 0x70) = Some b"
  shows "dm_ReadEncodedValue T e dm =
     (Ret (of_int (le_int (encoded_signed e) bs) + b), dm\<lparr>cur_offset := cur_offset dm + of_nat (length bs)\<rparr>)"
proof -
  have "e \<noteq> DW_EH_PE_omit" using assms(1,2) by (auto simp: GetEncodedSize_def)
  moreover have "encoded_base (dm\<lparr>cur_offset := off\<rparr>) (e AND 0x70) = Some b" for off
    using encoded_base_env [of "dm\<lparr>cur_offset := off\<rparr>" dm] assms(6) by simp
  ultimately show ?thesis
    using assms(5) read_encoded_data_fixed [OF assms(1-4)]
    by (simp add: dm_ReadEncodedValue_def AdjustEncodedValue_base)
qed

subsection \<open>The \<open>CHECK\<close>s\<close>

lemma mem_Read_not_Abort: "mem_Read m a n \<noteq> Abort"
  by (induction m arbitrary: a)
    (auto simp: MemoryBuffer_Read_def MemoryFileAtOffset_Read_def MemoryOffline_Read_def map_copy_def
      MemoryRemote_Read_def remote_aligned_def MemoryLocal_Read_def Let_def split: option.splits res.splits)

lemma no_abort_ReadBytes [no_abort_rules]: "no_abort (dm_ReadBytes n)"
  using mem_Read_not_Abort by (auto simp: no_abort_def dm_ReadBytes_def split: res.splits)

lemma leb128_loop_not_Abort: "fst (leb128_loop cur shift dm) \<noteq> Abort"
proof (induction cur shift dm rule: leb128_loop.induct)
  case (1 cur shift dm)
  show ?case
  proof (cases "dm_ReadBytes 1 dm")
    case (Pair q dm1)
    then show ?thesis
      using "1.IH" [OF Pair [symmetric]] no_abortD [OF no_abort_ReadBytes, of 1 dm]
      by (cases q) (auto simp: leb128_loop.simps [of cur shift dm] Let_def)
  qed
qed

lemma no_abort_leb128_loop [no_abort_rules]: "no_abort (leb128_loop cur shift)"
  by (simp add: no_abort_def leb128_loop_not_Abort)

lemma no_abort_LEB128 [no_abort_rules]: "no_abort dm_ReadULEB128" "no_abort dm_ReadSLEB128"
  by (auto simp: dm_ReadULEB128_def dm_ReadSLEB128_def intro!: no_abort_rules)

lemma no_abort_read_encoded_data [no_abort_rules]: "no_abort (read_encoded_data T e)"
  unfolding read_encoded_data_def dm_ReadSigned_def Let_def by (intro no_abort_rules)

lemma AdjustEncodedValue_Abort_iff:
  "fst (AdjustEncodedValue (e AND 0x70) v dm) = Abort \<longleftrightarrow> e AND 0x70 = 0x50"
proof -
  have "(e AND 0x70) AND 0x0f = 0" by (simp add: and.assoc)
  then show ?thesis by (simp add: AdjustEncodedValue_def)
qed

lemma ReadEncodedValue_Abort_iff:
  "fst (dm_ReadEncodedValue T e dm) = Abort \<longleftrightarrow>
     e AND 0x70 = 0x50 \<and> e \<noteq> DW_EH_PE_aligned \<and> is_Ret (fst (read_encoded_data T e dm))"
proof -
  have o: "e = DW_EH_PE_omit \<Longrightarrow> e AND 0x70 \<noteq> 0x50" by simp
  have al: "rbind (dm_ReadBytes n) (\<lambda>bs. rret (le_word bs :: u64)) d \<noteq> (Abort, d')" for n d d'
    by (intro no_abortD no_abort_rules)
  obtain q dm1 where q: "read_encoded_data T e dm = (q, dm1)" by fastforce
  have "fst (rbind (read_encoded_data T e) (AdjustEncodedValue (e AND 0x70)) dm) = Abort \<longleftrightarrow>
      e AND 0x70 = 0x50 \<and> is_Ret q"
    using q no_abortD [OF no_abort_read_encoded_data, of T e dm]
    by (cases q) (simp_all add: rbind_not_Ret AdjustEncodedValue_Abort_iff)
  then show ?thesis
    using o al q by (auto simp: dm_ReadEncodedValue_def Let_def prod_eq_iff)
qed

section \<open>Properties\<close>

text \<open>C25. Reading back: where the memory at the cursor holds the ULEB128 encoding of a 64-bit number,
  \<open>ReadULEB128\<close> returns that number and leaves the cursor right behind the encoding.\<close>

theorem ReadULEB128_roundtrip:
  assumes "mem_holds (dm_memory dm) (cur_offset dm) (uleb_encode (unat v))"
  shows "dm_ReadULEB128 dm =
     (Ret v, dm\<lparr>cur_offset := cur_offset dm + of_nat (length (uleb_encode (unat v)))\<rparr>)"
  using assms by (rule ReadULEB128_encode)

theorem ReadULEB128_roundtrip_witness:
  "uleb_encode (unat (624485 :: u64)) = [0xe5, 0x8e, 0x26] \<and>
   dm_ReadULEB128 (new_DwarfMemory (MemoryBuffer [0xe5, 0x8e, 0x26, 0x80])) =
     (Ret 624485, (new_DwarfMemory (MemoryBuffer [0xe5, 0x8e, 0x26, 0x80]))\<lparr>cur_offset := 3\<rparr>)"
proof -
  have e: "uleb_encode 624485 = [0xe5, 0x8e, 0x26]"
    by (simp add: uleb_encode.simps)
  show ?thesis
    using ReadULEB128_roundtrip [of "new_DwarfMemory (MemoryBuffer [0xe5, 0x8e, 0x26, 0x80])" 624485]
      mem_holds_MemoryBuffer [of "[]" "[0xe5, 0x8e, 0x26]" "[0x80]"]
    by (simp add: e new_DwarfMemory_def)
qed

text \<open>C26. Reading back a signed number: \<open>ReadSLEB128\<close> returns it for every 64-bit number that is at
  least \<open>- 2 ^ 62\<close>. For the numbers below, whose shortest encoding has ten bytes, it shifts a 64-bit
  value by 70 in the sign extension, which is undefined.\<close>

theorem ReadSLEB128_roundtrip:
  assumes "mem_holds (dm_memory dm) (cur_offset dm) (sleb_encode v)"
    and "- (2 ^ 63) \<le> v" and "v < 2 ^ 63"
  shows "if - (2 ^ 62) \<le> v
     then dm_ReadSLEB128 dm =
       (Ret (of_int v), dm\<lparr>cur_offset := cur_offset dm + of_nat (length (sleb_encode v))\<rparr>)
     else fst (dm_ReadSLEB128 dm) = Undef"
  using ReadSLEB128_encode [OF assms(1) _ assms(3)] ReadSLEB128_large_negative [OF assms(1,2)]
  by (simp add: not_le)

theorem ReadSLEB128_roundtrip_witness:
  "dm_ReadSLEB128 (new_DwarfMemory (MemoryBuffer [0x80, 0x7f])) =
     (Ret (-128), (new_DwarfMemory (MemoryBuffer [0x80, 0x7f]))\<lparr>cur_offset := 2\<rparr>) \<and>
   fst (dm_ReadSLEB128 (new_DwarfMemory (MemoryBuffer (sleb_encode (- (2 ^ 63)))))) = Undef"
proof -
  have e: "sleb_encode (-128) = [0x80, 0x7f]"
    by (simp add: sleb_encode.simps)
  have "length (sleb_encode (- (2 ^ 63))) \<le> 10" using sleb_encode_length_iff [of "- (2 ^ 63)" 9] by simp
  then have h: "mem_holds (MemoryBuffer (sleb_encode (- (2 ^ 63)))) 0 (sleb_encode (- (2 ^ 63)))"
    using mem_holds_MemoryBuffer [of "[]" "sleb_encode (- (2 ^ 63))" "[]"] by simp
  show ?thesis
    using ReadSLEB128_roundtrip [of "new_DwarfMemory (MemoryBuffer [0x80, 0x7f])" "-128"]
      ReadSLEB128_roundtrip [of "new_DwarfMemory (MemoryBuffer (sleb_encode (- (2 ^ 63))))" "- (2 ^ 63)"]
      mem_holds_MemoryBuffer [of "[]" "[0x80, 0x7f]" "[]"] h
    by (simp add: e new_DwarfMemory_def)
qed

text \<open>C27. A pointer encoding of fixed size: \<open>ReadEncodedValue\<close> consumes exactly \<open>GetEncodedSize\<close> bytes
  and returns the number they denote, sign-extended for the signed formats, plus the base that the
  encoding names (modulo \<open>2 ^ 64\<close>).\<close>

theorem ReadEncodedValue_value:
  fixes T :: "'a::len itself"
  assumes "GetEncodedSize T e = length bs" and "bs \<noteq> []" and "length bs \<le> 8"
    and "mem_holds (dm_memory dm) (cur_offset dm) bs"
    and "e \<noteq> DW_EH_PE_aligned" and "encoded_base dm (e AND 0x70) = Some b"
  shows "dm_ReadEncodedValue T e dm =
     (Ret (of_int (le_int (encoded_signed e) bs) + b), dm\<lparr>cur_offset := cur_offset dm + of_nat (length bs)\<rparr>)"
  using assms by (rule ReadEncodedValue_fixed)

theorem ReadEncodedValue_value_witness:
  "dm_ReadEncodedValue TYPE(32) 0x1b
       ((new_DwarfMemory (MemoryBuffer [0xf0, 0xff, 0xff, 0xff]))\<lparr>pc_offset := 0x1000\<rparr>) =
     (Ret 0xff0, (new_DwarfMemory (MemoryBuffer [0xf0, 0xff, 0xff, 0xff]))\<lparr>pc_offset := 0x1000, cur_offset := 4\<rparr>)"
  using ReadEncodedValue_value [of "TYPE(32)" "0x1b" "[0xf0, 0xff, 0xff, 0xff]"
      "(new_DwarfMemory (MemoryBuffer [0xf0, 0xff, 0xff, 0xff]))\<lparr>pc_offset := 0x1000\<rparr>" "0x1000"]
    mem_holds_MemoryBuffer [of "[]" "[0xf0, 0xff, 0xff, 0xff]" "[]"]
  by (simp add: GetEncodedSize_def encoded_base_def encoded_signed_def le_int_def new_DwarfMemory_def)

text \<open>When reading an encoded pointer aborts the process: exactly on the malformed encodings that
  combine \<open>DW_EH_PE_aligned\<close> with another bit, once the data has been read. (The two
  \<open>CHECK\<close>s of \<open>AdjustEncodedValue\<close> are reachable from the input.)\<close>

theorem ReadEncodedValue_aborts_iff:
  "fst (dm_ReadEncodedValue T e dm) = Abort \<longleftrightarrow>
     e AND 0x70 = 0x50 \<and> e \<noteq> DW_EH_PE_aligned \<and> is_Ret (fst (read_encoded_data T e dm))"
  by (rule ReadEncodedValue_Abort_iff)

end
