(* ===== verification/Regs.thy ===== *)
theory Regs
  imports Memory
begin

text \<open>
  The register sets: class \<open>Regs\<close> and its implementation \<open>RegsImpl<AddressType>\<close> (\<open>Regs.h\<close>). The record
  holds the data members of both classes; the vector \<open>regs_\<close> is a list, and an access outside it
  is undefined.
\<close>

section \<open>Data\<close>

datatype LocationEnum = LOCATION_UNKNOWN | LOCATION_REGISTER | LOCATION_SP_OFFSET

record Location =
  loc_type :: LocationEnum
  loc_value :: u16

record (overloaded) ('a::len) regs =
  total_regs :: u16
  sp_reg :: u16
  return_loc :: Location
  regs_pc :: "'a word"
  regs_sp :: "'a word"
  regs_data :: "'a word list"

text \<open>The constructor leaves \<open>pc_\<close> and \<open>sp_\<close> uninitialised: they are arguments here.\<close>

definition new_RegsImpl :: "u16 \<Rightarrow> u16 \<Rightarrow> Location \<Rightarrow> 'a word \<Rightarrow> 'a word \<Rightarrow> 'a::len regs" where
  "new_RegsImpl n spr loc pc sp =
     \<lparr>total_regs = n, sp_reg = spr, return_loc = loc, regs_pc = pc, regs_sp = sp,
      regs_data = replicate (unat n) 0\<rparr>"

definition set_pc :: "'a::len word \<Rightarrow> 'a regs \<Rightarrow> 'a regs" where
  "set_pc v r = r\<lparr>regs_pc := v\<rparr>"

definition set_sp :: "'a::len word \<Rightarrow> 'a regs \<Rightarrow> 'a regs" where
  "set_sp v r = r\<lparr>regs_sp := v\<rparr>"

text \<open>\<open>operator[]\<close> as a value and as the target of an assignment.\<close>

definition regs_at :: "'a::len regs \<Rightarrow> nat \<Rightarrow> 'a word res" where
  "regs_at r i = (if i < length (regs_data r) then Ret (regs_data r ! i) else Undef)"

definition regs_put :: "nat \<Rightarrow> 'a::len word \<Rightarrow> ('a regs, unit) op" where
  "regs_put i v r =
     (if i < length (regs_data r) then (Ret (), r\<lparr>regs_data := (regs_data r)[i := v]\<rparr>) else (Undef, r))"

section \<open>Invariant\<close>

text \<open>The vector has \<open>total_regs_\<close> elements.\<close>

definition regs_wf :: "'a::len regs \<Rightarrow> bool" where
  "regs_wf r \<longleftrightarrow> length (regs_data r) = unat (total_regs r)"

lemma regs_wf_new [simp]: "regs_wf (new_RegsImpl n spr loc pc sp)"
  by (simp add: regs_wf_def new_RegsImpl_def)

lemma regs_wf_set [simp]: "regs_wf (set_pc v r) = regs_wf r" "regs_wf (set_sp v r) = regs_wf r"
  by (simp_all add: regs_wf_def set_pc_def set_sp_def)

lemma regs_put_wf: "regs_put i v r = (q, r') \<Longrightarrow> regs_wf r \<Longrightarrow> regs_wf r'"
  by (auto simp: regs_put_def regs_wf_def split: if_splits)

lemma regs_at_total: "regs_wf r \<Longrightarrow> i < unat (total_regs r) \<Longrightarrow> regs_at r i = Ret (regs_data r ! i)"
  by (simp add: regs_at_def regs_wf_def)

end
