(* ===== verification/DwarfOp.thy ===== *)
theory DwarfOp
  imports DwarfMemory Regs "HOL-Library.Signed_Division"
begin

text \<open>
  The evaluator of DWARF expressions: \<open>DwarfOp.cpp\<close>, \<open>DwarfOp.h\<close> and \<open>DwarfError.h\<close>. An object of
  class \<open>DwarfOp<AddressType>\<close> is a \<open>dwarf_op\<close> record over the word type \<open>'a\<close>; the handlers
  \<open>op_*\<close>, \<open>Decode\<close> and \<open>Eval\<close> are operations on it. The 256 rows of \<open>kCallbackTable\<close> are kept
  row by row. Undefined behaviour of the C++ code (an access outside the deque, a shift by the
  width or more, signed overflow, a pointer that is null or was never set) is the outcome \<open>Undef\<close>.
\<close>

section \<open>Data\<close>

datatype dwarf_error =
    DWARF_ERROR_NONE
  | DWARF_ERROR_MEMORY_INVALID
  | DWARF_ERROR_ILLEGAL_VALUE
  | DWARF_ERROR_ILLEGAL_STATE
  | DWARF_ERROR_STACK_INDEX_NOT_VALID
  | DWARF_ERROR_NOT_IMPLEMENTED
  | DWARF_ERROR_TOO_MANY_ITERATIONS
  | DWARF_ERROR_CFA_NOT_DEFINED
  | DWARF_ERROR_UNSUPPORTED_VERSION

definition DWARF_VERSION_2 :: u8 where [simp]: "DWARF_VERSION_2 = 2"
definition DWARF_VERSION_3 :: u8 where [simp]: "DWARF_VERSION_3 = 3"
definition DWARF_VERSION_4 :: u8 where [simp]: "DWARF_VERSION_4 = 4"
definition DWARF_VERSION_MAX :: u8 where [simp]: "DWARF_VERSION_MAX = DWARF_VERSION_4"

text \<open>The members \<open>memory_\<close>, \<open>regular_memory_\<close> (which may be null), \<open>regs_\<close> (\<open>None\<close> until \<open>set_regs\<close> is
  called: the constructor leaves it uninitialised), and so on. The front of the deque \<open>stack_\<close> is the
  head of the list.\<close>

record (overloaded) ('a::len) dwarf_op =
  op_memory :: dwarf_memory
  regular_memory :: "memory option"
  op_regs :: "'a regs option"
  is_register :: bool
  last_error :: dwarf_error
  cur_op :: u8
  operands :: "'a word list"
  stack :: "'a word list"

text \<open>\<open>cur_op_\<close> is uninitialised in a new object; no code reads it before \<open>Decode\<close> sets it.\<close>

definition new_DwarfOp :: "dwarf_memory \<Rightarrow> memory option \<Rightarrow> 'a::len dwarf_op" where
  "new_DwarfOp dm rm = \<lparr>op_memory = dm, regular_memory = rm, op_regs = None, is_register = False,
     last_error = DWARF_ERROR_NONE, cur_op = 0, operands = [], stack = []\<rparr>"

definition set_regs :: "'a::len regs \<Rightarrow> 'a dwarf_op \<Rightarrow> 'a dwarf_op" where
  "set_regs r s = s\<lparr>op_regs := Some r\<rparr>"

definition set_last_error :: "dwarf_error \<Rightarrow> 'a::len dwarf_op \<Rightarrow> 'a dwarf_op" where
  [simp]: "set_last_error e s = s\<lparr>last_error := e\<rparr>"

definition op_fail :: "dwarf_error \<Rightarrow> ('a::len dwarf_op, 'b) op" where
  "op_fail e s = (Fail, s\<lparr>last_error := e\<rparr>)"

section \<open>Stack and operands\<close>

definition StackAt :: "nat \<Rightarrow> ('a::len dwarf_op, 'a word) op" where
  "StackAt i s = (if i < length (stack s) then (Ret (stack s ! i), s) else (Undef, s))"

definition StackSize :: "'a::len dwarf_op \<Rightarrow> nat" where
  "StackSize s = length (stack s)"

definition StackPop :: "('a::len dwarf_op, 'a word) op" where
  "StackPop s = (case stack s of [] \<Rightarrow> (Undef, s) | v # vs \<Rightarrow> (Ret v, s\<lparr>stack := vs\<rparr>))"

text \<open>\<open>stack_[i] = v\<close> and \<open>stack_.push_front(v)\<close>.\<close>

definition stack_put :: "nat \<Rightarrow> 'a::len word \<Rightarrow> ('a dwarf_op, unit) op" where
  "stack_put i v s = (if i < length (stack s) then (Ret (), s\<lparr>stack := (stack s)[i := v]\<rparr>) else (Undef, s))"

definition push_front :: "'a::len word \<Rightarrow> ('a dwarf_op, unit) op" where
  "push_front v s = (Ret (), s\<lparr>stack := v # stack s\<rparr>)"

definition OperandAt :: "nat \<Rightarrow> ('a::len dwarf_op, 'a word) op" where
  "OperandAt i s = (if i < length (operands s) then (Ret (operands s ! i), s) else (Undef, s))"

definition bool_to_dwarf_bool :: "bool \<Rightarrow> 'a::len word" where
  "bool_to_dwarf_bool v = (if v then 1 else 0)"

section \<open>Handlers\<close>

text \<open>A read of \<open>n\<close> bytes of the regular memory into an \<open>AddressType\<close> that is 0 before the read.\<close>

definition read_regular :: "u64 \<Rightarrow> nat \<Rightarrow> ('a::len dwarf_op, 'a word) op" where
  "read_regular addr n s =
     (case regular_memory s of
        None \<Rightarrow> (Undef, s)
      | Some m \<Rightarrow>
          (case mem_Read m addr n of
             Ret bs \<Rightarrow> (Ret (le_word bs), s)
           | Fail \<Rightarrow> op_fail DWARF_ERROR_MEMORY_INVALID s
           | Abort \<Rightarrow> (Abort, s)
           | Undef \<Rightarrow> (Undef, s)))"

definition op_deref :: "('a::len dwarf_op, unit) op" where
  "op_deref = rbind StackPop (\<lambda>addr.
     rbind (read_regular (ucast addr) (sizeof TYPE('a))) push_front)"

definition op_deref_size :: "('a::len dwarf_op, unit) op" where
  "op_deref_size = rbind (OperandAt 0) (\<lambda>bytes_to_read.
     if sizeof TYPE('a) < unat bytes_to_read \<or> bytes_to_read = 0
     then op_fail DWARF_ERROR_ILLEGAL_VALUE
     else rbind StackPop (\<lambda>addr. rbind (read_regular (ucast addr) (unat bytes_to_read)) push_front))"

definition op_push :: "('a::len dwarf_op, unit) op" where
  "op_push s = (Ret (), s\<lparr>stack := fold (#) (operands s) (stack s)\<rparr>)"

definition op_dup :: "('a::len dwarf_op, unit) op" where
  "op_dup = rbind (StackAt 0) push_front"

definition op_drop :: "('a::len dwarf_op, unit) op" where
  "op_drop = rbind StackPop (\<lambda>_. rret ())"

definition op_over :: "('a::len dwarf_op, unit) op" where
  "op_over = rbind (StackAt 1) push_front"

definition op_pick :: "('a::len dwarf_op, unit) op" where
  "op_pick = rbind (OperandAt 0) (\<lambda>index s.
     if StackSize s < unat index then op_fail DWARF_ERROR_STACK_INDEX_NOT_VALID s
     else rbind (StackAt (unat index)) push_front s)"

definition op_swap :: "('a::len dwarf_op, unit) op" where
  "op_swap = rbind (StackAt 0) (\<lambda>old_value.
     rbind (StackAt 1) (\<lambda>v. rbind (stack_put 0 v) (\<lambda>_. stack_put 1 old_value)))"

definition op_rot :: "('a::len dwarf_op, unit) op" where
  "op_rot = rbind (StackAt 0) (\<lambda>top.
     rbind (StackAt 1) (\<lambda>v. rbind (stack_put 0 v) (\<lambda>_.
     rbind (StackAt 2) (\<lambda>w. rbind (stack_put 1 w) (\<lambda>_. stack_put 2 top)))))"

text \<open>The minimum of \<open>SignedType\<close>, whose negation overflows.\<close>

definition signed_min :: "'a::len word" where
  "signed_min = 2 ^ (LENGTH('a) - 1)"

definition op_abs :: "('a::len dwarf_op, unit) op" where
  "op_abs = rbind (StackAt 0) (\<lambda>v.
     if sint v < 0 then (if v = signed_min then rundef else stack_put 0 (- v))
     else stack_put 0 v)"

text \<open>The handlers that pop the top and combine it with the element that is then \<open>stack_[0]\<close>: the
  first argument of the function is \<open>stack_[0]\<close>, the second is the popped value.\<close>

definition binary :: "('a::len word \<Rightarrow> 'a word \<Rightarrow> ('a dwarf_op, 'a word) op) \<Rightarrow> ('a dwarf_op, unit) op" where
  "binary f = rbind StackPop (\<lambda>top. rbind (StackAt 0) (\<lambda>v. rbind (f v top) (stack_put 0)))"

definition op_and :: "('a::len dwarf_op, unit) op" where
  "op_and = binary (\<lambda>v top. rret (v AND top))"

text \<open>The check of the divisor comes before \<open>stack_[0]\<close> is read.\<close>

definition op_div :: "('a::len dwarf_op, unit) op" where
  "op_div = rbind StackPop (\<lambda>top.
     if top = 0 then op_fail DWARF_ERROR_ILLEGAL_VALUE
     else rbind (StackAt 0) (\<lambda>v.
       if v = signed_min \<and> top = -1 then rundef
       else stack_put 0 (of_int (sint v sdiv sint top))))"

definition op_minus :: "('a::len dwarf_op, unit) op" where
  "op_minus = binary (\<lambda>v top. rret (v - top))"

definition op_mod :: "('a::len dwarf_op, unit) op" where
  "op_mod = rbind StackPop (\<lambda>top.
     if top = 0 then op_fail DWARF_ERROR_ILLEGAL_VALUE
     else rbind (StackAt 0) (\<lambda>v. stack_put 0 (v mod top)))"

definition op_mul :: "('a::len dwarf_op, unit) op" where
  "op_mul = binary (\<lambda>v top. rret (v * top))"

definition op_neg :: "('a::len dwarf_op, unit) op" where
  "op_neg = rbind (StackAt 0) (\<lambda>v. if v = signed_min then rundef else stack_put 0 (- v))"

definition op_not :: "('a::len dwarf_op, unit) op" where
  "op_not = rbind (StackAt 0) (\<lambda>v. stack_put 0 (NOT v))"

definition op_or :: "('a::len dwarf_op, unit) op" where
  "op_or = binary (\<lambda>v top. rret (v OR top))"

definition op_plus :: "('a::len dwarf_op, unit) op" where
  "op_plus = binary (\<lambda>v top. rret (v + top))"

definition op_plus_uconst :: "('a::len dwarf_op, unit) op" where
  "op_plus_uconst = rbind (OperandAt 0) (\<lambda>c. rbind (StackAt 0) (\<lambda>v. stack_put 0 (v + c)))"

definition op_shl :: "('a::len dwarf_op, unit) op" where
  "op_shl = binary (\<lambda>v top. if LENGTH('a) \<le> unat top then rundef else rret (push_bit (unat top) v))"

definition op_shr :: "('a::len dwarf_op, unit) op" where
  "op_shr = binary (\<lambda>v top. if LENGTH('a) \<le> unat top then rundef else rret (drop_bit (unat top) v))"

definition op_shra :: "('a::len dwarf_op, unit) op" where
  "op_shra = binary (\<lambda>v top. if LENGTH('a) \<le> unat top then rundef else rret (signed_drop_bit (unat top) v))"

definition op_xor :: "('a::len dwarf_op, unit) op" where
  "op_xor = binary (\<lambda>v top. rret (v XOR top))"

text \<open>\<open>static_cast<int16_t>\<close> of an operand, converted to 64 bits in the sum with the offset.\<close>

definition int16_offset :: "'a::len word \<Rightarrow> u64" where
  "int16_offset v = scast (ucast v :: u16)"

definition move_cur_offset :: "(u64 \<Rightarrow> u64) \<Rightarrow> ('a::len dwarf_op, unit) op" where
  "move_cur_offset f s =
     (Ret (), s\<lparr>op_memory := set_cur_offset (f (cur_offset (op_memory s))) (op_memory s)\<rparr>)"

definition op_bra :: "('a::len dwarf_op, unit) op" where
  "op_bra = rbind StackPop (\<lambda>top. rbind (OperandAt 0) (\<lambda>v.
     let off = int16_offset v in
     if top \<noteq> 0 then move_cur_offset (\<lambda>cur. cur + off)
     else move_cur_offset (\<lambda>cur. cur - off)))"

definition op_eq :: "('a::len dwarf_op, unit) op" where
  "op_eq = binary (\<lambda>v top. rret (bool_to_dwarf_bool (v = top)))"

definition op_ge :: "('a::len dwarf_op, unit) op" where
  "op_ge = binary (\<lambda>v top. rret (bool_to_dwarf_bool (v \<ge> top)))"

definition op_gt :: "('a::len dwarf_op, unit) op" where
  "op_gt = binary (\<lambda>v top. rret (bool_to_dwarf_bool (v > top)))"

definition op_le :: "('a::len dwarf_op, unit) op" where
  "op_le = binary (\<lambda>v top. rret (bool_to_dwarf_bool (v \<le> top)))"

definition op_lt :: "('a::len dwarf_op, unit) op" where
  "op_lt = binary (\<lambda>v top. rret (bool_to_dwarf_bool (v < top)))"

definition op_ne :: "('a::len dwarf_op, unit) op" where
  "op_ne = binary (\<lambda>v top. rret (bool_to_dwarf_bool (v \<noteq> top)))"

definition op_skip :: "('a::len dwarf_op, unit) op" where
  "op_skip = rbind (OperandAt 0) (\<lambda>v. move_cur_offset (\<lambda>cur. cur + int16_offset v))"

text \<open>\<open>cur_op() - 0x30\<close> is an \<open>int\<close>, converted to \<open>AddressType\<close>.\<close>

definition op_lit :: "('a::len dwarf_op, unit) op" where
  "op_lit s = push_front (of_int (uint (cur_op s) - 0x30)) s"

definition op_reg :: "('a::len dwarf_op, unit) op" where
  "op_reg s = push_front (of_int (uint (cur_op s) - 0x50)) (s\<lparr>is_register := True\<rparr>)"

definition op_regx :: "('a::len dwarf_op, unit) op" where
  "op_regx s = rbind (OperandAt 0) push_front (s\<lparr>is_register := True\<rparr>)"

text \<open>The value of register \<open>reg\<close> plus operand \<open>k\<close>, with the check against \<open>total_regs()\<close>.\<close>

definition push_reg_plus :: "nat \<Rightarrow> nat \<Rightarrow> ('a::len dwarf_op, unit) op" where
  "push_reg_plus reg k s =
     (case op_regs s of
        None \<Rightarrow> (Undef, s)
      | Some r \<Rightarrow>
          if unat (total_regs r) \<le> reg then op_fail DWARF_ERROR_ILLEGAL_VALUE s
          else (case regs_at r reg of
                  Ret v \<Rightarrow> rbind (OperandAt k) (\<lambda>c. push_front (v + c)) s
                | _ \<Rightarrow> (Undef, s)))"

definition op_breg :: "('a::len dwarf_op, unit) op" where
  "op_breg s = push_reg_plus (unat (of_int (uint (cur_op s) - 0x70) :: u16)) 0 s"

definition op_bregx :: "('a::len dwarf_op, unit) op" where
  "op_bregx = rbind (OperandAt 0) (\<lambda>reg. push_reg_plus (unat reg) 1)"

definition op_nop :: "('a::len dwarf_op, unit) op" where
  "op_nop = rret ()"

definition op_not_implemented :: "('a::len dwarf_op, unit) op" where
  "op_not_implemented = op_fail DWARF_ERROR_NOT_IMPLEMENTED"

section \<open>The callback table\<close>

text \<open>The pointers to member functions that the rows hold, and the call through such a pointer.\<close>

datatype op_handler =
    H_op_deref | H_op_deref_size | H_op_push | H_op_dup | H_op_drop | H_op_over
  | H_op_pick | H_op_swap | H_op_rot | H_op_abs | H_op_and | H_op_div
  | H_op_minus | H_op_mod | H_op_mul | H_op_neg | H_op_not | H_op_or
  | H_op_plus | H_op_plus_uconst | H_op_shl | H_op_shr | H_op_shra | H_op_xor
  | H_op_bra | H_op_eq | H_op_ge | H_op_gt | H_op_le | H_op_lt
  | H_op_ne | H_op_skip | H_op_lit | H_op_reg | H_op_regx | H_op_breg
  | H_op_bregx | H_op_nop | H_op_not_implemented

primrec run_handler :: "op_handler \<Rightarrow> ('a::len dwarf_op, unit) op" where
  "run_handler H_op_deref = op_deref"
| "run_handler H_op_deref_size = op_deref_size"
| "run_handler H_op_push = op_push"
| "run_handler H_op_dup = op_dup"
| "run_handler H_op_drop = op_drop"
| "run_handler H_op_over = op_over"
| "run_handler H_op_pick = op_pick"
| "run_handler H_op_swap = op_swap"
| "run_handler H_op_rot = op_rot"
| "run_handler H_op_abs = op_abs"
| "run_handler H_op_and = op_and"
| "run_handler H_op_div = op_div"
| "run_handler H_op_minus = op_minus"
| "run_handler H_op_mod = op_mod"
| "run_handler H_op_mul = op_mul"
| "run_handler H_op_neg = op_neg"
| "run_handler H_op_not = op_not"
| "run_handler H_op_or = op_or"
| "run_handler H_op_plus = op_plus"
| "run_handler H_op_plus_uconst = op_plus_uconst"
| "run_handler H_op_shl = op_shl"
| "run_handler H_op_shr = op_shr"
| "run_handler H_op_shra = op_shra"
| "run_handler H_op_xor = op_xor"
| "run_handler H_op_bra = op_bra"
| "run_handler H_op_eq = op_eq"
| "run_handler H_op_ge = op_ge"
| "run_handler H_op_gt = op_gt"
| "run_handler H_op_le = op_le"
| "run_handler H_op_lt = op_lt"
| "run_handler H_op_ne = op_ne"
| "run_handler H_op_skip = op_skip"
| "run_handler H_op_lit = op_lit"
| "run_handler H_op_reg = op_reg"
| "run_handler H_op_regx = op_regx"
| "run_handler H_op_breg = op_breg"
| "run_handler H_op_bregx = op_bregx"
| "run_handler H_op_nop = op_nop"
| "run_handler H_op_not_implemented = op_not_implemented"

text \<open>\<open>struct OpCallback\<close>. A missing element of an initialiser of \<open>operands[2]\<close> is 0.\<close>

record op_callback =
  op_name :: "string option"
  handle_func :: "op_handler option"
  supported_version :: u8
  num_required_stack_values :: u8
  num_operands :: u8
  operand_encodings :: "u8 list"

definition op_row :: "string \<Rightarrow> op_handler \<Rightarrow> u8 \<Rightarrow> u8 \<Rightarrow> u8 \<Rightarrow> u8 list \<Rightarrow> op_callback" where
  "op_row name h ver req nops ops =
     \<lparr>op_name = Some name, handle_func = Some h, supported_version = ver,
      num_required_stack_values = req, num_operands = nops, operand_encodings = take 2 (ops @ [0, 0])\<rparr>"

definition illegal_op :: op_callback where
  "illegal_op = \<lparr>op_name = None, handle_func = None, supported_version = 0,
      num_required_stack_values = 0, num_operands = 0, operand_encodings = [0, 0]\<rparr>"

definition kCallbackTable_00_15 :: "op_callback list" where
  "kCallbackTable_00_15 =
    [illegal_op,
     illegal_op,
     illegal_op,
     op_row ''DW_OP_addr'' H_op_push DWARF_VERSION_2 0 1 [DW_EH_PE_absptr],
     illegal_op,
     illegal_op,
     op_row ''DW_OP_deref'' H_op_deref DWARF_VERSION_2 1 0 [],
     illegal_op,
     op_row ''DW_OP_const1u'' H_op_push DWARF_VERSION_2 0 1 [DW_EH_PE_udata1],
     op_row ''DW_OP_const1s'' H_op_push DWARF_VERSION_2 0 1 [DW_EH_PE_sdata1],
     op_row ''DW_OP_const2u'' H_op_push DWARF_VERSION_2 0 1 [DW_EH_PE_udata2],
     op_row ''DW_OP_const2s'' H_op_push DWARF_VERSION_2 0 1 [DW_EH_PE_sdata2],
     op_row ''DW_OP_const4u'' H_op_push DWARF_VERSION_2 0 1 [DW_EH_PE_udata4],
     op_row ''DW_OP_const4s'' H_op_push DWARF_VERSION_2 0 1 [DW_EH_PE_sdata4],
     op_row ''DW_OP_const8u'' H_op_push DWARF_VERSION_2 0 1 [DW_EH_PE_udata8],
     op_row ''DW_OP_const8s'' H_op_push DWARF_VERSION_2 0 1 [DW_EH_PE_sdata8],
     op_row ''DW_OP_constu'' H_op_push DWARF_VERSION_2 0 1 [DW_EH_PE_uleb128],
     op_row ''DW_OP_consts'' H_op_push DWARF_VERSION_2 0 1 [DW_EH_PE_sleb128],
     op_row ''DW_OP_dup'' H_op_dup DWARF_VERSION_2 1 0 [],
     op_row ''DW_OP_drop'' H_op_drop DWARF_VERSION_2 1 0 [],
     op_row ''DW_OP_over'' H_op_over DWARF_VERSION_2 2 0 [],
     op_row ''DW_OP_pick'' H_op_pick DWARF_VERSION_2 0 1 [DW_EH_PE_udata1]]"

definition kCallbackTable_16_25 :: "op_callback list" where
  "kCallbackTable_16_25 =
    [op_row ''DW_OP_swap'' H_op_swap DWARF_VERSION_2 2 0 [],
     op_row ''DW_OP_rot'' H_op_rot DWARF_VERSION_2 3 0 [],
     op_row ''DW_OP_xderef'' H_op_not_implemented DWARF_VERSION_2 2 0 [],
     op_row ''DW_OP_abs'' H_op_abs DWARF_VERSION_2 1 0 [],
     op_row ''DW_OP_and'' H_op_and DWARF_VERSION_2 2 0 [],
     op_row ''DW_OP_div'' H_op_div DWARF_VERSION_2 2 0 [],
     op_row ''DW_OP_minus'' H_op_minus DWARF_VERSION_2 2 0 [],
     op_row ''DW_OP_mod'' H_op_mod DWARF_VERSION_2 2 0 [],
     op_row ''DW_OP_mul'' H_op_mul DWARF_VERSION_2 2 0 [],
     op_row ''DW_OP_neg'' H_op_neg DWARF_VERSION_2 1 0 [],
     op_row ''DW_OP_not'' H_op_not DWARF_VERSION_2 1 0 [],
     op_row ''DW_OP_or'' H_op_or DWARF_VERSION_2 2 0 [],
     op_row ''DW_OP_plus'' H_op_plus DWARF_VERSION_2 2 0 [],
     op_row ''DW_OP_plus_uconst'' H_op_plus_uconst DWARF_VERSION_2 1 1 [DW_EH_PE_uleb128],
     op_row ''DW_OP_shl'' H_op_shl DWARF_VERSION_2 2 0 [],
     op_row ''DW_OP_shr'' H_op_shr DWARF_VERSION_2 2 0 []]"

definition kCallbackTable_26_35 :: "op_callback list" where
  "kCallbackTable_26_35 =
    [op_row ''DW_OP_shra'' H_op_shra DWARF_VERSION_2 2 0 [],
     op_row ''DW_OP_xor'' H_op_xor DWARF_VERSION_2 2 0 [],
     op_row ''DW_OP_bra'' H_op_bra DWARF_VERSION_2 1 1 [DW_EH_PE_sdata2],
     op_row ''DW_OP_eq'' H_op_eq DWARF_VERSION_2 2 0 [],
     op_row ''DW_OP_ge'' H_op_ge DWARF_VERSION_2 2 0 [],
     op_row ''DW_OP_gt'' H_op_gt DWARF_VERSION_2 2 0 [],
     op_row ''DW_OP_le'' H_op_le DWARF_VERSION_2 2 0 [],
     op_row ''DW_OP_lt'' H_op_lt DWARF_VERSION_2 2 0 [],
     op_row ''DW_OP_ne'' H_op_ne DWARF_VERSION_2 2 0 [],
     op_row ''DW_OP_skip'' H_op_skip DWARF_VERSION_2 0 1 [DW_EH_PE_sdata2],
     op_row ''DW_OP_lit0'' H_op_lit DWARF_VERSION_2 0 0 [],
     op_row ''DW_OP_lit1'' H_op_lit DWARF_VERSION_2 0 0 [],
     op_row ''DW_OP_lit2'' H_op_lit DWARF_VERSION_2 0 0 [],
     op_row ''DW_OP_lit3'' H_op_lit DWARF_VERSION_2 0 0 [],
     op_row ''DW_OP_lit4'' H_op_lit DWARF_VERSION_2 0 0 [],
     op_row ''DW_OP_lit5'' H_op_lit DWARF_VERSION_2 0 0 []]"

definition kCallbackTable_36_45 :: "op_callback list" where
  "kCallbackTable_36_45 =
    [op_row ''DW_OP_lit6'' H_op_lit DWARF_VERSION_2 0 0 [],
     op_row ''DW_OP_lit7'' H_op_lit DWARF_VERSION_2 0 0 [],
     op_row ''DW_OP_lit8'' H_op_lit DWARF_VERSION_2 0 0 [],
     op_row ''DW_OP_lit9'' H_op_lit DWARF_VERSION_2 0 0 [],
     op_row ''DW_OP_lit10'' H_op_lit DWARF_VERSION_2 0 0 [],
     op_row ''DW_OP_lit11'' H_op_lit DWARF_VERSION_2 0 0 [],
     op_row ''DW_OP_lit12'' H_op_lit DWARF_VERSION_2 0 0 [],
     op_row ''DW_OP_lit13'' H_op_lit DWARF_VERSION_2 0 0 [],
     op_row ''DW_OP_lit14'' H_op_lit DWARF_VERSION_2 0 0 [],
     op_row ''DW_OP_lit15'' H_op_lit DWARF_VERSION_2 0 0 [],
     op_row ''DW_OP_lit16'' H_op_lit DWARF_VERSION_2 0 0 [],
     op_row ''DW_OP_lit17'' H_op_lit DWARF_VERSION_2 0 0 [],
     op_row ''DW_OP_lit18'' H_op_lit DWARF_VERSION_2 0 0 [],
     op_row ''DW_OP_lit19'' H_op_lit DWARF_VERSION_2 0 0 [],
     op_row ''DW_OP_lit20'' H_op_lit DWARF_VERSION_2 0 0 [],
     op_row ''DW_OP_lit21'' H_op_lit DWARF_VERSION_2 0 0 []]"

definition kCallbackTable_46_55 :: "op_callback list" where
  "kCallbackTable_46_55 =
    [op_row ''DW_OP_lit22'' H_op_lit DWARF_VERSION_2 0 0 [],
     op_row ''DW_OP_lit23'' H_op_lit DWARF_VERSION_2 0 0 [],
     op_row ''DW_OP_lit24'' H_op_lit DWARF_VERSION_2 0 0 [],
     op_row ''DW_OP_lit25'' H_op_lit DWARF_VERSION_2 0 0 [],
     op_row ''DW_OP_lit26'' H_op_lit DWARF_VERSION_2 0 0 [],
     op_row ''DW_OP_lit27'' H_op_lit DWARF_VERSION_2 0 0 [],
     op_row ''DW_OP_lit28'' H_op_lit DWARF_VERSION_2 0 0 [],
     op_row ''DW_OP_lit29'' H_op_lit DWARF_VERSION_2 0 0 [],
     op_row ''DW_OP_lit30'' H_op_lit DWARF_VERSION_2 0 0 [],
     op_row ''DW_OP_lit31'' H_op_lit DWARF_VERSION_2 0 0 [],
     op_row ''DW_OP_reg0'' H_op_reg DWARF_VERSION_2 0 0 [],
     op_row ''DW_OP_reg1'' H_op_reg DWARF_VERSION_2 0 0 [],
     op_row ''DW_OP_reg2'' H_op_reg DWARF_VERSION_2 0 0 [],
     op_row ''DW_OP_reg3'' H_op_reg DWARF_VERSION_2 0 0 [],
     op_row ''DW_OP_reg4'' H_op_reg DWARF_VERSION_2 0 0 [],
     op_row ''DW_OP_reg5'' H_op_reg DWARF_VERSION_2 0 0 []]"

definition kCallbackTable_56_65 :: "op_callback list" where
  "kCallbackTable_56_65 =
    [op_row ''DW_OP_reg6'' H_op_reg DWARF_VERSION_2 0 0 [],
     op_row ''DW_OP_reg7'' H_op_reg DWARF_VERSION_2 0 0 [],
     op_row ''DW_OP_reg8'' H_op_reg DWARF_VERSION_2 0 0 [],
     op_row ''DW_OP_reg9'' H_op_reg DWARF_VERSION_2 0 0 [],
     op_row ''DW_OP_reg10'' H_op_reg DWARF_VERSION_2 0 0 [],
     op_row ''DW_OP_reg11'' H_op_reg DWARF_VERSION_2 0 0 [],
     op_row ''DW_OP_reg12'' H_op_reg DWARF_VERSION_2 0 0 [],
     op_row ''DW_OP_reg13'' H_op_reg DWARF_VERSION_2 0 0 [],
     op_row ''DW_OP_reg14'' H_op_reg DWARF_VERSION_2 0 0 [],
     op_row ''DW_OP_reg15'' H_op_reg DWARF_VERSION_2 0 0 [],
     op_row ''DW_OP_reg16'' H_op_reg DWARF_VERSION_2 0 0 [],
     op_row ''DW_OP_reg17'' H_op_reg DWARF_VERSION_2 0 0 [],
     op_row ''DW_OP_reg18'' H_op_reg DWARF_VERSION_2 0 0 [],
     op_row ''DW_OP_reg19'' H_op_reg DWARF_VERSION_2 0 0 [],
     op_row ''DW_OP_reg20'' H_op_reg DWARF_VERSION_2 0 0 [],
     op_row ''DW_OP_reg21'' H_op_reg DWARF_VERSION_2 0 0 []]"

definition kCallbackTable_66_75 :: "op_callback list" where
  "kCallbackTable_66_75 =
    [op_row ''DW_OP_reg22'' H_op_reg DWARF_VERSION_2 0 0 [],
     op_row ''DW_OP_reg23'' H_op_reg DWARF_VERSION_2 0 0 [],
     op_row ''DW_OP_reg24'' H_op_reg DWARF_VERSION_2 0 0 [],
     op_row ''DW_OP_reg25'' H_op_reg DWARF_VERSION_2 0 0 [],
     op_row ''DW_OP_reg26'' H_op_reg DWARF_VERSION_2 0 0 [],
     op_row ''DW_OP_reg27'' H_op_reg DWARF_VERSION_2 0 0 [],
     op_row ''DW_OP_reg28'' H_op_reg DWARF_VERSION_2 0 0 [],
     op_row ''DW_OP_reg29'' H_op_reg DWARF_VERSION_2 0 0 [],
     op_row ''DW_OP_reg30'' H_op_reg DWARF_VERSION_2 0 0 [],
     op_row ''DW_OP_reg31'' H_op_reg DWARF_VERSION_2 0 0 [],
     op_row ''DW_OP_breg0'' H_op_breg DWARF_VERSION_2 0 1 [DW_EH_PE_sleb128],
     op_row ''DW_OP_breg1'' H_op_breg DWARF_VERSION_2 0 1 [DW_EH_PE_sleb128],
     op_row ''DW_OP_breg2'' H_op_breg DWARF_VERSION_2 0 1 [DW_EH_PE_sleb128],
     op_row ''DW_OP_breg3'' H_op_breg DWARF_VERSION_2 0 1 [DW_EH_PE_sleb128],
     op_row ''DW_OP_breg4'' H_op_breg DWARF_VERSION_2 0 1 [DW_EH_PE_sleb128],
     op_row ''DW_OP_breg5'' H_op_breg DWARF_VERSION_2 0 1 [DW_EH_PE_sleb128]]"

definition kCallbackTable_76_85 :: "op_callback list" where
  "kCallbackTable_76_85 =
    [op_row ''DW_OP_breg6'' H_op_breg DWARF_VERSION_2 0 1 [DW_EH_PE_sleb128],
     op_row ''DW_OP_breg7'' H_op_breg DWARF_VERSION_2 0 1 [DW_EH_PE_sleb128],
     op_row ''DW_OP_breg8'' H_op_breg DWARF_VERSION_2 0 1 [DW_EH_PE_sleb128],
     op_row ''DW_OP_breg9'' H_op_breg DWARF_VERSION_2 0 1 [DW_EH_PE_sleb128],
     op_row ''DW_OP_breg10'' H_op_breg DWARF_VERSION_2 0 1 [DW_EH_PE_sleb128],
     op_row ''DW_OP_breg11'' H_op_breg DWARF_VERSION_2 0 1 [DW_EH_PE_sleb128],
     op_row ''DW_OP_breg12'' H_op_breg DWARF_VERSION_2 0 1 [DW_EH_PE_sleb128],
     op_row ''DW_OP_breg13'' H_op_breg DWARF_VERSION_2 0 1 [DW_EH_PE_sleb128],
     op_row ''DW_OP_breg14'' H_op_breg DWARF_VERSION_2 0 1 [DW_EH_PE_sleb128],
     op_row ''DW_OP_breg15'' H_op_breg DWARF_VERSION_2 0 1 [DW_EH_PE_sleb128],
     op_row ''DW_OP_breg16'' H_op_breg DWARF_VERSION_2 0 1 [DW_EH_PE_sleb128],
     op_row ''DW_OP_breg17'' H_op_breg DWARF_VERSION_2 0 1 [DW_EH_PE_sleb128],
     op_row ''DW_OP_breg18'' H_op_breg DWARF_VERSION_2 0 1 [DW_EH_PE_sleb128],
     op_row ''DW_OP_breg19'' H_op_breg DWARF_VERSION_2 0 1 [DW_EH_PE_sleb128],
     op_row ''DW_OP_breg20'' H_op_breg DWARF_VERSION_2 0 1 [DW_EH_PE_sleb128],
     op_row ''DW_OP_breg21'' H_op_breg DWARF_VERSION_2 0 1 [DW_EH_PE_sleb128]]"

definition kCallbackTable_86_95 :: "op_callback list" where
  "kCallbackTable_86_95 =
    [op_row ''DW_OP_breg22'' H_op_breg DWARF_VERSION_2 0 1 [DW_EH_PE_sleb128],
     op_row ''DW_OP_breg23'' H_op_breg DWARF_VERSION_2 0 1 [DW_EH_PE_sleb128],
     op_row ''DW_OP_breg24'' H_op_breg DWARF_VERSION_2 0 1 [DW_EH_PE_sleb128],
     op_row ''DW_OP_breg25'' H_op_breg DWARF_VERSION_2 0 1 [DW_EH_PE_sleb128],
     op_row ''DW_OP_breg26'' H_op_breg DWARF_VERSION_2 0 1 [DW_EH_PE_sleb128],
     op_row ''DW_OP_breg27'' H_op_breg DWARF_VERSION_2 0 1 [DW_EH_PE_sleb128],
     op_row ''DW_OP_breg28'' H_op_breg DWARF_VERSION_2 0 1 [DW_EH_PE_sleb128],
     op_row ''DW_OP_breg29'' H_op_breg DWARF_VERSION_2 0 1 [DW_EH_PE_sleb128],
     op_row ''DW_OP_breg30'' H_op_breg DWARF_VERSION_2 0 1 [DW_EH_PE_sleb128],
     op_row ''DW_OP_breg31'' H_op_breg DWARF_VERSION_2 0 1 [DW_EH_PE_sleb128],
     op_row ''DW_OP_regx'' H_op_regx DWARF_VERSION_2 0 1 [DW_EH_PE_uleb128],
     op_row ''DW_OP_fbreg'' H_op_not_implemented DWARF_VERSION_2 0 1 [DW_EH_PE_sleb128],
     op_row ''DW_OP_bregx'' H_op_bregx DWARF_VERSION_2 0 2 [DW_EH_PE_uleb128, DW_EH_PE_sleb128],
     op_row ''DW_OP_piece'' H_op_not_implemented DWARF_VERSION_2 0 1 [DW_EH_PE_uleb128],
     op_row ''DW_OP_deref_size'' H_op_deref_size DWARF_VERSION_2 1 1 [DW_EH_PE_udata1],
     op_row ''DW_OP_xderef_size'' H_op_not_implemented DWARF_VERSION_2 0 1 [DW_EH_PE_udata1]]"

definition kCallbackTable_96_db :: "op_callback list" where
  "kCallbackTable_96_db =
    [op_row ''DW_OP_nop'' H_op_nop DWARF_VERSION_2 0 0 [],
     op_row ''DW_OP_push_object_address'' H_op_not_implemented DWARF_VERSION_3 0 0 [],
     op_row ''DW_OP_call2'' H_op_not_implemented DWARF_VERSION_3 0 1 [DW_EH_PE_udata2],
     op_row ''DW_OP_call4'' H_op_not_implemented DWARF_VERSION_3 0 1 [DW_EH_PE_udata4],
     op_row ''DW_OP_call_ref'' H_op_not_implemented DWARF_VERSION_3 0 0 [],
     op_row ''DW_OP_form_tls_address'' H_op_not_implemented DWARF_VERSION_3 0 0 [],
     op_row ''DW_OP_call_frame_cfa'' H_op_not_implemented DWARF_VERSION_3 0 0 [],
     op_row ''DW_OP_bit_piece'' H_op_not_implemented DWARF_VERSION_3 0 2 [DW_EH_PE_uleb128, DW_EH_PE_uleb128],
     op_row ''DW_OP_implicit_value'' H_op_not_implemented DWARF_VERSION_4 0 1 [DW_EH_PE_uleb128],
     op_row ''DW_OP_stack_value'' H_op_not_implemented DWARF_VERSION_4 1 0 [],
     illegal_op,
     illegal_op,
     illegal_op,
     illegal_op,
     illegal_op,
     illegal_op,
     illegal_op,
     illegal_op,
     illegal_op,
     illegal_op,
     illegal_op,
     illegal_op,
     illegal_op,
     illegal_op,
     illegal_op,
     illegal_op,
     illegal_op,
     illegal_op,
     illegal_op,
     illegal_op,
     illegal_op,
     illegal_op,
     illegal_op,
     illegal_op,
     illegal_op,
     illegal_op,
     illegal_op,
     illegal_op,
     illegal_op,
     illegal_op,
     illegal_op,
     illegal_op,
     illegal_op,
     illegal_op,
     illegal_op,
     illegal_op,
     illegal_op,
     illegal_op,
     illegal_op,
     illegal_op,
     illegal_op,
     illegal_op,
     illegal_op,
     illegal_op,
     illegal_op,
     illegal_op,
     illegal_op,
     illegal_op,
     illegal_op,
     illegal_op,
     illegal_op,
     illegal_op,
     illegal_op,
     illegal_op,
     illegal_op,
     illegal_op,
     illegal_op,
     illegal_op,
     illegal_op,
     illegal_op]"

definition kCallbackTable_dc_ff :: "op_callback list" where
  "kCallbackTable_dc_ff =
    [illegal_op,
     illegal_op,
     illegal_op,
     illegal_op,
     illegal_op,
     illegal_op,
     illegal_op,
     illegal_op,
     illegal_op,
     illegal_op,
     illegal_op,
     illegal_op,
     illegal_op,
     illegal_op,
     illegal_op,
     illegal_op,
     illegal_op,
     illegal_op,
     illegal_op,
     illegal_op,
     illegal_op,
     illegal_op,
     illegal_op,
     illegal_op,
     illegal_op,
     illegal_op,
     illegal_op,
     illegal_op,
     illegal_op,
     illegal_op,
     illegal_op,
     illegal_op,
     illegal_op,
     illegal_op,
     illegal_op,
     illegal_op]"

definition kCallbackTable :: "op_callback list" where
  "kCallbackTable =
     kCallbackTable_00_15 @
     kCallbackTable_16_25 @
     kCallbackTable_26_35 @
     kCallbackTable_36_45 @
     kCallbackTable_46_55 @
     kCallbackTable_56_65 @
     kCallbackTable_66_75 @
     kCallbackTable_76_85 @
     kCallbackTable_86_95 @
     kCallbackTable_96_db @
     kCallbackTable_dc_ff"

section \<open>Decode and Eval\<close>

text \<open>The loop over the operands of a row: \<open>n\<close> of the encodings, in order.\<close>

fun read_operands :: "'a::len itself \<Rightarrow> u8 list \<Rightarrow> nat \<Rightarrow> (dwarf_memory, u64 list) op" where
  "read_operands T encs 0 = rret []"
| "read_operands T [] (Suc n) = rundef"
| "read_operands T (e # encs) (Suc n) =
     rbind (dm_ReadEncodedValue T e) (\<lambda>v. rbind (read_operands T encs n) (\<lambda>vs. rret (v # vs)))"

text \<open>A part of \<open>memory_\<close>: on failure \<open>last_error_\<close> is set.\<close>

definition on_op_memory :: "(dwarf_memory, 'b) op \<Rightarrow> ('a::len dwarf_op, 'b) op" where
  "on_op_memory f = on_fail (set_last_error DWARF_ERROR_MEMORY_INVALID)
     (on_part op_memory (\<lambda>dm s. s\<lparr>op_memory := dm\<rparr>) f)"

definition Decode :: "u8 \<Rightarrow> ('a::len dwarf_op, unit) op" where
  "Decode dwarf_version s0 =
     rbind (on_op_memory (dm_ReadBytes 1)) (\<lambda>bs s1.
       let s = s1\<lparr>cur_op := hd bs\<rparr>;
           op = kCallbackTable ! unat (cur_op s) in
       case handle_func op of
         None \<Rightarrow> op_fail DWARF_ERROR_ILLEGAL_VALUE s
       | Some h \<Rightarrow>
           if dwarf_version < supported_version op then op_fail DWARF_ERROR_ILLEGAL_VALUE s
           else if length (stack s) < unat (num_required_stack_values op)
           then op_fail DWARF_ERROR_STACK_INDEX_NOT_VALID s
           else
             rbind (on_op_memory (read_operands TYPE('a) (operand_encodings op) (unat (num_operands op))))
               (\<lambda>vs s2. run_handler h (s2\<lparr>operands := map ucast vs\<rparr>))
               (s\<lparr>operands := []\<rparr>))
       (s0\<lparr>last_error := DWARF_ERROR_NONE\<rparr>)"

text \<open>The loop of \<open>Eval\<close>. The counter is a \<open>uint32_t\<close>; the loop leaves before it can exceed 1001.\<close>

function Eval_loop :: "u64 \<Rightarrow> u8 \<Rightarrow> u32 \<Rightarrow> ('a::len dwarf_op, unit) op" where
  "Eval_loop end dwarf_version iterations s =
     (if cur_offset (op_memory s) < end then
        (case Decode dwarf_version s of
           (Ret _, s') \<Rightarrow>
             if iterations = 1000 then op_fail DWARF_ERROR_TOO_MANY_ITERATIONS s'
             else Eval_loop end dwarf_version (iterations + 1) s'
         | (Fail, s') \<Rightarrow> (Fail, s')
         | (Abort, s') \<Rightarrow> (Abort, s')
         | (Undef, s') \<Rightarrow> (Undef, s'))
      else (Ret (), s))"
  by pat_completeness auto
termination
proof (relation "measure (\<lambda>(end, dwarf_version, iterations, s). unat (1000 - iterations))", goal_cases)
  case (2 e dwarf_version iterations s r s1 u)
  then have "unat (1000 - iterations - 1) < unat (1000 - iterations)"
    by (intro unat_pred_less) simp
  then show ?case by (simp only: in_measure split_conv diff_diff_eq)
qed simp

declare Eval_loop.simps [simp del]

definition Eval :: "u64 \<Rightarrow> u64 \<Rightarrow> u8 \<Rightarrow> ('a::len dwarf_op, unit) op" where
  "Eval start end dwarf_version s =
     Eval_loop end dwarf_version 0
       (s\<lparr>is_register := False, stack := [], op_memory := set_cur_offset start (op_memory s)\<rparr>)"

section \<open>Facts about the table\<close>

lemma length_kCallbackTable: "length kCallbackTable = 256"
  by (simp add: kCallbackTable_def kCallbackTable_00_15_def kCallbackTable_16_25_def
      kCallbackTable_26_35_def kCallbackTable_36_45_def kCallbackTable_46_55_def kCallbackTable_56_65_def
      kCallbackTable_66_75_def kCallbackTable_76_85_def kCallbackTable_86_95_def kCallbackTable_96_db_def
      kCallbackTable_dc_ff_def)

text \<open>Stack elements and operands that a handler accesses without a check of its own.\<close>

primrec stack_needed :: "op_handler \<Rightarrow> nat" where
  "stack_needed H_op_deref = 1"
| "stack_needed H_op_deref_size = 1"
| "stack_needed H_op_push = 0"
| "stack_needed H_op_dup = 1"
| "stack_needed H_op_drop = 1"
| "stack_needed H_op_over = 2"
| "stack_needed H_op_pick = 0"
| "stack_needed H_op_swap = 2"
| "stack_needed H_op_rot = 3"
| "stack_needed H_op_abs = 1"
| "stack_needed H_op_and = 2"
| "stack_needed H_op_div = 2"
| "stack_needed H_op_minus = 2"
| "stack_needed H_op_mod = 2"
| "stack_needed H_op_mul = 2"
| "stack_needed H_op_neg = 1"
| "stack_needed H_op_not = 1"
| "stack_needed H_op_or = 2"
| "stack_needed H_op_plus = 2"
| "stack_needed H_op_plus_uconst = 1"
| "stack_needed H_op_shl = 2"
| "stack_needed H_op_shr = 2"
| "stack_needed H_op_shra = 2"
| "stack_needed H_op_xor = 2"
| "stack_needed H_op_bra = 1"
| "stack_needed H_op_eq = 2"
| "stack_needed H_op_ge = 2"
| "stack_needed H_op_gt = 2"
| "stack_needed H_op_le = 2"
| "stack_needed H_op_lt = 2"
| "stack_needed H_op_ne = 2"
| "stack_needed H_op_skip = 0"
| "stack_needed H_op_lit = 0"
| "stack_needed H_op_reg = 0"
| "stack_needed H_op_regx = 0"
| "stack_needed H_op_breg = 0"
| "stack_needed H_op_bregx = 0"
| "stack_needed H_op_nop = 0"
| "stack_needed H_op_not_implemented = 0"

definition operands_needed :: "op_handler \<Rightarrow> nat" where
  "operands_needed h =
     (if h \<in> {H_op_deref_size, H_op_pick, H_op_plus_uconst, H_op_bra, H_op_skip, H_op_regx, H_op_breg} then 1
      else if h = H_op_bregx then 2 else 0)"

definition plain_encodings :: "u8 list" where
  "plain_encodings = [DW_EH_PE_absptr, DW_EH_PE_uleb128, DW_EH_PE_udata2, DW_EH_PE_udata4, DW_EH_PE_udata8,
     DW_EH_PE_sleb128, DW_EH_PE_sdata2, DW_EH_PE_sdata4, DW_EH_PE_sdata8, DW_EH_PE_udata1, DW_EH_PE_sdata1]"

definition row_ok :: "op_callback \<Rightarrow> bool" where
  "row_ok op \<longleftrightarrow>
     (case handle_func op of None \<Rightarrow> True
      | Some h \<Rightarrow> stack_needed h \<le> unat (num_required_stack_values op) \<and>
                 operands_needed h \<le> unat (num_operands op) \<and>
                 (h = H_op_push \<longrightarrow> num_operands op = 1)) \<and>
     num_operands op \<le> 2 \<and> length (operand_encodings op) = 2 \<and>
     list_all (\<lambda>e. e \<in> set plain_encodings) (operand_encodings op)"

lemma kCallbackTable_rows_ok: "list_all row_ok kCallbackTable"
  by code_simp

section \<open>What each handler does\<close>

lemma StackPop_Cons [simp]: "stack s = v # vs \<Longrightarrow> StackPop s = (Ret v, s\<lparr>stack := vs\<rparr>)"
  by (simp add: StackPop_def)

lemma StackAt_less [simp]: "i < length (stack s) \<Longrightarrow> StackAt i s = (Ret (stack s ! i), s)"
  by (simp add: StackAt_def)

lemma OperandAt_less [simp]: "i < length (operands s) \<Longrightarrow> OperandAt i s = (Ret (operands s ! i), s)"
  by (simp add: OperandAt_def)

lemma stack_put_less [simp]: "i < length (stack s) \<Longrightarrow> stack_put i v s = (Ret (), s\<lparr>stack := (stack s)[i := v]\<rparr>)"
  by (simp add: stack_put_def)

lemma binary_run:
  assumes "stack s = t # v # vs"
  shows "binary f s = rbind (f v t) (stack_put 0) (s\<lparr>stack := v # vs\<rparr>)"
  using assms by (simp add: binary_def)

lemma binary_rret:
  assumes "stack s = t # v # vs"
  shows "binary (\<lambda>v t. rret (g v t)) s = (Ret (), s\<lparr>stack := g v t # vs\<rparr>)"
  using assms by (simp add: binary_run rret_def)

lemmas arith_defs = op_and_def op_minus_def op_mul_def op_or_def op_plus_def op_xor_def
  op_eq_def op_ge_def op_gt_def op_le_def op_lt_def op_ne_def

lemma arith_run:
  assumes "stack s = t # v # vs"
  shows "op_and s = (Ret (), s\<lparr>stack := (v AND t) # vs\<rparr>)"
    and "op_minus s = (Ret (), s\<lparr>stack := (v - t) # vs\<rparr>)"
    and "op_mul s = (Ret (), s\<lparr>stack := (v * t) # vs\<rparr>)"
    and "op_or s = (Ret (), s\<lparr>stack := (v OR t) # vs\<rparr>)"
    and "op_plus s = (Ret (), s\<lparr>stack := (v + t) # vs\<rparr>)"
    and "op_xor s = (Ret (), s\<lparr>stack := (v XOR t) # vs\<rparr>)"
    and "op_eq s = (Ret (), s\<lparr>stack := bool_to_dwarf_bool (v = t) # vs\<rparr>)"
    and "op_ge s = (Ret (), s\<lparr>stack := bool_to_dwarf_bool (v \<ge> t) # vs\<rparr>)"
    and "op_gt s = (Ret (), s\<lparr>stack := bool_to_dwarf_bool (v > t) # vs\<rparr>)"
    and "op_le s = (Ret (), s\<lparr>stack := bool_to_dwarf_bool (v \<le> t) # vs\<rparr>)"
    and "op_lt s = (Ret (), s\<lparr>stack := bool_to_dwarf_bool (v < t) # vs\<rparr>)"
    and "op_ne s = (Ret (), s\<lparr>stack := bool_to_dwarf_bool (v \<noteq> t) # vs\<rparr>)"
  unfolding arith_defs by (simp_all add: binary_rret [OF assms])

lemma shift_run:
  fixes s :: "'a::len dwarf_op"
  assumes "stack s = t # v # vs"
  shows "op_shl s = (if LENGTH('a) \<le> unat t then (Undef, s\<lparr>stack := v # vs\<rparr>)
       else (Ret (), s\<lparr>stack := push_bit (unat t) v # vs\<rparr>))"
    and "op_shr s = (if LENGTH('a) \<le> unat t then (Undef, s\<lparr>stack := v # vs\<rparr>)
       else (Ret (), s\<lparr>stack := drop_bit (unat t) v # vs\<rparr>))"
    and "op_shra s = (if LENGTH('a) \<le> unat t then (Undef, s\<lparr>stack := v # vs\<rparr>)
       else (Ret (), s\<lparr>stack := signed_drop_bit (unat t) v # vs\<rparr>))"
  by (auto simp: op_shl_def op_shr_def op_shra_def binary_run [OF assms] rret_def rundef_def rbind_def)

lemma div_run:
  assumes "stack s = t # v # vs"
  shows "op_div s = (if t = 0 then (Fail, s\<lparr>stack := v # vs, last_error := DWARF_ERROR_ILLEGAL_VALUE\<rparr>)
       else if v = signed_min \<and> t = -1 then (Undef, s\<lparr>stack := v # vs\<rparr>)
       else (Ret (), s\<lparr>stack := of_int (sint v sdiv sint t) # vs\<rparr>))"
    and "op_mod s = (if t = 0 then (Fail, s\<lparr>stack := v # vs, last_error := DWARF_ERROR_ILLEGAL_VALUE\<rparr>)
       else (Ret (), s\<lparr>stack := (v mod t) # vs\<rparr>))"
  using assms by (auto simp: op_div_def op_mod_def op_fail_def rundef_def)

lemma signed_min_negative: "sint (signed_min :: 'a::len word) < 0"
proof -
  have "bit (signed_min :: 'a word) (LENGTH('a) - Suc 0)"
    by (simp add: signed_min_def bit_exp_iff)
  then show ?thesis by (simp add: bit_last_iff)
qed

lemma unary_run:
  assumes "stack s = v # vs"
  shows "op_dup s = (Ret (), s\<lparr>stack := v # v # vs\<rparr>)"
    and "op_drop s = (Ret (), s\<lparr>stack := vs\<rparr>)"
    and "op_abs s = (if v = signed_min then (Undef, s)
       else (Ret (), s\<lparr>stack := (if sint v < 0 then - v else v) # vs\<rparr>))"
    and "op_neg s = (if v = signed_min then (Undef, s) else (Ret (), s\<lparr>stack := (- v) # vs\<rparr>))"
    and "op_not s = (Ret (), s\<lparr>stack := NOT v # vs\<rparr>)"
  using assms signed_min_negative
  by (auto simp: op_dup_def op_drop_def op_abs_def op_neg_def op_not_def push_front_def rret_def rundef_def)

lemma shuffle_run:
  shows "stack s = a # b # vs \<Longrightarrow> op_over s = (Ret (), s\<lparr>stack := b # a # b # vs\<rparr>)"
    and "stack s = a # b # vs \<Longrightarrow> op_swap s = (Ret (), s\<lparr>stack := b # a # vs\<rparr>)"
    and "stack s = a # b # c # vs \<Longrightarrow> op_rot s = (Ret (), s\<lparr>stack := b # c # a # vs\<rparr>)"
  by (simp_all add: op_over_def op_swap_def op_rot_def push_front_def numeral_eq_Suc)

lemma operand_run:
  assumes "operands s = c # cs"
  shows "stack s = v # vs \<Longrightarrow> op_plus_uconst s = (Ret (), s\<lparr>stack := (v + c) # vs\<rparr>)"
    and "op_regx s = (Ret (), s\<lparr>stack := c # stack s, is_register := True\<rparr>)"
    and "op_skip s = (Ret (), s\<lparr>op_memory := set_cur_offset (cur_offset (op_memory s) + int16_offset c) (op_memory s)\<rparr>)"
    and "stack s = v # vs \<Longrightarrow> op_bra s = (Ret (), s\<lparr>stack := vs, op_memory :=
       set_cur_offset (if v \<noteq> 0 then cur_offset (op_memory s) + int16_offset c
         else cur_offset (op_memory s) - int16_offset c) (op_memory s)\<rparr>)"
    and "op_pick s = (if length (stack s) < unat c then (Fail, s\<lparr>last_error := DWARF_ERROR_STACK_INDEX_NOT_VALID\<rparr>)
       else if unat c = length (stack s) then (Undef, s) else (Ret (), s\<lparr>stack := stack s ! unat c # stack s\<rparr>))"
  using assms
  by (auto simp: op_plus_uconst_def op_regx_def op_skip_def op_bra_def op_pick_def move_cur_offset_def
      push_front_def Let_def StackSize_def op_fail_def StackAt_def rbind_def OperandAt_def)

lemma read_regular_run:
  "regular_memory s = Some m \<Longrightarrow> read_regular a n s =
     (case mem_Read m a n of Ret bs \<Rightarrow> (Ret (le_word bs), s)
      | Fail \<Rightarrow> (Fail, s\<lparr>last_error := DWARF_ERROR_MEMORY_INVALID\<rparr>) | Abort \<Rightarrow> (Abort, s) | Undef \<Rightarrow> (Undef, s))"
  by (simp add: read_regular_def op_fail_def split: res.split)

lemma deref_run:
  fixes s :: "'a::len dwarf_op"
  assumes "stack s = a # vs" and "regular_memory s = Some m"
  shows "op_deref s =
     (case mem_Read m (ucast a) (sizeof TYPE('a)) of
        Ret bs \<Rightarrow> (Ret (), s\<lparr>stack := le_word bs # vs\<rparr>)
      | Fail \<Rightarrow> (Fail, s\<lparr>stack := vs, last_error := DWARF_ERROR_MEMORY_INVALID\<rparr>)
      | Abort \<Rightarrow> (Abort, s\<lparr>stack := vs\<rparr>) | Undef \<Rightarrow> (Undef, s\<lparr>stack := vs\<rparr>))"
    and "operands s = c # cs \<Longrightarrow> op_deref_size s =
     (if sizeof TYPE('a) < unat c \<or> c = 0 then (Fail, s\<lparr>last_error := DWARF_ERROR_ILLEGAL_VALUE\<rparr>)
      else case mem_Read m (ucast a) (unat c) of
        Ret bs \<Rightarrow> (Ret (), s\<lparr>stack := le_word bs # vs\<rparr>)
      | Fail \<Rightarrow> (Fail, s\<lparr>stack := vs, last_error := DWARF_ERROR_MEMORY_INVALID\<rparr>)
      | Abort \<Rightarrow> (Abort, s\<lparr>stack := vs\<rparr>) | Undef \<Rightarrow> (Undef, s\<lparr>stack := vs\<rparr>))"
  using assms
  by (auto simp: op_deref_def op_deref_size_def read_regular_run rbind_def push_front_def op_fail_def
      split: res.split)

lemma push_reg_plus_run:
  assumes "op_regs s = Some r" and "regs_wf r" and "k < length (operands s)"
  shows "push_reg_plus reg k s =
     (if unat (total_regs r) \<le> reg then (Fail, s\<lparr>last_error := DWARF_ERROR_ILLEGAL_VALUE\<rparr>)
      else (Ret (), s\<lparr>stack := (regs_data r ! reg + operands s ! k) # stack s\<rparr>))"
  using assms regs_at_total [of r reg]
  by (simp add: push_reg_plus_def op_fail_def push_front_def)

lemmas handler_run = arith_run shift_run div_run unary_run shuffle_run operand_run deref_run
  op_push_def op_lit_def op_reg_def op_breg_def op_bregx_def op_nop_def op_not_implemented_def

section \<open>Undefined behaviour of the handlers\<close>

text \<open>The inputs on which a handler that finds its stack elements and operands has undefined behaviour.\<close>

definition handler_hazard :: "op_handler \<Rightarrow> 'a::len dwarf_op \<Rightarrow> bool" where
  "handler_hazard h s =
     (case h of
        H_op_pick \<Rightarrow> unat (operands s ! 0) = length (stack s)
      | H_op_abs \<Rightarrow> stack s ! 0 = signed_min
      | H_op_neg \<Rightarrow> stack s ! 0 = signed_min
      | H_op_div \<Rightarrow> stack s ! 0 = -1 \<and> stack s ! 1 = signed_min
      | H_op_shl \<Rightarrow> LENGTH('a) \<le> unat (stack s ! 0)
      | H_op_shr \<Rightarrow> LENGTH('a) \<le> unat (stack s ! 0)
      | H_op_shra \<Rightarrow> LENGTH('a) \<le> unat (stack s ! 0)
      | _ \<Rightarrow> False)"

text \<open>The object is usable: registers are set, the regular memory is there and its reads are defined.\<close>

definition op_ready :: "'a::len dwarf_op \<Rightarrow> bool" where
  "op_ready s \<longleftrightarrow> (\<exists>r. op_regs s = Some r \<and> regs_wf r) \<and>
     (\<exists>m. regular_memory s = Some m \<and> (\<forall>a n. mem_Read m a n \<noteq> Undef))"

lemma op_readyE:
  assumes "op_ready s"
  obtains r m where "op_regs s = Some r" and "regs_wf r" and "regular_memory s = Some m"
    and "\<And>a n. mem_Read m a n \<noteq> Undef"
  using assms unfolding op_ready_def by blast

lemmas length_decomp = Suc_le_length_iff numeral_eq_Suc

lemma run_handler_Undef_iff:
  assumes "op_ready s" and "stack_needed h \<le> length (stack s)" and "operands_needed h \<le> length (operands s)"
  shows "fst (run_handler h s) = Undef \<longleftrightarrow> handler_hazard h s"
proof -
  obtain r m where r: "op_regs s = Some r" "regs_wf r" and m: "regular_memory s = Some m"
    and u: "\<And>a n. mem_Read m a n \<noteq> Undef"
    using assms(1) by (auto elim: op_readyE)
  note p = push_reg_plus_run [OF r]
  show ?thesis
    using assms(2,3) r m u
    by (cases h)
      (auto simp: handler_run handler_hazard_def operands_needed_def length_decomp push_front_def op_fail_def
        rret_def p split: res.splits if_splits)
qed

lemmas handler_defs = op_deref_def op_deref_size_def op_dup_def op_drop_def op_over_def
  op_swap_def op_rot_def op_abs_def op_and_def op_div_def op_minus_def op_mod_def op_mul_def op_neg_def
  op_not_def op_or_def op_plus_def op_plus_uconst_def op_shl_def op_shr_def op_shra_def op_xor_def op_bra_def
  op_eq_def op_ge_def op_gt_def op_le_def op_lt_def op_ne_def op_skip_def op_bregx_def
  op_nop_def op_not_implemented_def binary_def

lemma no_abort_primitives [no_abort_rules]:
  "no_abort StackPop" "no_abort (StackAt i)" "no_abort (OperandAt i)" "no_abort (stack_put i v)"
  "no_abort (push_front v)" "no_abort (op_fail e)" "no_abort (move_cur_offset f)"
  by (simp_all add: no_abort_def StackPop_def StackAt_def OperandAt_def stack_put_def push_front_def
      op_fail_def move_cur_offset_def split: list.split)

lemma no_abort_read_regular [no_abort_rules]: "no_abort (read_regular a n)"
  by (auto simp: no_abort_def read_regular_def op_fail_def mem_Read_not_Abort split: option.split res.split)

lemma no_abort_push_reg_plus [no_abort_rules]: "no_abort (push_reg_plus reg k)"
  using no_abort_rbind [OF no_abort_primitives(3) no_abort_primitives(5)]
  by (auto simp: no_abort_def push_reg_plus_def op_fail_def split: option.split res.split)

lemma no_abort_fst: "no_abort f \<Longrightarrow> fst (f s) \<noteq> Abort"
  by (simp add: no_abort_def)

lemma no_abort_op_pick [no_abort_rules]: "no_abort op_pick"
proof -
  have "fst (rbind (StackAt i) push_front s) \<noteq> Abort" for i and s :: "'a dwarf_op"
    by (intro no_abort_fst no_abort_rules)
  then have "no_abort (\<lambda>s :: 'a dwarf_op. if StackSize s < unat index then op_fail e s
      else rbind (StackAt (unat index)) push_front s)" for index :: "'a word" and e
    by (simp add: no_abort_def op_fail_def)
  then show ?thesis unfolding op_pick_def by (intro no_abort_rules)
qed

lemma no_abort_run_handler [no_abort_rules]: "no_abort (run_handler h)"
proof -
  have "no_abort (op_push :: ('a dwarf_op, unit) op)" "no_abort (op_lit :: ('a dwarf_op, unit) op)"
    "no_abort (op_reg :: ('a dwarf_op, unit) op)"
    by (simp_all add: no_abort_def op_push_def op_lit_def op_reg_def push_front_def)
  moreover have "fst (rbind (OperandAt 0) push_front s) \<noteq> Abort" "fst (push_reg_plus reg k s) \<noteq> Abort"
    for s :: "'a dwarf_op" and reg k
    by (intro no_abort_fst no_abort_rules)+
  then have "no_abort (op_regx :: ('a dwarf_op, unit) op)" "no_abort (op_breg :: ('a dwarf_op, unit) op)"
    by (simp_all add: no_abort_def op_regx_def op_breg_def)
  ultimately show ?thesis
    by (cases h) (auto simp: handler_defs Let_def intro!: no_abort_rules)
qed

section \<open>Frame and stack effect\<close>

definition op_frame :: "'a::len dwarf_op \<Rightarrow> _" where
  "op_frame s = (op_regs s, regular_memory s, operands s, cur_op s, dm_env (op_memory s))"

lemma op_frame_updates [simp]:
  "op_frame (s\<lparr>stack := st\<rparr>) = op_frame s" "op_frame (s\<lparr>last_error := e\<rparr>) = op_frame s"
  "op_frame (s\<lparr>is_register := b\<rparr>) = op_frame s"
  "op_frame (s\<lparr>op_memory := set_cur_offset off (op_memory s)\<rparr>) = op_frame s"
  by (simp_all add: op_frame_def set_cur_offset_def)

lemma keeps_primitives [keeps_rules]:
  "keeps op_frame StackPop" "keeps op_frame (StackAt i)" "keeps op_frame (OperandAt i)"
  "keeps op_frame (stack_put i v)" "keeps op_frame (push_front v)" "keeps op_frame (op_fail e)"
  "keeps op_frame (move_cur_offset f)" "keeps op_frame (read_regular a n)"
  by (simp_all add: keeps_def StackPop_def StackAt_def OperandAt_def stack_put_def push_front_def
      op_fail_def move_cur_offset_def read_regular_def split: list.split option.split res.split)

lemma keeps_at: "keeps p f \<Longrightarrow> p (snd (f s)) = p s"
  by (simp add: keeps_def)

lemma keeps_push_reg_plus [keeps_rules]: "keeps op_frame (push_reg_plus reg k :: ('a::len dwarf_op, unit) op)"
proof -
  have "op_frame (snd (rbind (OperandAt k) (\<lambda>c. push_front (v + c)) s)) = op_frame s"
    for v and s :: "'a dwarf_op"
    by (intro keeps_at keeps_rules)
  then show ?thesis
    by (auto simp: keeps_def push_reg_plus_def op_fail_def split: option.split res.split)
qed

lemma keeps_op_pick [keeps_rules]: "keeps op_frame (op_pick :: ('a::len dwarf_op, unit) op)"
proof -
  have "op_frame (snd (rbind (StackAt i) push_front s)) = op_frame s" for i and s :: "'a dwarf_op"
    by (intro keeps_at keeps_rules)
  then have "keeps op_frame (\<lambda>s :: 'a dwarf_op. if StackSize s < unat index then op_fail e s
      else rbind (StackAt (unat index)) push_front s)" for index :: "'a word" and e
    by (simp add: keeps_def op_fail_def)
  then show ?thesis unfolding op_pick_def by (intro keeps_rules)
qed

lemma keeps_run_handler [keeps_rules]: "keeps op_frame (run_handler h :: ('a::len dwarf_op, unit) op)"
proof -
  have "op_frame (snd (rbind (OperandAt 0) push_front s)) = op_frame s"
    "op_frame (snd (push_reg_plus reg k s)) = op_frame s" for s :: "'a dwarf_op" and reg k
    by (intro keeps_at keeps_rules)+
  then have "keeps op_frame (op_regx :: ('a dwarf_op, unit) op)" "keeps op_frame (op_breg :: ('a dwarf_op, unit) op)"
    "keeps op_frame (op_push :: ('a dwarf_op, unit) op)" "keeps op_frame (op_lit :: ('a dwarf_op, unit) op)"
    "keeps op_frame (op_reg :: ('a dwarf_op, unit) op)"
    by (simp_all add: keeps_def op_regx_def op_breg_def op_push_def op_lit_def op_reg_def push_front_def)
  then show ?thesis
    by (cases h) (auto simp: handler_defs Let_def intro!: keeps_rules)
qed

text \<open>How the depth of the stack changes (\<open>op_push\<close> is used with one operand only).\<close>

definition stack_delta :: "op_handler \<Rightarrow> int" where
  "stack_delta h =
     (if h \<in> {H_op_push, H_op_dup, H_op_over, H_op_pick, H_op_lit, H_op_reg, H_op_regx, H_op_breg, H_op_bregx} then 1
      else if h \<in> {H_op_drop, H_op_and, H_op_div, H_op_minus, H_op_mod, H_op_mul, H_op_or, H_op_plus, H_op_shl,
        H_op_shr, H_op_shra, H_op_xor, H_op_bra, H_op_eq, H_op_ge, H_op_gt, H_op_le, H_op_lt, H_op_ne} then -1
      else 0)"

lemma length_fold_Cons [simp]: "length (fold (#) xs ys) = length xs + length ys"
  by (induction xs arbitrary: ys) simp_all

lemma StackPop_Ret_iff: "StackPop s = (Ret v, s') \<longleftrightarrow> (\<exists>vs. stack s = v # vs \<and> s' = s\<lparr>stack := vs\<rparr>)"
  by (auto simp: StackPop_def split: list.split)

lemma OperandAt_RetD: "OperandAt i s = (Ret v, s') \<Longrightarrow> s' = s"
  by (simp add: OperandAt_def split: if_splits)

lemma read_regular_RetD: "read_regular a n s = (Ret v, s') \<Longrightarrow> s' = s"
  by (auto simp: read_regular_def op_fail_def split: option.splits res.splits)

lemma run_handler_stack_effect:
  assumes "run_handler h s = (Ret u, s')" and "stack_needed h \<le> length (stack s)"
    and "operands_needed h \<le> length (operands s)" and "h = H_op_push \<Longrightarrow> length (operands s) = 1"
  shows "int (length (stack s')) = int (length (stack s)) + stack_delta h"
proof -
  have p: "push_reg_plus reg k s = (Ret (), s') \<Longrightarrow> length (stack s') = Suc (length (stack s))" for reg k
    by (auto simp: push_reg_plus_def op_fail_def rbind_def push_front_def OperandAt_def
        split: option.splits res.splits if_splits)
  have d: "op_deref s = (Ret (), s') \<Longrightarrow> length (stack s') = length (stack s)"
    "op_deref_size s = (Ret (), s') \<Longrightarrow> length (stack s') = length (stack s)"
    by (auto simp: op_deref_def op_deref_size_def rbind_eq_Ret StackPop_Ret_iff op_fail_def push_front_def
        split: if_splits dest!: read_regular_RetD OperandAt_RetD)
  show ?thesis
    using assms
    by (cases h)
      (auto simp: handler_run stack_delta_def operands_needed_def length_decomp push_front_def op_fail_def
        rret_def split: if_splits dest!: d p)
qed

section \<open>Decode\<close>

abbreviation op_row_of :: "u8 \<Rightarrow> op_callback" where
  "op_row_of b \<equiv> kCallbackTable ! unat b"

abbreviation row_operands :: "'a::len itself \<Rightarrow> u8 \<Rightarrow> (dwarf_memory, u64 list) op" where
  "row_operands T b \<equiv> read_operands T (operand_encodings (op_row_of b)) (unat (num_operands (op_row_of b)))"

lemma op_row_ok: "row_ok (op_row_of b)"
proof -
  have "unat b < 256" using unsigned_less [of b, where ?'a = nat] by simp
  then show ?thesis
    using kCallbackTable_rows_ok length_kCallbackTable by (simp add: list_all_length)
qed

lemma op_row_handler:
  assumes "handle_func (op_row_of b) = Some h"
  shows "stack_needed h \<le> unat (num_required_stack_values (op_row_of b))"
    and "operands_needed h \<le> unat (num_operands (op_row_of b))"
    and "h = H_op_push \<Longrightarrow> num_operands (op_row_of b) = 1"
  using op_row_ok [of b] assms by (auto simp: row_ok_def)

lemma read_operands_length: "read_operands T encs n dm = (Ret vs, dm') \<Longrightarrow> length vs = n"
  by (induction T encs n arbitrary: dm vs dm' rule: read_operands.induct)
    (auto simp: rbind_eq_Ret op_defs)

lemma on_op_memory_run:
  "on_op_memory f s =
     (case f (op_memory s) of
        (Ret v, dm) \<Rightarrow> (Ret v, s\<lparr>op_memory := dm\<rparr>)
      | (Fail, dm) \<Rightarrow> (Fail, s\<lparr>op_memory := dm, last_error := DWARF_ERROR_MEMORY_INVALID\<rparr>)
      | (Abort, dm) \<Rightarrow> (Abort, s\<lparr>op_memory := dm\<rparr>)
      | (Undef, dm) \<Rightarrow> (Undef, s\<lparr>op_memory := dm\<rparr>))"
  by (simp add: on_op_memory_def on_fail_def on_part_def split: prod.split res.split)

lemma dm_ReadBytes_one:
  assumes "dm_ReadBytes 1 dm = (Ret bs, dm')"
  shows "\<exists>b. bs = [b] \<and> dm' = dm\<lparr>cur_offset := cur_offset dm + 1\<rparr> \<and> cur_offset dm < cur_offset dm'"
  using assms mem.read_one [of "dm_memory dm" "cur_offset dm"] mem.read_advances_less [of "dm_memory dm" "cur_offset dm" 1]
  by (auto simp: dm_ReadBytes_def split: res.splits)

text \<open>The state in which the handler is called.\<close>

definition decoded :: "u8 \<Rightarrow> u64 list \<Rightarrow> dwarf_memory \<Rightarrow> 'a::len dwarf_op \<Rightarrow> 'a dwarf_op" where
  "decoded b vs dm s =
     s\<lparr>last_error := DWARF_ERROR_NONE, cur_op := b, op_memory := dm, operands := map ucast vs\<rparr>"

lemma decoded_simps [simp]:
  "stack (decoded b vs dm s) = stack s" "operands (decoded b vs dm s) = map ucast vs"
  "cur_op (decoded b vs dm s) = b" "op_memory (decoded b vs dm s) = dm"
  "op_regs (decoded b vs dm s) = op_regs s" "regular_memory (decoded b vs dm s) = regular_memory s"
  "is_register (decoded b vs dm s) = is_register s" "last_error (decoded b vs dm s) = DWARF_ERROR_NONE"
  by (simp_all add: decoded_def)

lemma Decode_run:
  fixes s :: "'a::len dwarf_op"
  assumes "dm_ReadBytes 1 (op_memory s) = (Ret [b], dm1)" and "handle_func (op_row_of b) = Some h"
    and "supported_version (op_row_of b) \<le> ver"
    and "unat (num_required_stack_values (op_row_of b)) \<le> length (stack s)"
    and "row_operands TYPE('a) b dm1 = (Ret vs, dm2)"
  shows "Decode ver s = run_handler h (decoded b vs dm2 s)"
  using assms by (auto simp: Decode_def rbind_def on_op_memory_run Let_def decoded_def not_less dest: leD)

text \<open>Either \<open>Decode\<close> reaches the handler, or it stops before, with the stack as it was.\<close>

lemma Decode_cases:
  fixes s :: "'a::len dwarf_op"
  assumes "Decode ver s = (q, s')"
  obtains (handler) b dm1 h vs dm2 where "dm_ReadBytes 1 (op_memory s) = (Ret [b], dm1)"
      and "handle_func (op_row_of b) = Some h"
      and "supported_version (op_row_of b) \<le> ver"
      and "unat (num_required_stack_values (op_row_of b)) \<le> length (stack s)"
      and "row_operands TYPE('a) b dm1 = (Ret vs, dm2)"
      and "run_handler h (decoded b vs dm2 s) = (q, s')"
  | (operands) b dm1 h where "dm_ReadBytes 1 (op_memory s) = (Ret [b], dm1)"
      and "handle_func (op_row_of b) = Some h"
      and "supported_version (op_row_of b) \<le> ver"
      and "unat (num_required_stack_values (op_row_of b)) \<le> length (stack s)"
      and "fst (row_operands TYPE('a) b dm1) \<in> {Abort, Undef}"
      and "map_res (\<lambda>_. ()) (fst (row_operands TYPE('a) b dm1)) = q"
  | (opcode) "fst (dm_ReadBytes 1 (op_memory s)) \<in> {Abort, Undef}"
      and "map_res (\<lambda>_. ()) (fst (dm_ReadBytes 1 (op_memory s))) = q"
  | (fail) "q = Fail" and "stack s' = stack s" and "last_error s' \<noteq> DWARF_ERROR_NONE"
proof (cases "dm_ReadBytes 1 (op_memory s)")
  case (Pair r dm1)
  show thesis
  proof (cases r)
    case (Ret bs)
    then obtain b where b: "dm_ReadBytes 1 (op_memory s) = (Ret [b], dm1)"
      using dm_ReadBytes_one Pair by blast
    obtain r2 dm2 where r2: "row_operands TYPE('a) b dm1 = (r2, dm2)" by fastforce
    show thesis
      using assms b r2 handler [OF b] operands [OF b] fail
      by (cases r2)
        (auto simp: Decode_def rbind_def on_op_memory_run Let_def decoded_def op_fail_def not_less
          split: option.splits if_splits)
  qed (use assms Pair opcode fail in \<open>auto simp: Decode_def rbind_def on_op_memory_run\<close>)
qed

lemma plain_no_abort: "e \<in> set plain_encodings \<Longrightarrow> no_abort (dm_ReadEncodedValue T e)"
  by (auto simp: no_abort_def ReadEncodedValue_Abort_iff plain_encodings_def)

lemma no_abort_read_operands:
  "list_all (\<lambda>e. e \<in> set plain_encodings) encs \<Longrightarrow> no_abort (read_operands T encs n)"
  by (induction T encs n rule: read_operands.induct) (auto intro!: no_abort_rules plain_no_abort)

lemma no_abort_row_operands: "no_abort (row_operands T b)"
  using op_row_ok [of b] by (intro no_abort_read_operands) (simp add: row_ok_def)

lemma no_abort_Decode [no_abort_rules]: "no_abort (Decode ver :: ('a::len dwarf_op, unit) op)"
  unfolding no_abort_def
proof (intro allI notI)
  fix s :: "'a dwarf_op"
  assume "fst (Decode ver s) = Abort"
  then have "Decode ver s = (Abort, snd (Decode ver s))" by (simp add: prod_eq_iff)
  then show False
  proof (cases rule: Decode_cases)
    case (handler b dm1 h vs dm2)
    then show ?thesis using no_abortD [OF no_abort_run_handler] by blast
  next
    case (operands b dm1 h)
    then show ?thesis using no_abort_row_operands [of "TYPE('a)" b] by (auto simp: no_abort_def)
  next
    case opcode
    then show ?thesis using no_abort_ReadBytes [of 1] by (auto simp: no_abort_def)
  qed simp
qed

lemma handler_operands:
  assumes "handle_func (op_row_of b) = Some h" and "row_operands T b dm1 = (Ret vs, dm2)"
  shows "operands_needed h \<le> length vs" and "h = H_op_push \<Longrightarrow> length vs = 1"
  using op_row_handler(2,3) [OF assms(1)] read_operands_length [OF assms(2)] by simp_all

lemma handler_hazard_cong:
  "stack s = stack t \<Longrightarrow> operands s = operands t \<Longrightarrow> handler_hazard h s = handler_hazard h t"
  by (cases h) (simp_all add: handler_hazard_def)

lemma Decode_Undef_iff:
  fixes s :: "'a::len dwarf_op"
  assumes "op_ready s" and "\<And>a n. mem_Read (dm_memory (op_memory s)) a n \<noteq> Undef"
  shows "fst (Decode ver s) = Undef \<longleftrightarrow>
    (\<exists>b dm1 h. dm_ReadBytes 1 (op_memory s) = (Ret [b], dm1) \<and> handle_func (op_row_of b) = Some h \<and>
       supported_version (op_row_of b) \<le> ver \<and>
       unat (num_required_stack_values (op_row_of b)) \<le> length (stack s) \<and>
       (fst (row_operands TYPE('a) b dm1) = Undef \<or>
        (\<exists>vs dm2. row_operands TYPE('a) b dm1 = (Ret vs, dm2) \<and>
           handler_hazard h (s\<lparr>operands := map ucast vs\<rparr>))))"
    (is "_ \<longleftrightarrow> ?R")
proof -
  have run: "fst (run_handler h (decoded b vs dm2 s)) = Undef \<longleftrightarrow> handler_hazard h (s\<lparr>operands := map ucast vs\<rparr>)"
    if "handle_func (op_row_of b) = Some h" "row_operands TYPE('a) b dm1 = (Ret vs, dm2)"
      "unat (num_required_stack_values (op_row_of b)) \<le> length (stack s)" for b h vs dm1 dm2
  proof -
    have "op_ready (decoded b vs dm2 s)" using assms(1) by (simp add: op_ready_def)
    then have "fst (run_handler h (decoded b vs dm2 s)) = Undef \<longleftrightarrow> handler_hazard h (decoded b vs dm2 s)"
      using op_row_handler(1) [OF that(1)] handler_operands(1) [OF that(1,2)] that(3)
      by (intro run_handler_Undef_iff) simp_all
    then show ?thesis by (subst handler_hazard_cong [of _ "decoded b vs dm2 s"]) simp_all
  qed
  show ?thesis
  proof
    assume "fst (Decode ver s) = Undef"
    then have "Decode ver s = (Undef, snd (Decode ver s))" by (simp add: prod_eq_iff)
    then show ?R
    proof (cases rule: Decode_cases)
      case (handler b dm1 h vs dm2)
      then show ?thesis using run [OF handler(2,5,4)] by auto
    next
      case (operands b dm1 h)
      then show ?thesis using no_abort_row_operands [of "TYPE('a)" b] by (auto simp: no_abort_def)
    next
      case opcode
      then show ?thesis using assms(2) no_abort_ReadBytes [of 1]
        by (auto simp: no_abort_def dm_ReadBytes_def split: res.splits)
    qed simp
  next
    assume ?R
    then obtain b dm1 h where b: "dm_ReadBytes 1 (op_memory s) = (Ret [b], dm1)"
        "handle_func (op_row_of b) = Some h" "supported_version (op_row_of b) \<le> ver"
        "unat (num_required_stack_values (op_row_of b)) \<le> length (stack s)"
      and c: "fst (row_operands TYPE('a) b dm1) = Undef \<or>
        (\<exists>vs dm2. row_operands TYPE('a) b dm1 = (Ret vs, dm2) \<and> handler_hazard h (s\<lparr>operands := map ucast vs\<rparr>))"
      by blast
    from c show "fst (Decode ver s) = Undef"
    proof
      assume "fst (row_operands TYPE('a) b dm1) = Undef"
      then show ?thesis
        using b by (auto simp: Decode_def rbind_def on_op_memory_run Let_def not_less dest: leD split: prod.split)
    qed (use Decode_run [OF b] run [OF b(2) _ b(4)] in auto)
  qed
qed

lemma Decode_stack:
  fixes s :: "'a::len dwarf_op"
  assumes "Decode ver s = (Ret (), s')"
  shows "\<exists>h. handle_func (op_row_of (cur_op s')) = Some h \<and> stack_needed h \<le> length (stack s) \<and>
    int (length (stack s')) = int (length (stack s)) + stack_delta h"
  using assms
proof (cases rule: Decode_cases)
  case (handler b dm1 h vs dm2)
  have "cur_op s' = b"
    using keepsD [OF keeps_run_handler handler(6)] by (simp add: op_frame_def)
  moreover have "int (length (stack s')) = int (length (stack s)) + stack_delta h"
    using run_handler_stack_effect [OF handler(6)] handler
      op_row_handler(1) [OF handler(2)] handler_operands [OF handler(2,5)]
    by simp
  ultimately show ?thesis using handler op_row_handler(1) [OF handler(2)] by auto
qed auto

section \<open>Eval\<close>

text \<open>\<open>n\<close> rounds of the loop, each of which calls \<open>Decode\<close> successfully.\<close>

inductive decodes :: "u64 \<Rightarrow> u8 \<Rightarrow> nat \<Rightarrow> 'a::len dwarf_op \<Rightarrow> 'a dwarf_op \<Rightarrow> bool" for e ver where
  decodes_0: "decodes e ver 0 s s"
| decodes_Suc: "cur_offset (op_memory s) < e \<Longrightarrow> Decode ver s = (Ret (), s1) \<Longrightarrow> decodes e ver n s1 s2 \<Longrightarrow>
    decodes e ver (Suc n) s s2"

inductive_simps decodes_0_iff [simp]: "decodes e ver 0 s s'"
inductive_simps decodes_Suc_iff: "decodes e ver (Suc n) s s'"

lemma decodes_unfold:
  "(\<exists>n s1. decodes e ver n s s1 \<and> P n s1) \<longleftrightarrow>
     P 0 s \<or> cur_offset (op_memory s) < e \<and>
       (\<exists>s2. Decode ver s = (Ret (), s2) \<and> (\<exists>n s1. decodes e ver n s2 s1 \<and> P (Suc n) s1))"
proof -
  have "(\<exists>n s1. decodes e ver n s s1 \<and> P n s1) \<longleftrightarrow>
      (\<exists>s1. decodes e ver 0 s s1 \<and> P 0 s1) \<or> (\<exists>n s1. decodes e ver (Suc n) s s1 \<and> P (Suc n) s1)"
    by (metis not0_implies_Suc)
  then show ?thesis unfolding decodes_0_iff decodes_Suc_iff by blast
qed

definition loop_result :: "u64 \<Rightarrow> u8 \<Rightarrow> nat \<Rightarrow> nat \<Rightarrow> 'a::len dwarf_op \<Rightarrow> unit res \<Rightarrow> 'a dwarf_op \<Rightarrow> bool" where
  "loop_result e ver m n s1 q s' \<longleftrightarrow>
     n \<le> m \<and> \<not> cur_offset (op_memory s1) < e \<and> q = Ret () \<and> s' = s1 \<or>
     n \<le> m \<and> cur_offset (op_memory s1) < e \<and> q \<noteq> Ret () \<and> Decode ver s1 = (q, s') \<or>
     n = Suc m \<and> q = Fail \<and> s' = s1\<lparr>last_error := DWARF_ERROR_TOO_MANY_ITERATIONS\<rparr>"

lemma Eval_loop_result:
  assumes "unat iterations + m = 1000"
  shows "Eval_loop e ver iterations s = (q, s') \<longleftrightarrow>
    (\<exists>n s1. decodes e ver n s s1 \<and> loop_result e ver m n s1 q s')"
  using assms
proof (induction m arbitrary: iterations s)
  case 0
  then have i: "iterations = 1000" by (simp add: word_unat_eq_iff)
  show ?case
    unfolding i
    by (subst decodes_unfold, subst decodes_unfold)
      (auto simp: Eval_loop.simps [of e ver 1000 s] loop_result_def op_fail_def
        split: prod.splits res.splits)
next
  case (Suc m)
  then have i: "iterations \<noteq> 1000" by auto
  have "unat (iterations + 1) = unat iterations + 1"
    using Suc.prems by (simp add: unat_word_ariths)
  then have "Eval_loop e ver (iterations + 1) s2 = (q, s') \<longleftrightarrow>
      (\<exists>n s1. decodes e ver n s2 s1 \<and> loop_result e ver (Suc m) (Suc n) s1 q s')" for s2
    using Suc.IH [of "iterations + 1" s2] Suc.prems by (simp add: loop_result_def)
  then show ?case
    by (subst decodes_unfold)
      (auto simp: Eval_loop.simps [of e ver iterations s] i loop_result_def [of _ _ _ 0]
        split: prod.splits res.splits)
qed

section \<open>One row at a time\<close>

text \<open>What \<open>Decode\<close> uses of the row of an opcode.\<close>

definition row_sig :: "u8 \<Rightarrow> op_handler option \<times> u8 \<times> u8 \<times> u8 list" where
  "row_sig b = (let op = op_row_of b in (handle_func op, supported_version op, num_required_stack_values op,
     take (unat (num_operands op)) (operand_encodings op)))"

lemma read_operands_take:
  "n \<le> length encs \<Longrightarrow> read_operands T encs n = read_operands T (take n encs) (length (take n encs))"
  by (induction T encs n rule: read_operands.induct) simp_all

lemma row_operands_sig:
  assumes "row_sig b = (h, v, req, encs)"
  shows "row_operands T b = read_operands T encs (length encs)"
proof -
  have "unat (num_operands (op_row_of b)) \<le> length (operand_encodings (op_row_of b))"
    using op_row_ok [of b] by (simp add: row_ok_def word_le_nat_alt)
  then show ?thesis
    using assms by (subst read_operands_take) (auto simp: row_sig_def Let_def)
qed

lemma Decode_sig:
  fixes s :: "'a::len dwarf_op"
  assumes "row_sig b = (Some h, 2, req, encs)" and "2 \<le> ver" and "unat req \<le> length (stack s)"
    and "mem_holds (dm_memory (op_memory s)) (cur_offset (op_memory s)) (b # rest)"
    and "read_operands TYPE('a) encs (length encs)
      ((op_memory s)\<lparr>cur_offset := cur_offset (op_memory s) + 1\<rparr>) = (Ret vs, dm2)"
  shows "Decode ver s = run_handler h (decoded b vs dm2 s)"
proof -
  have "row_operands TYPE('a) b = read_operands TYPE('a) encs (length encs)"
    by (rule row_operands_sig [OF assms(1)])
  moreover have "dm_ReadBytes 1 (op_memory s) =
      (Ret [b], (op_memory s)\<lparr>cur_offset := cur_offset (op_memory s) + 1\<rparr>)"
    using dm_ReadBytes_holds [OF assms(4), of 1] by simp
  ultimately show ?thesis
    using assms by (intro Decode_run) (auto simp: row_sig_def Let_def)
qed

text \<open>A two-byte operand, as the branches use it.\<close>

lemma int16_offset_ucast:
  assumes "16 \<le> LENGTH('a::len)"
  shows "int16_offset (ucast (scast (w :: u16) :: u64) :: 'a word) = scast w"
proof -
  have "(ucast (ucast (scast w :: u64) :: 'a word) :: u16) = w"
    by (rule bit_word_eqI) (use assms in \<open>auto simp: bit_simps\<close>)
  then show ?thesis by (simp add: int16_offset_def)
qed

lemma read_sdata2_operand:
  assumes "mem_holds (dm_memory dm) (cur_offset dm) [b, lo, hi]"
  shows "read_operands T [DW_EH_PE_sdata2] (length [DW_EH_PE_sdata2]) (dm\<lparr>cur_offset := cur_offset dm + 1\<rparr>) =
    (Ret [scast (le_word [lo, hi] :: u16)], dm\<lparr>cur_offset := cur_offset dm + 3\<rparr>)"
proof -
  let ?dm = "dm\<lparr>cur_offset := cur_offset dm + 1\<rparr>"
  have "mem_holds (dm_memory ?dm) (cur_offset ?dm) [lo, hi]"
    using mem_holds_Cons(2) [OF assms] by simp
  from dm_ReadBytes_holds [OF this, of 2]
  have "dm_ReadBytes 2 ?dm = (Ret [lo, hi], dm\<lparr>cur_offset := cur_offset dm + 3\<rparr>)" by simp
  then show ?thesis
    by (simp add: dm_ReadEncodedValue_def read_encoded_data_def AdjustEncodedValue_def dm_ReadSigned_def rret_def)
qed

lemma row_sig_branches:
  "row_sig 0x28 = (Some H_op_bra, 2, 1, [DW_EH_PE_sdata2])" "row_sig 0x2f = (Some H_op_skip, 2, 0, [DW_EH_PE_sdata2])"
  by code_simp+

lemma Decode_skip:
  fixes s :: "'a::len dwarf_op"
  assumes "mem_holds (dm_memory (op_memory s)) (cur_offset (op_memory s)) [0x2f, lo, hi]"
    and "2 \<le> ver" and "16 \<le> LENGTH('a)"
  shows "Decode ver s = (Ret (), decoded 0x2f [scast (le_word [lo, hi] :: u16)]
    ((op_memory s)\<lparr>cur_offset := cur_offset (op_memory s) + 3 + scast (le_word [lo, hi] :: u16)\<rparr>) s)"
  using Decode_sig [OF row_sig_branches(2) assms(2) _ assms(1) read_sdata2_operand [OF assms(1)]]
  by (simp add: operand_run int16_offset_ucast [OF assms(3)] set_cur_offset_def decoded_def del: le_word.simps)

lemma Decode_bra:
  fixes s :: "'a::len dwarf_op"
  assumes "mem_holds (dm_memory (op_memory s)) (cur_offset (op_memory s)) [0x28, lo, hi]"
    and "2 \<le> ver" and "16 \<le> LENGTH('a)" and "stack s = v # vs"
  shows "Decode ver s = (Ret (), (decoded 0x28 [scast (le_word [lo, hi] :: u16)]
    ((op_memory s)\<lparr>cur_offset :=
       (if v \<noteq> 0 then cur_offset (op_memory s) + 3 + scast (le_word [lo, hi] :: u16)
        else cur_offset (op_memory s) + 3 - scast (le_word [lo, hi] :: u16))\<rparr>) s)\<lparr>stack := vs\<rparr>)"
  using Decode_sig [OF row_sig_branches(1) assms(2) _ assms(1) read_sdata2_operand [OF assms(1)]] assms(4)
  by (simp add: operand_run int16_offset_ucast [OF assms(3)] set_cur_offset_def decoded_def
      del: le_word.simps)

text \<open>A jump to itself.\<close>

lemma skip_loop_decodes:
  fixes s :: "'a::len dwarf_op"
  assumes "mem_holds (dm_memory (op_memory s)) (cur_offset (op_memory s)) [0x2f, 0xfd, 0xff]"
    and "2 \<le> ver" and "16 \<le> LENGTH('a)" and "cur_offset (op_memory s) < e"
  shows "\<exists>s'. decodes e ver n s s' \<and> op_memory s' = op_memory s"
  using assms
proof (induction n arbitrary: s)
  case (Suc n)
  have "scast (le_word [0xfd, 0xff] :: u16) = (- 3 :: u64)" by simp
  then obtain s1 where s1: "Decode ver s = (Ret (), s1)" "op_memory s1 = op_memory s"
    using Decode_skip [OF Suc.prems(1-3)] by (simp del: le_word.simps)
  from Suc.IH [of s1] Suc.prems s1(2) obtain s' where "decodes e ver n s1 s'" "op_memory s' = op_memory s" by auto
  then show ?case using decodes_Suc [OF Suc.prems(4) s1(1)] by blast
qed simp

section \<open>Properties\<close>


definition sample_op :: "u8 list \<Rightarrow> u32 list \<Rightarrow> 32 dwarf_op" where
  "sample_op code st = (set_regs (new_RegsImpl 16 13 \<lparr>loc_type = LOCATION_REGISTER, loc_value = 14\<rparr> 0 0)
     (new_DwarfOp (new_DwarfMemory (MemoryBuffer code)) (Some (MemoryBuffer []))))\<lparr>stack := st\<rparr>"

lemma sample_op_simps [simp]:
  "op_memory (sample_op code st) = new_DwarfMemory (MemoryBuffer code)" "stack (sample_op code st) = st"
  "op_ready (sample_op code st)"
  by (simp_all add: sample_op_def set_regs_def new_DwarfOp_def op_ready_def MemoryBuffer_Read_def)


text \<open>A successful \<open>Decode\<close> found the stack elements its handler needs and changed the depth of the
  stack by the amount that belongs to the handler.\<close>

theorem Decode_stack_effect:
  assumes "Decode ver s = (Ret (), s')"
  shows "\<exists>h. handle_func (kCallbackTable ! unat (cur_op s')) = Some h \<and> stack_needed h \<le> length (stack s) \<and>
    int (length (stack s')) = int (length (stack s)) + stack_delta h"
  using Decode_stack [OF assms] .

theorem Decode_stack_effect_witness:
  "\<exists>s'. Decode 4 (sample_op [0x2f, 0x04, 0x00] [7]) = (Ret (), s') \<and> cur_op s' = 0x2f \<and> length (stack s') = 1"
proof -
  have "mem_holds (MemoryBuffer [0x2f, 0x04, 0x00]) 0 [0x2f, 0x04, 0x00]"
    using mem_holds_MemoryBuffer [of "[]" "[0x2f, 0x04, 0x00]" "[]"] by simp
  then obtain s' where s': "Decode 4 (sample_op [0x2f, 0x04, 0x00] [7]) = (Ret (), s')" "cur_op s' = 0x2f"
    using Decode_skip [of "sample_op [0x2f, 0x04, 0x00] [7]" "0x04" "0x00" 4] by (simp add: new_DwarfMemory_def)
  then show ?thesis
    using Decode_stack_effect [OF s'(1)] row_sig_branches(2) by (auto simp: row_sig_def Let_def stack_delta_def)
qed

text \<open>\<open>Eval\<close> is the iteration of \<open>Decode\<close>, at most 1001 times: it succeeds when the cursor has left the
  expression after \<open>n \<le> 1000\<close> operations, passes on the first failure of \<open>Decode\<close>, and fails with
  \<open>DWARF_ERROR_TOO_MANY_ITERATIONS\<close> after 1001 successful operations, even if the cursor has left
  the expression then.\<close>

theorem Eval_bounded_iteration:
  "Eval start e ver s = (q, s') \<longleftrightarrow>
    (\<exists>n s1. decodes e ver n
        (s\<lparr>is_register := False, stack := [], op_memory := set_cur_offset start (op_memory s)\<rparr>) s1 \<and>
      (n \<le> 1000 \<and> \<not> cur_offset (op_memory s1) < e \<and> q = Ret () \<and> s' = s1 \<or>
       n \<le> 1000 \<and> cur_offset (op_memory s1) < e \<and> q \<noteq> Ret () \<and> Decode ver s1 = (q, s') \<or>
       n = 1001 \<and> q = Fail \<and> s' = s1\<lparr>last_error := DWARF_ERROR_TOO_MANY_ITERATIONS\<rparr>))"
  using Eval_loop_result [of 0 1000 e ver _ q s'] by (simp add: Eval_def loop_result_def)

theorem Eval_bounded_iteration_witness:
  "Eval 5 5 4 (sample_op [] []) =
     (Ret (), (sample_op [] [])\<lparr>op_memory := set_cur_offset 5 (op_memory (sample_op [] []))\<rparr>)"
proof -
  let ?s = "(sample_op [] [])\<lparr>op_memory := set_cur_offset 5 (op_memory (sample_op [] []))\<rparr>"
  have "(sample_op [] [])\<lparr>is_register := False, stack := [], op_memory := set_cur_offset 5 (op_memory (sample_op [] []))\<rparr> = ?s"
    by (simp add: sample_op_def set_regs_def new_DwarfOp_def)
  moreover have "decodes 5 4 0 ?s ?s" by simp
  moreover have "\<not> cur_offset (op_memory ?s) < 5" by (simp add: set_cur_offset_def)
  ultimately show ?thesis
    by (subst Eval_bounded_iteration, intro exI [of _ 0] exI [of _ ?s]) simp
qed

text \<open>No input makes the evaluator abort: the \<open>CHECK\<close>s behind \<open>ReadEncodedValue\<close> cannot fail for the
  encodings of the table.\<close>

theorem Eval_never_aborts: "fst (Eval start e ver s) \<noteq> Abort"
proof
  assume "fst (Eval start e ver s) = Abort"
  then obtain s' where "Eval start e ver s = (Abort, s')" by (cases "Eval start e ver s") simp
  then obtain s1 where "Decode ver s1 = (Abort, s')"
    using Eval_loop_result [of 0 1000 e ver _ Abort s'] by (auto simp: Eval_def loop_result_def)
  then show False using no_abortD [OF no_abort_Decode] by blast
qed

text \<open>A jump to itself does not hang the unwinder: \<open>Eval\<close> of \<open>DW_OP_skip -3\<close> fails with
  \<open>DWARF_ERROR_TOO_MANY_ITERATIONS\<close>.\<close>

theorem Eval_skip_loop:
  fixes s :: "'a::len dwarf_op"
  assumes "mem_holds (dm_memory (op_memory s)) start [0x2f, 0xfd, 0xff]"
    and "start < e" and "2 \<le> ver" and "16 \<le> LENGTH('a)"
  shows "\<exists>s'. Eval start e ver s = (Fail, s') \<and> last_error s' = DWARF_ERROR_TOO_MANY_ITERATIONS"
proof -
  let ?s = "s\<lparr>is_register := False, stack := [], op_memory := set_cur_offset start (op_memory s)\<rparr>"
  obtain s1 where s1: "decodes e ver 1001 ?s s1"
    using skip_loop_decodes [of ?s ver e 1001] assms by (auto simp: set_cur_offset_def)
  have "Eval start e ver s = (Fail, s1\<lparr>last_error := DWARF_ERROR_TOO_MANY_ITERATIONS\<rparr>)"
    unfolding Eval_def using Eval_loop_result [of 0 1000 e ver ?s Fail] s1 by (auto simp: loop_result_def)
  then show ?thesis by simp
qed

theorem Eval_skip_loop_witness:
  "\<exists>s'. Eval 0 3 4 (sample_op [0x2f, 0xfd, 0xff] []) = (Fail, s') \<and> last_error s' = DWARF_ERROR_TOO_MANY_ITERATIONS"
proof -
  have "mem_holds (MemoryBuffer [0x2f, 0xfd, 0xff]) 0 [0x2f, 0xfd, 0xff]"
    using mem_holds_MemoryBuffer [of "[]" "[0x2f, 0xfd, 0xff]" "[]"] by simp
  then show ?thesis
    using Eval_skip_loop [of "sample_op [0x2f, 0xfd, 0xff] []" 0 3 4] by (simp add: new_DwarfMemory_def)
qed

text \<open>The conditional branch \<open>DW_OP_bra\<close> pops the condition; a non-zero condition moves the cursor
  forward by the signed offset, and zero moves it backward by the same offset instead of going on
  with the next operation.\<close>

theorem Decode_bra_moves:
  fixes s :: "'a::len dwarf_op"
  assumes "mem_holds (dm_memory (op_memory s)) (cur_offset (op_memory s)) [0x28, lo, hi]"
    and "2 \<le> ver" and "16 \<le> LENGTH('a)" and "stack s = v # vs"
  shows "\<exists>s'. Decode ver s = (Ret (), s') \<and> stack s' = vs \<and>
    cur_offset (op_memory s') = cur_offset (op_memory s) + 3 +
      (if v = 0 then - scast (le_word [lo, hi] :: u16) else scast (le_word [lo, hi] :: u16))"
  using Decode_bra [OF assms] by (simp del: le_word.simps)

theorem Decode_bra_moves_witness:
  "\<exists>s'. Decode 4 (sample_op [0x28, 0x02, 0x00] [0, 7]) = (Ret (), s') \<and> stack s' = [7] \<and> cur_offset (op_memory s') = 1"
proof -
  have "mem_holds (MemoryBuffer [0x28, 0x02, 0x00]) 0 [0x28, 0x02, 0x00]"
    using mem_holds_MemoryBuffer [of "[]" "[0x28, 0x02, 0x00]" "[]"] by simp
  then show ?thesis
    using Decode_bra_moves [of "sample_op [0x28, 0x02, 0x00] [0, 7]" "0x02" "0x00" 4 0 "[7]"]
    by (simp add: new_DwarfMemory_def)
qed

end
