(* ===== verification/DwarfOp_Expr.thy ===== *)
theory DwarfOp_Expr
  imports DwarfOp
begin

text \<open>
  Expressions evaluated by \<open>DwarfOp::Eval\<close>: a small expression language, its translation to DWARF
  code, and the lemmas that lead to the theorem that \<open>Eval\<close> computes the value of the expression.
\<close>


section \<open>Expressions and their code\<close>

text \<open>An expression language with the operators of the standard, its meaning, and its translation
  to DWARF code. Division and the shifts have no value where the handlers are undefined or fail.\<close>

datatype unop = Abs | Neg | Not
datatype binop = And | Div | Minus | Mod | Mul | Or | Plus | Shl | Shr | Shra | Xor | Eq | Ge | Gt | Le | Lt | Ne

datatype dexpr =
    Lit nat
  | Constu u64
  | Consts int
  | Breg nat int
  | Deref dexpr
  | PlusU dexpr u64
  | Unary unop dexpr
  | Binary binop dexpr dexpr

fun unop_value :: "unop \<Rightarrow> 'a::len word \<Rightarrow> 'a word option" where
  "unop_value Abs v = (if v = signed_min then None else Some (of_int \<bar>sint v\<bar>))"
| "unop_value Neg v = (if v = signed_min then None else Some (- v))"
| "unop_value Not v = Some (NOT v)"

fun binop_value :: "binop \<Rightarrow> 'a::len word \<Rightarrow> 'a word \<Rightarrow> 'a word option" where
  "binop_value And v t = Some (v AND t)"
| "binop_value Div v t =
     (if t = 0 \<or> v = signed_min \<and> t = -1 then None else Some (of_int (sint v sdiv sint t)))"
| "binop_value Minus v t = Some (v - t)"
| "binop_value Mod v t = (if t = 0 then None else Some (v mod t))"
| "binop_value Mul v t = Some (v * t)"
| "binop_value Or v t = Some (v OR t)"
| "binop_value Plus v t = Some (v + t)"
| "binop_value Shl v t = (if unat t < LENGTH('a) then Some (v * 2 ^ unat t) else None)"
| "binop_value Shr v t = (if unat t < LENGTH('a) then Some (v div 2 ^ unat t) else None)"
| "binop_value Shra v t = (if unat t < LENGTH('a) then Some (of_int (sint v div 2 ^ unat t)) else None)"
| "binop_value Xor v t = Some (v XOR t)"
| "binop_value Eq v t = Some (of_bool (v = t))"
| "binop_value Ge v t = Some (of_bool (v \<ge> t))"
| "binop_value Gt v t = Some (of_bool (v > t))"
| "binop_value Le v t = Some (of_bool (v \<le> t))"
| "binop_value Lt v t = Some (of_bool (v < t))"
| "binop_value Ne v t = Some (of_bool (v \<noteq> t))"

fun dvalue :: "'a::len regs \<Rightarrow> memory \<Rightarrow> dexpr \<Rightarrow> 'a word option" where
  "dvalue r m (Lit n) = (if n < 32 then Some (of_nat n) else None)"
| "dvalue r m (Constu v) = Some (ucast v)"
| "dvalue r m (Consts v) = (if - (2 ^ 62) \<le> v \<and> v < 2 ^ 63 then Some (of_int v) else None)"
| "dvalue r m (Breg reg v) =
     (if reg < 32 \<and> reg < length (regs_data r) \<and> - (2 ^ 62) \<le> v \<and> v < 2 ^ 63
      then Some (regs_data r ! reg + of_int v) else None)"
| "dvalue r m (Deref e) =
     (case dvalue r m e of None \<Rightarrow> None
      | Some a \<Rightarrow> (case mem_Read m (ucast a) (sizeof TYPE('a)) of Ret bs \<Rightarrow> Some (le_word bs) | _ \<Rightarrow> None))"
| "dvalue r m (PlusU e v) = map_option (\<lambda>w. w + ucast v) (dvalue r m e)"
| "dvalue r m (Unary f e) = (case dvalue r m e of None \<Rightarrow> None | Some v \<Rightarrow> unop_value f v)"
| "dvalue r m (Binary f e1 e2) =
     (case (dvalue r m e1, dvalue r m e2) of (Some v, Some t) \<Rightarrow> binop_value f v t | _ \<Rightarrow> None)"

primrec unop_code :: "unop \<Rightarrow> u8" where
  "unop_code Abs = 0x19"
| "unop_code Neg = 0x1f"
| "unop_code Not = 0x20"

primrec binop_code :: "binop \<Rightarrow> u8" where
  "binop_code And = 0x1a"
| "binop_code Div = 0x1b"
| "binop_code Minus = 0x1c"
| "binop_code Mod = 0x1d"
| "binop_code Mul = 0x1e"
| "binop_code Or = 0x21"
| "binop_code Plus = 0x22"
| "binop_code Shl = 0x24"
| "binop_code Shr = 0x25"
| "binop_code Shra = 0x26"
| "binop_code Xor = 0x27"
| "binop_code Eq = 0x29"
| "binop_code Ge = 0x2a"
| "binop_code Gt = 0x2b"
| "binop_code Le = 0x2c"
| "binop_code Lt = 0x2d"
| "binop_code Ne = 0x2e"

primrec dcode :: "dexpr \<Rightarrow> u8 list" where
  "dcode (Lit n) = [of_nat (0x30 + n)]"
| "dcode (Constu v) = 0x10 # uleb_encode (unat v)"
| "dcode (Consts v) = 0x11 # sleb_encode v"
| "dcode (Breg reg v) = of_nat (0x70 + reg) # sleb_encode v"
| "dcode (Deref e) = dcode e @ [0x06]"
| "dcode (PlusU e v) = dcode e @ 0x23 # uleb_encode (unat v)"
| "dcode (Unary f e) = dcode e @ [unop_code f]"
| "dcode (Binary f e1 e2) = dcode e1 @ dcode e2 @ [binop_code f]"

text \<open>The number of operations in the code.\<close>

primrec op_count :: "dexpr \<Rightarrow> nat" where
  "op_count (Lit n) = 1"
| "op_count (Constu v) = 1"
| "op_count (Consts v) = 1"
| "op_count (Breg reg v) = 1"
| "op_count (Deref e) = Suc (op_count e)"
| "op_count (PlusU e v) = Suc (op_count e)"
| "op_count (Unary f e) = Suc (op_count e)"
| "op_count (Binary f e1 e2) = Suc (op_count e1 + op_count e2)"

subsection \<open>Rows of the table used by the code\<close>

primrec unop_handler :: "unop \<Rightarrow> op_handler" where
  "unop_handler Abs = H_op_abs"
| "unop_handler Neg = H_op_neg"
| "unop_handler Not = H_op_not"

primrec binop_handler :: "binop \<Rightarrow> op_handler" where
  "binop_handler And = H_op_and"
| "binop_handler Div = H_op_div"
| "binop_handler Minus = H_op_minus"
| "binop_handler Mod = H_op_mod"
| "binop_handler Mul = H_op_mul"
| "binop_handler Or = H_op_or"
| "binop_handler Plus = H_op_plus"
| "binop_handler Shl = H_op_shl"
| "binop_handler Shr = H_op_shr"
| "binop_handler Shra = H_op_shra"
| "binop_handler Xor = H_op_xor"
| "binop_handler Eq = H_op_eq"
| "binop_handler Ge = H_op_ge"
| "binop_handler Gt = H_op_gt"
| "binop_handler Le = H_op_le"
| "binop_handler Lt = H_op_lt"
| "binop_handler Ne = H_op_ne"

lemma row_sig_misc:
  "row_sig 0x06 = (Some H_op_deref, 2, 1, [])" "row_sig 0x10 = (Some H_op_push, 2, 0, [DW_EH_PE_uleb128])"
  "row_sig 0x11 = (Some H_op_push, 2, 0, [DW_EH_PE_sleb128])"
  "row_sig 0x23 = (Some H_op_plus_uconst, 2, 1, [DW_EH_PE_uleb128])"
  by code_simp+

lemma row_sig_unop: "row_sig (unop_code f) = (Some (unop_handler f), 2, 1, [])"
proof -
  have "list_all (\<lambda>f. row_sig (unop_code f) = (Some (unop_handler f), 2, 1, [])) [Abs, Neg, Not]"
    by code_simp
  then show ?thesis by (cases f) simp_all
qed

lemma row_sig_binop: "row_sig (binop_code f) = (Some (binop_handler f), 2, 2, [])"
proof -
  have "list_all (\<lambda>f. row_sig (binop_code f) = (Some (binop_handler f), 2, 2, []))
    [And, Div, Minus, Mod, Mul, Or, Plus, Shl, Shr, Shra, Xor, Eq, Ge, Gt, Le, Lt, Ne]"
    by code_simp
  then show ?thesis by (cases f) simp_all
qed

lemma row_sig_lit: "n < 32 \<Longrightarrow> row_sig (of_nat (0x30 + n)) = (Some H_op_lit, 2, 0, [])"
proof -
  have "list_all (\<lambda>n. row_sig (of_nat (0x30 + n)) = (Some H_op_lit, 2, 0, [])) [0..<32]"
    by code_simp
  then show "n < 32 \<Longrightarrow> row_sig (of_nat (0x30 + n)) = (Some H_op_lit, 2, 0, [])"
    by (simp only: list_all_iff set_upt) simp
qed

lemma row_sig_breg: "n < 32 \<Longrightarrow> row_sig (of_nat (0x70 + n)) = (Some H_op_breg, 2, 0, [DW_EH_PE_sleb128])"
proof -
  have "list_all (\<lambda>n. row_sig (of_nat (0x70 + n)) = (Some H_op_breg, 2, 0, [DW_EH_PE_sleb128])) [0..<32]"
    by code_simp
  then show "n < 32 \<Longrightarrow> row_sig (of_nat (0x70 + n)) = (Some H_op_breg, 2, 0, [DW_EH_PE_sleb128])"
    by (simp only: list_all_iff set_upt) simp
qed


subsection \<open>Running one operation\<close>

lemma read_uleb_operand:
  assumes "mem_holds (dm_memory dm) (cur_offset dm) (b # uleb_encode (unat v))"
  shows "read_operands T [DW_EH_PE_uleb128] (length [DW_EH_PE_uleb128]) (dm\<lparr>cur_offset := cur_offset dm + 1\<rparr>) =
    (Ret [v], dm\<lparr>cur_offset := cur_offset dm + 1 + of_nat (length (uleb_encode (unat v)))\<rparr>)"
  using ReadULEB128_encode [of "dm\<lparr>cur_offset := cur_offset dm + 1\<rparr>" v] mem_holds_Cons(2) [OF assms]
  by (simp add: dm_ReadEncodedValue_def read_encoded_data_def AdjustEncodedValue_def rret_def)

lemma read_sleb_operand:
  assumes "mem_holds (dm_memory dm) (cur_offset dm) (b # sleb_encode v)" and "- (2 ^ 62) \<le> v" and "v < 2 ^ 63"
  shows "read_operands T [DW_EH_PE_sleb128] (length [DW_EH_PE_sleb128]) (dm\<lparr>cur_offset := cur_offset dm + 1\<rparr>) =
    (Ret [of_int v], dm\<lparr>cur_offset := cur_offset dm + 1 + of_nat (length (sleb_encode v))\<rparr>)"
  using ReadSLEB128_encode [of "dm\<lparr>cur_offset := cur_offset dm + 1\<rparr>" v] mem_holds_Cons(2) [OF assms(1)] assms(2,3)
  by (simp add: dm_ReadEncodedValue_def read_encoded_data_def AdjustEncodedValue_def rret_def)

lemma run_unop:
  assumes "stack s = v # vs" and "unop_value f v = Some w"
  shows "run_handler (unop_handler f) s = (Ret (), s\<lparr>stack := w # vs\<rparr>)"
  using assms by (cases f) (auto simp: unary_run split: if_splits)

lemma shift_values:
  fixes v :: "'a::len word"
  shows "push_bit n v = v * 2 ^ n" and "drop_bit n v = v div 2 ^ n"
    and "signed_drop_bit n v = of_int (sint v div 2 ^ n)"
proof -
  have "signed_drop_bit n v = of_int (sint (signed_drop_bit n v))" by simp
  also have "\<dots> = of_int (sint v div 2 ^ n)" by (simp only: sint_signed_drop_bit_eq drop_bit_eq_div)
  finally show "signed_drop_bit n v = of_int (sint v div 2 ^ n)" .
qed (simp_all add: push_bit_eq_mult drop_bit_eq_div)

lemma run_binop:
  assumes "stack s = t # v # vs" and "binop_value f v t = Some w"
  shows "run_handler (binop_handler f) s = (Ret (), s\<lparr>stack := w # vs\<rparr>)"
  using assms
  by (cases f) (auto simp: arith_run shift_run div_run bool_to_dwarf_bool_def shift_values split: if_splits)

subsection \<open>Running the code of an expression\<close>

text \<open>The object after \<open>n\<close> bytes of code that leave the stack \<open>st\<close>.\<close>

definition after :: "nat \<Rightarrow> 'a::len word list \<Rightarrow> 'a dwarf_op \<Rightarrow> 'a dwarf_op \<Rightarrow> bool" where
  "after n st s s' \<longleftrightarrow> op_regs s' = op_regs s \<and> regular_memory s' = regular_memory s \<and>
     is_register s' = is_register s \<and> last_error s' = DWARF_ERROR_NONE \<and> stack s' = st \<and>
     op_memory s' = (op_memory s)\<lparr>cur_offset := cur_offset (op_memory s) + of_nat n\<rparr>"

lemma after_trans: "after n st s s1 \<Longrightarrow> after n' st' s1 s2 \<Longrightarrow> after (n + n') st' s s2"
  by (simp add: after_def add.assoc)

lemma decodes_append: "decodes e ver n s s1 \<Longrightarrow> decodes e ver n' s1 s2 \<Longrightarrow> decodes e ver (n + n') s s2"
  by (induction rule: decodes.induct) (auto intro: decodes_Suc)

lemma decodes_one:
  fixes s :: "'a::len dwarf_op"
  assumes "row_sig b = (Some h, 2, req, encs)" and "2 \<le> ver" and "unat req \<le> length (stack s)"
    and "mem_holds (dm_memory (op_memory s)) (cur_offset (op_memory s)) (b # rest)"
    and "read_operands TYPE('a) encs (length encs) ((op_memory s)\<lparr>cur_offset := cur_offset (op_memory s) + 1\<rparr>) =
      (Ret vs, (op_memory s)\<lparr>cur_offset := cur_offset (op_memory s) + 1 + of_nat (length rest)\<rparr>)"
    and "\<And>t. stack t = stack s \<Longrightarrow> operands t = map ucast vs \<Longrightarrow> cur_op t = b \<Longrightarrow> op_regs t = op_regs s \<Longrightarrow>
      regular_memory t = regular_memory s \<Longrightarrow> run_handler h t = (Ret (), t\<lparr>stack := st\<rparr>)"
    and "unat (cur_offset (op_memory s)) + length (b # rest) \<le> unat e"
  shows "\<exists>s'. decodes e ver 1 s s' \<and> after (length (b # rest)) st s s'"
proof -
  define t where "t = decoded b vs ((op_memory s)\<lparr>cur_offset := cur_offset (op_memory s) + 1 + of_nat (length rest)\<rparr>) s"
  have "Decode ver s = (Ret (), t\<lparr>stack := st\<rparr>)"
    using Decode_sig [OF assms(1-5)] assms(6) [of t] by (simp add: t_def)
  moreover have "cur_offset (op_memory s) < e" using assms(7) by (simp add: word_less_nat_alt)
  ultimately have "decodes e ver 1 s (t\<lparr>stack := st\<rparr>)"
    by (auto simp: decodes_Suc_iff)
  moreover have "after (length (b # rest)) st s (t\<lparr>stack := st\<rparr>)"
    by (simp add: after_def t_def add.assoc)
  ultimately show ?thesis by blast
qed

text \<open>An operation without operands behind code that has been run.\<close>

lemma decodes_then:
  fixes s :: "'a::len dwarf_op"
  assumes "decodes e ver n s s1" and "after k st1 s s1" and "length xs = k"
    and "mem_holds (dm_memory (op_memory s)) (cur_offset (op_memory s)) (xs @ b # rest)"
    and "unat (cur_offset (op_memory s)) + length (xs @ b # rest) \<le> unat e"
    and "\<lbrakk>mem_holds (dm_memory (op_memory s1)) (cur_offset (op_memory s1)) (b # rest);
          unat (cur_offset (op_memory s1)) + length (b # rest) \<le> unat e\<rbrakk> \<Longrightarrow>
      \<exists>s'. decodes e ver m s1 s' \<and> after (length (b # rest)) st s1 s'"
  shows "\<exists>s'. decodes e ver (n + m) s s' \<and> after (length (xs @ b # rest)) st s s'"
proof -
  have "mem_holds (dm_memory (op_memory s1)) (cur_offset (op_memory s1)) (b # rest)"
    using mem_holds_append(2) [OF assms(4)] assms(2,3) by (simp add: after_def)
  moreover have "unat (cur_offset (op_memory s)) + length xs < 2 ^ 64"
    using assms(4) by (simp add: mem_holds_def)
  then have "unat (cur_offset (op_memory s1)) = unat (cur_offset (op_memory s)) + length xs"
    using assms(2,3) unat_add_no_wrap [of "cur_offset (op_memory s)" k] by (simp add: after_def)
  ultimately obtain s' where "decodes e ver m s1 s'" "after (length (b # rest)) st s1 s'"
    using assms(5,6) by auto
  then show ?thesis
    using decodes_append [OF assms(1)] after_trans [OF assms(2)] assms(3) by (metis length_append)
qed

lemma decodes_plain:
  fixes s :: "'a::len dwarf_op"
  assumes "row_sig b = (Some h, 2, req, [])" and "2 \<le> ver" and "unat req \<le> length (stack s)"
    and "mem_holds (dm_memory (op_memory s)) (cur_offset (op_memory s)) [b]"
    and "\<And>t. stack t = stack s \<Longrightarrow> cur_op t = b \<Longrightarrow> op_regs t = op_regs s \<Longrightarrow>
      regular_memory t = regular_memory s \<Longrightarrow> run_handler h t = (Ret (), t\<lparr>stack := st\<rparr>)"
    and "unat (cur_offset (op_memory s)) + length [b] \<le> unat e"
  shows "\<exists>s'. decodes e ver 1 s s' \<and> after (length [b]) st s s'"
  by (rule decodes_one [OF assms(1-4)]) (use assms(5,6) in \<open>simp_all add: rret_def\<close>)

text \<open>\<open>code\<close> has \<open>n\<close> operations and pushes \<open>v\<close>.\<close>

definition computes :: "'a::len regs \<Rightarrow> memory \<Rightarrow> u64 \<Rightarrow> u8 \<Rightarrow> u8 list \<Rightarrow> nat \<Rightarrow> 'a word \<Rightarrow> bool" where
  "computes r m e ver code n v \<longleftrightarrow>
     (\<forall>s. op_regs s = Some r \<longrightarrow> regular_memory s = Some m \<longrightarrow>
        mem_holds (dm_memory (op_memory s)) (cur_offset (op_memory s)) code \<longrightarrow>
        unat (cur_offset (op_memory s)) + length code \<le> unat e \<longrightarrow>
        (\<exists>s'. decodes e ver n s s' \<and> after (length code) (v # stack s) s s'))"

lemma computes_Lit: "n < 32 \<Longrightarrow> 2 \<le> ver \<Longrightarrow> computes r m e ver (dcode (Lit n)) 1 (of_nat n)"
  unfolding computes_def dcode.simps
proof (intro allI impI)
  fix s :: "'a dwarf_op"
  assume n: "n < 32" "2 \<le> ver"
    and h: "mem_holds (dm_memory (op_memory s)) (cur_offset (op_memory s)) [of_nat (48 + n)]"
      "unat (cur_offset (op_memory s)) + length [of_nat (48 + n) :: u8] \<le> unat e"
  have "uint (of_nat (48 + n) :: u8) = 48 + int n" using n(1) by (simp add: uint_nat unat_of_nat del: of_nat_add)
  then show "\<exists>s'. decodes e ver 1 s s' \<and> after (length [of_nat (48 + n) :: u8]) (of_nat n # stack s) s s'"
    by (intro decodes_plain [OF row_sig_lit [OF n(1)] n(2) _ h(1) _ h(2)])
      (simp_all add: op_lit_def push_front_def)
qed

lemma computes_Constu: "2 \<le> ver \<Longrightarrow> computes r m e ver (dcode (Constu v)) 1 (ucast v)"
  unfolding computes_def dcode.simps
proof (intro allI impI)
  fix s :: "'a dwarf_op"
  assume ver: "2 \<le> ver"
    and h: "mem_holds (dm_memory (op_memory s)) (cur_offset (op_memory s)) (0x10 # uleb_encode (unat v))"
      "unat (cur_offset (op_memory s)) + length (0x10 # uleb_encode (unat v)) \<le> unat e"
  show "\<exists>s'. decodes e ver 1 s s' \<and> after (length (0x10 # uleb_encode (unat v))) (ucast v # stack s) s s'"
    by (rule decodes_one [OF row_sig_misc(2) ver _ h(1) read_uleb_operand [OF h(1)] _ h(2)])
      (simp_all add: op_push_def)
qed

lemma computes_Consts:
  assumes "2 \<le> ver" and "- (2 ^ 62) \<le> v" and "v < 2 ^ 63" and "LENGTH('a) \<le> 64"
  shows "computes (r :: 'a::len regs) m e ver (dcode (Consts v)) 1 (of_int v)"
  unfolding computes_def dcode.simps
proof (intro allI impI)
  fix s :: "'a dwarf_op"
  assume h: "mem_holds (dm_memory (op_memory s)) (cur_offset (op_memory s)) (0x11 # sleb_encode v)"
      "unat (cur_offset (op_memory s)) + length (0x11 # sleb_encode v) \<le> unat e"
  show "\<exists>s'. decodes e ver 1 s s' \<and> after (length (0x11 # sleb_encode v)) (of_int v # stack s) s s'"
    by (rule decodes_one [OF row_sig_misc(3) assms(1) _ h(1) read_sleb_operand [OF h(1) assms(2,3)] _ h(2)])
      (simp_all add: op_push_def ucast_of_int_u64 [OF assms(4)])
qed

lemma computes_Breg:
  assumes "2 \<le> ver" and "- (2 ^ 62) \<le> v" and "v < 2 ^ 63" and "LENGTH('a) \<le> 64" and "regs_wf r"
    and "n < 32" and "n < length (regs_data r)"
  shows "computes (r :: 'a::len regs) m e ver (dcode (Breg n v)) 1 (regs_data r ! n + of_int v)"
  unfolding computes_def dcode.simps
proof (intro allI impI)
  fix s :: "'a dwarf_op"
  assume r: "op_regs s = Some r"
    and h: "mem_holds (dm_memory (op_memory s)) (cur_offset (op_memory s)) (of_nat (0x70 + n) # sleb_encode v)"
      "unat (cur_offset (op_memory s)) + length (of_nat (0x70 + n) # sleb_encode v) \<le> unat e"
  have u1: "uint (of_nat (0x70 + n) :: u8) = 0x70 + int n" using assms(6) by (simp add: uint_nat unat_of_nat del: of_nat_add)
  have u2: "unat (of_nat n :: u16) = n" using assms(6) by (simp add: unat_of_nat)
  show "\<exists>s'. decodes e ver 1 s s' \<and>
      after (length (of_nat (0x70 + n) # sleb_encode v)) ((regs_data r ! n + of_int v) # stack s) s s'"
    by (rule decodes_one [OF row_sig_breg [OF assms(6)] assms(1) _ h(1)
          read_sleb_operand [OF h(1) assms(2,3)] _ h(2)])
      (use u1 u2 r assms(5,7) in \<open>simp_all add: op_breg_def regs_wf_def push_reg_plus_run [OF _ assms(5)]
        ucast_of_int_u64 [OF assms(4)] del: of_nat_add\<close>)
qed

lemma computesE:
  fixes r :: "'a::len regs" and s :: "'a dwarf_op"
  assumes "computes r m e ver code n v" and "op_regs s = Some r" and "regular_memory s = Some m"
    and "mem_holds (dm_memory (op_memory s)) (cur_offset (op_memory s)) (code @ rest)"
    and "unat (cur_offset (op_memory s)) + length (code @ rest) \<le> unat e"
  obtains s1 where "decodes e ver n s s1" and "after (length code) (v # stack s) s s1"
  using assms mem_holds_append(1) [OF assms(4)] unfolding computes_def by fastforce

lemma computes_then:
  fixes r :: "'a::len regs"
  assumes "computes r m e ver code n v" and "2 \<le> ver" and "row_sig b = (Some h, 2, 1, [])"
    and "\<And>t vs. stack t = v # vs \<Longrightarrow> regular_memory t = Some m \<Longrightarrow> run_handler h t = (Ret (), t\<lparr>stack := w # vs\<rparr>)"
  shows "computes r m e ver (code @ [b]) (Suc n) w"
  unfolding computes_def
proof (intro allI impI)
  fix s :: "'a dwarf_op"
  assume s: "op_regs s = Some r" "regular_memory s = Some m"
    and h: "mem_holds (dm_memory (op_memory s)) (cur_offset (op_memory s)) (code @ [b])"
      "unat (cur_offset (op_memory s)) + length (code @ [b]) \<le> unat e"
  obtain s1 where s1: "decodes e ver n s s1" "after (length code) (v # stack s) s s1"
    by (rule computesE [OF assms(1) s h])
  have "\<exists>s'. decodes e ver (n + 1) s s' \<and> after (length (code @ [b])) (w # stack s) s s'"
  proof (rule decodes_then [OF s1 refl h], rule decodes_plain [OF assms(3,2)])
    fix t :: "'a dwarf_op"
    assume "stack t = stack s1" "regular_memory t = regular_memory s1"
    then show "run_handler h t = (Ret (), t\<lparr>stack := w # stack s\<rparr>)"
      using assms(4) [of t "stack s"] s1(2) s by (simp add: after_def)
  qed (use s1(2) in \<open>auto simp: after_def\<close>)
  then show "\<exists>s'. decodes e ver (Suc n) s s' \<and> after (length (code @ [b])) (w # stack s) s s'" by simp
qed

lemma computes_PlusU:
  fixes r :: "'a::len regs" and c :: u64
  assumes "computes r m e ver code n v" and "2 \<le> ver"
  shows "computes r m e ver (code @ 0x23 # uleb_encode (unat c)) (Suc n) (v + ucast c)"
  unfolding computes_def
proof (intro allI impI)
  fix s :: "'a dwarf_op"
  assume s: "op_regs s = Some r" "regular_memory s = Some m"
    and h: "mem_holds (dm_memory (op_memory s)) (cur_offset (op_memory s)) (code @ 0x23 # uleb_encode (unat c))"
      "unat (cur_offset (op_memory s)) + length (code @ 0x23 # uleb_encode (unat c)) \<le> unat e"
  obtain s1 where s1: "decodes e ver n s s1" "after (length code) (v # stack s) s s1"
    by (rule computesE [OF assms(1) s h])
  have st: "stack s1 = v # stack s" using s1(2) by (simp add: after_def)
  have "\<exists>s'. decodes e ver (n + 1) s s' \<and>
      after (length (code @ 0x23 # uleb_encode (unat c))) ((v + ucast c) # stack s) s s'"
  proof (rule decodes_then [OF s1 refl h])
    assume a: "mem_holds (dm_memory (op_memory s1)) (cur_offset (op_memory s1)) (0x23 # uleb_encode (unat c))"
      "unat (cur_offset (op_memory s1)) + length (0x23 # uleb_encode (unat c)) \<le> unat e"
    show "\<exists>s'. decodes e ver 1 s1 s' \<and>
        after (length (0x23 # uleb_encode (unat c))) ((v + ucast c) # stack s) s1 s'"
      by (rule decodes_one [OF row_sig_misc(4) assms(2) _ a(1) read_uleb_operand [OF a(1)] _ a(2)])
        (simp_all add: st operand_run)
  qed
  then show "\<exists>s'. decodes e ver (Suc n) s s' \<and>
      after (length (code @ 0x23 # uleb_encode (unat c))) ((v + ucast c) # stack s) s s'" by simp
qed

lemma computes_Binary:
  fixes r :: "'a::len regs"
  assumes "computes r m e ver c1 n1 v" and "computes r m e ver c2 n2 t" and "2 \<le> ver"
    and "binop_value f v t = Some w"
  shows "computes r m e ver (c1 @ c2 @ [binop_code f]) (Suc (n1 + n2)) w"
  unfolding computes_def
proof (intro allI impI)
  fix s :: "'a dwarf_op"
  let ?rest = "c2 @ [binop_code f]"
  assume s: "op_regs s = Some r" "regular_memory s = Some m"
    and h: "mem_holds (dm_memory (op_memory s)) (cur_offset (op_memory s)) (c1 @ ?rest)"
      "unat (cur_offset (op_memory s)) + length (c1 @ ?rest) \<le> unat e"
  obtain s1 where s1: "decodes e ver n1 s s1" "after (length c1) (v # stack s) s s1"
    by (rule computesE [OF assms(1) s h])
  obtain b bs where b: "?rest = b # bs" by (cases ?rest) auto
  have "\<exists>s'. decodes e ver (n1 + (n2 + 1)) s s' \<and> after (length (c1 @ ?rest)) (w # stack s) s s'"
    unfolding b
  proof (rule decodes_then [OF s1 refl h [unfolded b]], unfold b [symmetric])
    assume a: "mem_holds (dm_memory (op_memory s1)) (cur_offset (op_memory s1)) ?rest"
      "unat (cur_offset (op_memory s1)) + length ?rest \<le> unat e"
    have s': "op_regs s1 = Some r" "regular_memory s1 = Some m" "stack s1 = v # stack s"
      using s s1(2) by (simp_all add: after_def)
    obtain s2 where s2: "decodes e ver n2 s1 s2" "after (length c2) (t # stack s1) s1 s2"
      by (rule computesE [OF assms(2) s'(1,2) a])
    show "\<exists>s'. decodes e ver (n2 + 1) s1 s' \<and> after (length ?rest) (w # stack s) s1 s'"
    proof (rule decodes_then [OF s2 refl a], rule decodes_plain [OF row_sig_binop assms(3)])
      fix u :: "'a dwarf_op"
      assume "stack u = stack s2"
      then show "run_handler (binop_handler f) u = (Ret (), u\<lparr>stack := w # stack s\<rparr>)"
        using run_binop [OF _ assms(4)] s2(2) s' by (simp add: after_def)
    qed (use s2(2) s' in \<open>auto simp: after_def\<close>)
  qed
  then show "\<exists>s'. decodes e ver (Suc (n1 + n2)) s s' \<and> after (length (c1 @ ?rest)) (w # stack s) s s'"
    by (simp add: add.assoc)
qed

lemma computes_dcode:
  assumes "regs_wf r" and "LENGTH('a) \<le> 64" and "2 \<le> ver"
  shows "dvalue (r :: 'a::len regs) m x = Some v \<Longrightarrow> computes r m e ver (dcode x) (op_count x) v"
proof (induction x arbitrary: v)
  case (Deref x)
  then obtain a bs where a: "dvalue r m x = Some a" "mem_Read m (ucast a) (sizeof TYPE('a)) = Ret bs" "v = le_word bs"
    by (auto split: option.splits res.splits)
  show ?case
    unfolding dcode.simps op_count.simps
    by (rule computes_then [OF Deref.IH [OF a(1)] assms(3) row_sig_misc(1)]) (simp add: deref_run a(2,3))
next
  case (Unary f x)
  then obtain w where w: "dvalue r m x = Some w" "unop_value f w = Some v" by (auto split: option.splits)
  show ?case
    unfolding dcode.simps op_count.simps
    by (rule computes_then [OF Unary.IH [OF w(1)] assms(3) row_sig_unop]) (rule run_unop [OF _ w(2)])
next
  case (Binary f x1 x2)
  then obtain w t where w: "dvalue r m x1 = Some w" "dvalue r m x2 = Some t" "binop_value f w t = Some v"
    by (auto split: option.splits)
  show ?case
    unfolding dcode.simps op_count.simps
    by (rule computes_Binary [OF Binary.IH(1) [OF w(1)] Binary.IH(2) [OF w(2)] assms(3) w(3)])
next
  case (PlusU x c)
  then show ?case using computes_PlusU [OF _ assms(3)] by auto
qed (use assms computes_Lit computes_Constu computes_Consts computes_Breg in \<open>auto split: if_splits\<close>)

section \<open>Properties\<close>

text \<open>C4. Correctness of the evaluator on expressions: if the memory holds the DWARF code of an expression
  of at most 1000 operations that has a value, \<open>Eval\<close> succeeds and leaves exactly that value on the
  stack, as a memory location and not as a register.\<close>

theorem Eval_expression:
  fixes s :: "'a::len dwarf_op"
  assumes "op_regs s = Some r" and "regs_wf r" and "regular_memory s = Some m"
    and "mem_holds (dm_memory (op_memory s)) start (dcode x)"
    and "dvalue r m x = Some v" and "op_count x \<le> 1000" and "2 \<le> ver" and "LENGTH('a) \<le> 64"
  shows "\<exists>s'. Eval start (start + of_nat (length (dcode x))) ver s = (Ret (), s') \<and>
    stack s' = [v] \<and> \<not> is_register s' \<and> last_error s' = DWARF_ERROR_NONE"
proof -
  let ?e = "start + of_nat (length (dcode x))"
  let ?s = "s\<lparr>is_register := False, stack := [], op_memory := set_cur_offset start (op_memory s)\<rparr>"
  have e: "unat ?e = unat start + length (dcode x)"
    using assms(4) by (intro unat_add_no_wrap) (simp add: mem_holds_def)
  have "computes r m ?e ver (dcode x) (op_count x) v" by (rule computes_dcode [OF assms(2,8,7,5)])
  then have "\<exists>s'. decodes ?e ver (op_count x) ?s s' \<and> after (length (dcode x)) [v] ?s s'"
    unfolding computes_def by (elim allE [of _ ?s]) (simp add: set_cur_offset_def assms(1,3,4) e)
  then obtain s' where s': "decodes ?e ver (op_count x) ?s s'" "after (length (dcode x)) [v] ?s s'" by blast
  have "\<not> cur_offset (op_memory s') < ?e" using s'(2) by (simp add: after_def set_cur_offset_def)
  then have "Eval start ?e ver s = (Ret (), s')"
    unfolding Eval_def using Eval_loop_result [of 0 1000 ?e ver ?s "Ret ()" s'] s'(1) assms(6)
    by (auto simp: loop_result_def)
  with s'(2) show ?thesis by (simp add: after_def)
qed

definition sample_expr :: dexpr where
  "sample_expr = Binary Minus (Deref (Breg 2 4)) (PlusU (Lit 3) 300)"

definition sample_regs :: "32 regs" where
  "sample_regs = (new_RegsImpl 16 13 \<lparr>loc_type = LOCATION_REGISTER, loc_value = 14\<rparr> 0 0)\<lparr>
     regs_data := (replicate 16 0)[2 := 1]\<rparr>"

theorem Eval_expression_witness:
  "dcode sample_expr = [0x72, 0x04, 0x06, 0x33, 0x23, 0xac, 0x02, 0x1c] \<and>
   (\<exists>s'. Eval 0 8 4 (set_regs sample_regs (new_DwarfOp (new_DwarfMemory
       (MemoryBuffer [0x72, 0x04, 0x06, 0x33, 0x23, 0xac, 0x02, 0x1c]))
       (Some (MemoryBuffer [0, 0, 0, 0, 0, 0x30, 0x02, 0, 0])))) = (Ret (), s') \<and>
     stack s' = [257])"
proof -
  let ?code = "[0x72, 0x04, 0x06, 0x33, 0x23, 0xac, 0x02, 0x1c] :: u8 list"
  have c: "dcode sample_expr = ?code"
    by (simp add: sample_expr_def sleb_encode.simps uleb_encode.simps)
  have v: "dvalue sample_regs (MemoryBuffer [0, 0, 0, 0, 0, 0x30, 0x02, 0, 0]) sample_expr = Some 257"
    by (simp add: sample_expr_def sample_regs_def MemoryBuffer_Read_def add_overflow_def)
  have n: "op_count sample_expr \<le> 1000" by (simp add: sample_expr_def)
  have h: "mem_holds (MemoryBuffer ?code) 0 ?code"
    using mem_holds_MemoryBuffer [of "[]" ?code "[]"] by simp
  have w: "regs_wf sample_regs" by (simp add: sample_regs_def regs_wf_def new_RegsImpl_def)
  show ?thesis
    using Eval_expression [of "set_regs sample_regs (new_DwarfOp (new_DwarfMemory (MemoryBuffer ?code))
        (Some (MemoryBuffer [0, 0, 0, 0, 0, 0x30, 0x02, 0, 0])))" sample_regs, OF _ w _ _ v n, of 0 4] h
    by (auto simp: c set_regs_def new_DwarfOp_def new_DwarfMemory_def)
qed

end
