(* ===== verification/DwarfStructs.thy ===== *)
theory DwarfStructs
  imports DwarfMemory
begin

text \<open>
  The structures shared by the call frame interpreter and the sections: \<open>DwarfStructs.h\<close> and
  \<open>DwarfLocation.h\<close>. The pointer \<open>cie\<close> of an FDE is an option; the \<open>unordered_map\<close> of
  locations is a map.
\<close>

record dwarf_cie =
  cie_version :: u8
  fde_address_encoding :: u8
  lsda_encoding :: u8
  segment_size :: u8
  augmentation_string :: "u8 list"
  personality_handler :: u64
  cie_cfa_instructions_offset :: u64
  cie_cfa_instructions_end :: u64
  code_alignment_factor :: u64
  data_alignment_factor :: u64
  return_address_register :: u64

text \<open>\<open>data_alignment_factor\<close> is an \<open>int64_t\<close>, kept as the word that represents it.\<close>

definition new_DwarfCie :: dwarf_cie where
  "new_DwarfCie = \<lparr>cie_version = 0, fde_address_encoding = 0, lsda_encoding = 0, segment_size = 0,
     augmentation_string = [], personality_handler = 0, cie_cfa_instructions_offset = 0,
     cie_cfa_instructions_end = 0, code_alignment_factor = 0, data_alignment_factor = 0,
     return_address_register = 0\<rparr>"

record dwarf_fde =
  cie_offset :: u64
  fde_cfa_instructions_offset :: u64
  fde_cfa_instructions_end :: u64
  pc_start :: u64
  pc_end :: u64
  lsda_address :: u64
  fde_cie :: "dwarf_cie option"

definition new_DwarfFde :: dwarf_fde where
  "new_DwarfFde = \<lparr>cie_offset = 0, fde_cfa_instructions_offset = 0, fde_cfa_instructions_end = 0,
     pc_start = 0, pc_end = 0, lsda_address = 0, fde_cie = None\<rparr>"

definition CFA_REG :: u16 where
  "CFA_REG = -1"

datatype DwarfLocationEnum =
    DWARF_LOCATION_INVALID
  | DWARF_LOCATION_UNDEFINED
  | DWARF_LOCATION_OFFSET
  | DWARF_LOCATION_VAL_OFFSET
  | DWARF_LOCATION_REGISTER
  | DWARF_LOCATION_EXPRESSION
  | DWARF_LOCATION_VAL_EXPRESSION

text \<open>The array \<open>values[2]\<close> as two fields; an element without initialiser is 0.\<close>

record dwarf_location =
  dl_type :: DwarfLocationEnum
  value0 :: u64
  value1 :: u64

type_synonym dwarf_loc_regs = "u16 \<rightharpoonup> dwarf_location"

end
