(* ===== verification/DwarfCfa.thy ===== *)
theory DwarfCfa
  imports DwarfStructs DwarfOp
begin

text \<open>
  The interpreter of call frame instructions: \<open>DwarfCfa.cpp\<close> and \<open>DwarfCfa.h\<close>. An object of class
  \<open>DwarfCfa<AddressType>\<close> is a \<open>dwarf_cfa\<close> record; the map that \<open>GetLocationInfo\<close> fills through a
  pointer is its field \<open>loc_regs\<close>. The loop of \<open>GetLocationInfo\<close> need not end (a block length can
  move the cursor backwards), so it is a partial function whose value \<open>None\<close> stands for not
  returning. Warnings written with \<open>log\<close> are left out; the functions that
  print instructions have a theory of their own, \<open>Dwarf_Log\<close>.
\<close>

section \<open>Data\<close>

datatype DisplayType =
    DWARF_DISPLAY_NONE
  | DWARF_DISPLAY_REGISTER
  | DWARF_DISPLAY_NUMBER
  | DWARF_DISPLAY_SIGNED_NUMBER
  | DWARF_DISPLAY_EVAL_BLOCK
  | DWARF_DISPLAY_ADDRESS
  | DWARF_DISPLAY_SET_LOC
  | DWARF_DISPLAY_ADVANCE_LOC

record cfa_info =
  cfa_name :: "string option"
  cfa_supported_version :: u8
  cfa_num_operands :: u8
  cfa_operand_encodings :: "u8 list"
  display_operands :: "DisplayType list"

definition cfa_row :: "string \<Rightarrow> u8 \<Rightarrow> u8 \<Rightarrow> u8 list \<Rightarrow> DisplayType list \<Rightarrow> cfa_info" where
  "cfa_row name ver nops ops disp =
     \<lparr>cfa_name = Some name, cfa_supported_version = ver, cfa_num_operands = nops,
      cfa_operand_encodings = take 2 (ops @ [0, 0]),
      display_operands = take 2 (disp @ [DWARF_DISPLAY_NONE, DWARF_DISPLAY_NONE])\<rparr>"

definition illegal_cfa :: cfa_info where
  "illegal_cfa = \<lparr>cfa_name = None, cfa_supported_version = 0, cfa_num_operands = 0,
      cfa_operand_encodings = [0, 0], display_operands = [DWARF_DISPLAY_NONE, DWARF_DISPLAY_NONE]\<rparr>"

definition kTable_00_11 :: "cfa_info list" where
  "kTable_00_11 =
    [cfa_row ''DW_CFA_nop'' 2 0 [] [],
     cfa_row ''DW_CFA_set_loc'' 2 1 [DW_EH_PE_absptr] [DWARF_DISPLAY_SET_LOC],
     cfa_row ''DW_CFA_advance_loc1'' 2 1 [DW_EH_PE_udata1] [DWARF_DISPLAY_ADVANCE_LOC],
     cfa_row ''DW_CFA_advance_loc2'' 2 1 [DW_EH_PE_udata2] [DWARF_DISPLAY_ADVANCE_LOC],
     cfa_row ''DW_CFA_advance_loc4'' 2 1 [DW_EH_PE_udata4] [DWARF_DISPLAY_ADVANCE_LOC],
     cfa_row ''DW_CFA_offset_extended'' 2 2 [DW_EH_PE_uleb128, DW_EH_PE_uleb128] [DWARF_DISPLAY_REGISTER, DWARF_DISPLAY_NUMBER],
     cfa_row ''DW_CFA_restore_extended'' 2 1 [DW_EH_PE_uleb128] [DWARF_DISPLAY_REGISTER],
     cfa_row ''DW_CFA_undefined'' 2 1 [DW_EH_PE_uleb128] [DWARF_DISPLAY_REGISTER],
     cfa_row ''DW_CFA_same_value'' 2 1 [DW_EH_PE_uleb128] [DWARF_DISPLAY_REGISTER],
     cfa_row ''DW_CFA_register'' 2 2 [DW_EH_PE_uleb128, DW_EH_PE_uleb128] [DWARF_DISPLAY_REGISTER, DWARF_DISPLAY_REGISTER],
     cfa_row ''DW_CFA_remember_state'' 2 0 [] [],
     cfa_row ''DW_CFA_restore_state'' 2 0 [] [],
     cfa_row ''DW_CFA_def_cfa'' 2 2 [DW_EH_PE_uleb128, DW_EH_PE_uleb128] [DWARF_DISPLAY_REGISTER, DWARF_DISPLAY_NUMBER],
     cfa_row ''DW_CFA_def_cfa_register'' 2 1 [DW_EH_PE_uleb128] [DWARF_DISPLAY_REGISTER],
     cfa_row ''DW_CFA_def_cfa_offset'' 2 1 [DW_EH_PE_uleb128] [DWARF_DISPLAY_NUMBER],
     cfa_row ''DW_CFA_def_cfa_expression'' 2 1 [DW_EH_PE_block] [DWARF_DISPLAY_EVAL_BLOCK],
     cfa_row ''DW_CFA_expression'' 2 2 [DW_EH_PE_uleb128, DW_EH_PE_block] [DWARF_DISPLAY_REGISTER, DWARF_DISPLAY_EVAL_BLOCK],
     cfa_row ''DW_CFA_offset_extended_sf'' 2 2 [DW_EH_PE_uleb128, DW_EH_PE_sleb128] [DWARF_DISPLAY_REGISTER, DWARF_DISPLAY_SIGNED_NUMBER]]"

definition kTable_12_3f :: "cfa_info list" where
  "kTable_12_3f =
    [cfa_row ''DW_CFA_def_cfa_sf'' 2 2 [DW_EH_PE_uleb128, DW_EH_PE_sleb128] [DWARF_DISPLAY_REGISTER, DWARF_DISPLAY_SIGNED_NUMBER],
     cfa_row ''DW_CFA_def_cfa_offset_sf'' 2 1 [DW_EH_PE_sleb128] [DWARF_DISPLAY_SIGNED_NUMBER],
     cfa_row ''DW_CFA_val_offset'' 2 2 [DW_EH_PE_uleb128, DW_EH_PE_uleb128] [DWARF_DISPLAY_REGISTER, DWARF_DISPLAY_NUMBER],
     cfa_row ''DW_CFA_val_offset_sf'' 2 2 [DW_EH_PE_uleb128, DW_EH_PE_sleb128] [DWARF_DISPLAY_REGISTER, DWARF_DISPLAY_SIGNED_NUMBER],
     cfa_row ''DW_CFA_val_expression'' 2 2 [DW_EH_PE_uleb128, DW_EH_PE_block] [DWARF_DISPLAY_REGISTER, DWARF_DISPLAY_EVAL_BLOCK],
     illegal_cfa,
     illegal_cfa,
     illegal_cfa,
     illegal_cfa,
     illegal_cfa,
     illegal_cfa,
     illegal_cfa,
     illegal_cfa,
     illegal_cfa,
     illegal_cfa,
     illegal_cfa,
     illegal_cfa,
     illegal_cfa,
     illegal_cfa,
     illegal_cfa,
     illegal_cfa,
     illegal_cfa,
     illegal_cfa,
     illegal_cfa,
     illegal_cfa,
     illegal_cfa,
     illegal_cfa,
     illegal_cfa,
     cfa_row ''DW_CFA_GNU_args_size'' 2 1 [DW_EH_PE_uleb128] [DWARF_DISPLAY_NUMBER],
     cfa_row ''DW_CFA_GNU_negative_offset_extended'' 2 2 [DW_EH_PE_uleb128, DW_EH_PE_uleb128] [DWARF_DISPLAY_REGISTER, DWARF_DISPLAY_NUMBER],
     illegal_cfa,
     illegal_cfa,
     illegal_cfa,
     illegal_cfa,
     illegal_cfa,
     illegal_cfa,
     illegal_cfa,
     illegal_cfa,
     illegal_cfa,
     illegal_cfa,
     illegal_cfa,
     illegal_cfa,
     illegal_cfa,
     illegal_cfa,
     illegal_cfa]"

text \<open>The initialiser has 63 elements; the last element of the array is zero.\<close>

definition kTable :: "cfa_info list" where
  "kTable = kTable_00_11 @ kTable_12_3f @ [illegal_cfa]"

record (overloaded) ('a::len) dwarf_cfa =
  cfa_last_error :: dwarf_error
  cfa_memory :: dwarf_memory
  fde :: dwarf_fde
  cur_pc :: "'a word"
  cie_loc_regs :: "dwarf_loc_regs option"
  cfa_operands :: "'a word list"
  loc_reg_state :: "dwarf_loc_regs list"
  loc_regs :: dwarf_loc_regs

text \<open>The constructor leaves \<open>cur_pc_\<close> and \<open>last_error_\<close> uninitialised; \<open>GetLocationInfo\<close> sets both.\<close>

definition new_DwarfCfa :: "dwarf_memory \<Rightarrow> dwarf_fde \<Rightarrow> dwarf_loc_regs \<Rightarrow> 'a::len dwarf_cfa" where
  "new_DwarfCfa dm f locs = \<lparr>cfa_last_error = DWARF_ERROR_NONE, cfa_memory = dm, fde = f, cur_pc = 0,
     cie_loc_regs = None, cfa_operands = [], loc_reg_state = [], loc_regs = locs\<rparr>"

definition set_cie_loc_regs :: "dwarf_loc_regs \<Rightarrow> 'a::len dwarf_cfa \<Rightarrow> 'a dwarf_cfa" where
  "set_cie_loc_regs locs s = s\<lparr>cie_loc_regs := Some locs\<rparr>"

section \<open>Handlers\<close>

definition cfa_fail :: "dwarf_error \<Rightarrow> ('a::len dwarf_cfa, 'b) op" where
  "cfa_fail e s = (Fail, s\<lparr>cfa_last_error := e\<rparr>)"

definition cfa_operand :: "nat \<Rightarrow> ('a::len dwarf_cfa, 'a word) op" where
  "cfa_operand i s = (if i < length (cfa_operands s) then (Ret (cfa_operands s ! i), s) else (Undef, s))"

definition fde_to_cie :: "('a::len dwarf_cfa, dwarf_cie) op" where
  "fde_to_cie s = (case fde_cie (fde s) of None \<Rightarrow> (Undef, s) | Some c \<Rightarrow> (Ret c, s))"

text \<open>\<open>(*loc_regs)[reg] = loc\<close> and \<open>loc_regs->erase(reg)\<close>; the key is converted to \<open>uint16_t\<close>.\<close>

definition set_loc :: "'b::len word \<Rightarrow> dwarf_location \<Rightarrow> ('a::len dwarf_cfa, unit) op" where
  "set_loc reg l s = (Ret (), s\<lparr>loc_regs := (loc_regs s)(ucast reg \<mapsto> l)\<rparr>)"

definition erase_loc :: "'b::len word \<Rightarrow> ('a::len dwarf_cfa, unit) op" where
  "erase_loc reg s = (Ret (), s\<lparr>loc_regs := (loc_regs s)(ucast reg := None)\<rparr>)"

definition location :: "DwarfLocationEnum \<Rightarrow> u64 \<Rightarrow> u64 \<Rightarrow> dwarf_location" where
  "location t v w = \<lparr>dl_type = t, value0 = v, value1 = w\<rparr>"

text \<open>
  \<open>static_cast<SignedType>(v) * fde_->cie->data_alignment_factor\<close>, assigned to a \<open>SignedType\<close> and cast
  to \<open>uint64_t\<close>: the product is computed in \<open>int64_t\<close>, where overflow is undefined.
\<close>

definition factored :: "'a::len word \<Rightarrow> ('a dwarf_cfa, u64) op" where
  "factored v = rbind fde_to_cie (\<lambda>c.
     let p = sint v * sint (data_alignment_factor c) in
     if - (2 ^ 63) \<le> p \<and> p < 2 ^ 63 then rret (scast (of_int p :: 'a word)) else rundef)"

definition cfa_nop :: "('a::len dwarf_cfa, unit) op" where
  "cfa_nop = rret ()"

definition cfa_set_loc :: "('a::len dwarf_cfa, unit) op" where
  "cfa_set_loc = rbind (cfa_operand 0) (\<lambda>new_pc. modify (\<lambda>s. s\<lparr>cur_pc := new_pc\<rparr>))"

text \<open>The sum is computed with 64 bits and converted to \<open>AddressType\<close>.\<close>

definition advance_pc :: "u64 \<Rightarrow> ('a::len dwarf_cfa, unit) op" where
  "advance_pc n = rbind fde_to_cie (\<lambda>c. modify (\<lambda>s.
     s\<lparr>cur_pc := ucast (ucast (cur_pc s) + n * code_alignment_factor c)\<rparr>))"

definition cfa_advance_loc :: "('a::len dwarf_cfa, unit) op" where
  "cfa_advance_loc = rbind (cfa_operand 0) (\<lambda>n. advance_pc (ucast n))"

definition cfa_offset :: "('a::len dwarf_cfa, unit) op" where
  "cfa_offset = rbind (cfa_operand 0) (\<lambda>reg. rbind (cfa_operand 1) (\<lambda>v.
     set_loc reg (location DWARF_LOCATION_OFFSET (ucast v) 0)))"

text \<open>The part that \<open>cfa_restore\<close> shares with \<open>DW_CFA_restore\<close>.\<close>

definition restore_reg :: "'b::len word \<Rightarrow> ('a::len dwarf_cfa, unit) op" where
  "restore_reg reg s =
     (case cie_loc_regs s of
        None \<Rightarrow> cfa_fail DWARF_ERROR_ILLEGAL_STATE s
      | Some locs \<Rightarrow>
          (case locs (ucast reg) of None \<Rightarrow> erase_loc reg s | Some l \<Rightarrow> set_loc reg l s))"

definition cfa_restore :: "('a::len dwarf_cfa, unit) op" where
  "cfa_restore = rbind (cfa_operand 0) restore_reg"

definition cfa_undefined :: "('a::len dwarf_cfa, unit) op" where
  "cfa_undefined = rbind (cfa_operand 0) (\<lambda>reg. set_loc reg (location DWARF_LOCATION_UNDEFINED 0 0))"

definition cfa_same_value :: "('a::len dwarf_cfa, unit) op" where
  "cfa_same_value = rbind (cfa_operand 0) erase_loc"

definition cfa_register :: "('a::len dwarf_cfa, unit) op" where
  "cfa_register = rbind (cfa_operand 0) (\<lambda>reg. rbind (cfa_operand 1) (\<lambda>reg_dst.
     set_loc reg (location DWARF_LOCATION_REGISTER (ucast reg_dst) 0)))"

definition cfa_remember_state :: "('a::len dwarf_cfa, unit) op" where
  "cfa_remember_state s = (Ret (), s\<lparr>loc_reg_state := loc_regs s # loc_reg_state s\<rparr>)"

definition cfa_restore_state :: "('a::len dwarf_cfa, unit) op" where
  "cfa_restore_state s =
     (case loc_reg_state s of
        [] \<Rightarrow> (Ret (), s)
      | l # ls \<Rightarrow> (Ret (), s\<lparr>loc_regs := l, loc_reg_state := ls\<rparr>))"

definition cfa_def_cfa :: "('a::len dwarf_cfa, unit) op" where
  "cfa_def_cfa = rbind (cfa_operand 0) (\<lambda>reg. rbind (cfa_operand 1) (\<lambda>v.
     set_loc CFA_REG (location DWARF_LOCATION_REGISTER (ucast reg) (ucast v))))"

text \<open>The check that the CFA is defined by a register, and the change of its location.\<close>

definition change_cfa :: "(dwarf_location \<Rightarrow> dwarf_location) \<Rightarrow> ('a::len dwarf_cfa, unit) op" where
  "change_cfa f s =
     (case loc_regs s CFA_REG of
        None \<Rightarrow> cfa_fail DWARF_ERROR_ILLEGAL_STATE s
      | Some l \<Rightarrow>
          if dl_type l \<noteq> DWARF_LOCATION_REGISTER then cfa_fail DWARF_ERROR_ILLEGAL_STATE s
          else set_loc CFA_REG (f l) s)"

definition cfa_is_register :: "('a::len dwarf_cfa, unit) op" where
  "cfa_is_register = change_cfa id"

definition cfa_def_cfa_register :: "('a::len dwarf_cfa, unit) op" where
  "cfa_def_cfa_register = rbind cfa_is_register (\<lambda>_. rbind (cfa_operand 0) (\<lambda>v.
     change_cfa (\<lambda>l. l\<lparr>value0 := ucast v\<rparr>)))"

definition cfa_def_cfa_offset :: "('a::len dwarf_cfa, unit) op" where
  "cfa_def_cfa_offset = rbind cfa_is_register (\<lambda>_. rbind (cfa_operand 0) (\<lambda>v.
     change_cfa (\<lambda>l. l\<lparr>value1 := ucast v\<rparr>)))"

definition cfa_cur_offset :: "('a::len dwarf_cfa, u64) op" where
  "cfa_cur_offset s = (Ret (cur_offset (cfa_memory s)), s)"

definition cfa_def_cfa_expression :: "('a::len dwarf_cfa, unit) op" where
  "cfa_def_cfa_expression = rbind (cfa_operand 0) (\<lambda>len. rbind cfa_cur_offset (\<lambda>cur.
     set_loc CFA_REG (location DWARF_LOCATION_EXPRESSION (ucast len) cur)))"

definition cfa_expression :: "('a::len dwarf_cfa, unit) op" where
  "cfa_expression = rbind (cfa_operand 0) (\<lambda>reg. rbind (cfa_operand 1) (\<lambda>len. rbind cfa_cur_offset (\<lambda>cur.
     set_loc reg (location DWARF_LOCATION_EXPRESSION (ucast len) cur))))"

definition cfa_offset_extended_sf :: "('a::len dwarf_cfa, unit) op" where
  "cfa_offset_extended_sf = rbind (cfa_operand 0) (\<lambda>reg. rbind (cfa_operand 1) (\<lambda>v. rbind (factored v) (\<lambda>p.
     set_loc reg (location DWARF_LOCATION_OFFSET p 0))))"

definition cfa_def_cfa_sf :: "('a::len dwarf_cfa, unit) op" where
  "cfa_def_cfa_sf = rbind (cfa_operand 1) (\<lambda>v. rbind (factored v) (\<lambda>p. rbind (cfa_operand 0) (\<lambda>reg.
     set_loc CFA_REG (location DWARF_LOCATION_REGISTER (ucast reg) p))))"

definition cfa_def_cfa_offset_sf :: "('a::len dwarf_cfa, unit) op" where
  "cfa_def_cfa_offset_sf = rbind cfa_is_register (\<lambda>_. rbind (cfa_operand 0) (\<lambda>v. rbind (factored v) (\<lambda>p.
     change_cfa (\<lambda>l. l\<lparr>value1 := p\<rparr>))))"

definition cfa_val_offset :: "('a::len dwarf_cfa, unit) op" where
  "cfa_val_offset = rbind (cfa_operand 0) (\<lambda>reg. rbind (cfa_operand 1) (\<lambda>v. rbind (factored v) (\<lambda>p.
     set_loc reg (location DWARF_LOCATION_VAL_OFFSET p 0))))"

definition cfa_val_offset_sf :: "('a::len dwarf_cfa, unit) op" where
  "cfa_val_offset_sf = rbind (cfa_operand 0) (\<lambda>reg. rbind (cfa_operand 1) (\<lambda>v. rbind (factored v) (\<lambda>p.
     set_loc reg (location DWARF_LOCATION_VAL_OFFSET p 0))))"

definition cfa_val_expression :: "('a::len dwarf_cfa, unit) op" where
  "cfa_val_expression = rbind (cfa_operand 0) (\<lambda>reg. rbind (cfa_operand 1) (\<lambda>len. rbind cfa_cur_offset (\<lambda>cur.
     set_loc reg (location DWARF_LOCATION_VAL_EXPRESSION (ucast len) cur))))"

text \<open>\<open>-static_cast<SignedType>(..)\<close> overflows for the minimum.\<close>

definition cfa_gnu_negative_offset_extended :: "('a::len dwarf_cfa, unit) op" where
  "cfa_gnu_negative_offset_extended = rbind (cfa_operand 0) (\<lambda>reg. rbind (cfa_operand 1) (\<lambda>v.
     if v = signed_min then rundef
     else set_loc reg (location DWARF_LOCATION_OFFSET (scast (- v)) 0)))"

text \<open>The pointers to member functions of \<open>kCallbackTable\<close>, and the call through such a pointer.\<close>

datatype cfa_handler =
    H_cfa_nop | H_cfa_set_loc | H_cfa_advance_loc | H_cfa_offset
  | H_cfa_restore | H_cfa_undefined | H_cfa_same_value | H_cfa_register
  | H_cfa_remember_state | H_cfa_restore_state | H_cfa_def_cfa | H_cfa_def_cfa_register
  | H_cfa_def_cfa_offset | H_cfa_def_cfa_expression | H_cfa_expression | H_cfa_offset_extended_sf
  | H_cfa_def_cfa_sf | H_cfa_def_cfa_offset_sf | H_cfa_val_offset | H_cfa_val_offset_sf
  | H_cfa_val_expression | H_cfa_gnu_negative_offset_extended

primrec run_cfa_handler :: "cfa_handler \<Rightarrow> ('a::len dwarf_cfa, unit) op" where
  "run_cfa_handler H_cfa_nop = cfa_nop"
| "run_cfa_handler H_cfa_set_loc = cfa_set_loc"
| "run_cfa_handler H_cfa_advance_loc = cfa_advance_loc"
| "run_cfa_handler H_cfa_offset = cfa_offset"
| "run_cfa_handler H_cfa_restore = cfa_restore"
| "run_cfa_handler H_cfa_undefined = cfa_undefined"
| "run_cfa_handler H_cfa_same_value = cfa_same_value"
| "run_cfa_handler H_cfa_register = cfa_register"
| "run_cfa_handler H_cfa_remember_state = cfa_remember_state"
| "run_cfa_handler H_cfa_restore_state = cfa_restore_state"
| "run_cfa_handler H_cfa_def_cfa = cfa_def_cfa"
| "run_cfa_handler H_cfa_def_cfa_register = cfa_def_cfa_register"
| "run_cfa_handler H_cfa_def_cfa_offset = cfa_def_cfa_offset"
| "run_cfa_handler H_cfa_def_cfa_expression = cfa_def_cfa_expression"
| "run_cfa_handler H_cfa_expression = cfa_expression"
| "run_cfa_handler H_cfa_offset_extended_sf = cfa_offset_extended_sf"
| "run_cfa_handler H_cfa_def_cfa_sf = cfa_def_cfa_sf"
| "run_cfa_handler H_cfa_def_cfa_offset_sf = cfa_def_cfa_offset_sf"
| "run_cfa_handler H_cfa_val_offset = cfa_val_offset"
| "run_cfa_handler H_cfa_val_offset_sf = cfa_val_offset_sf"
| "run_cfa_handler H_cfa_val_expression = cfa_val_expression"
| "run_cfa_handler H_cfa_gnu_negative_offset_extended = cfa_gnu_negative_offset_extended"

definition cfa_kCallbackTable :: "cfa_handler option list" where
  "cfa_kCallbackTable =
    [Some H_cfa_nop,
     Some H_cfa_set_loc,
     Some H_cfa_advance_loc,
     Some H_cfa_advance_loc,
     Some H_cfa_advance_loc,
     Some H_cfa_offset,
     Some H_cfa_restore,
     Some H_cfa_undefined,
     Some H_cfa_same_value,
     Some H_cfa_register,
     Some H_cfa_remember_state,
     Some H_cfa_restore_state,
     Some H_cfa_def_cfa,
     Some H_cfa_def_cfa_register,
     Some H_cfa_def_cfa_offset,
     Some H_cfa_def_cfa_expression,
     Some H_cfa_expression,
     Some H_cfa_offset_extended_sf,
     Some H_cfa_def_cfa_sf,
     Some H_cfa_def_cfa_offset_sf,
     Some H_cfa_val_offset,
     Some H_cfa_val_offset_sf,
     Some H_cfa_val_expression,
     None,
     None,
     None,
     None,
     None,
     None,
     None,
     None,
     None,
     None,
     None,
     None,
     None,
     None,
     None,
     None,
     None,
     None,
     None,
     None,
     None,
     None,
     None,
     Some H_cfa_nop,
     Some H_cfa_gnu_negative_offset_extended,
     None,
     None,
     None,
     None,
     None,
     None,
     None,
     None,
     None,
     None,
     None,
     None,
     None,
     None,
     None,
     None]"

section \<open>GetLocationInfo\<close>

text \<open>The loop over the operands of an instruction. A block is skipped, its length is the operand.\<close>

fun cfa_read_operands :: "'a::len itself \<Rightarrow> u8 list \<Rightarrow> nat \<Rightarrow> (dwarf_memory, u64 list) op" where
  "cfa_read_operands T encs 0 = rret []"
| "cfa_read_operands T [] (Suc n) = rundef"
| "cfa_read_operands T (e # encs) (Suc n) =
     rbind (if e = DW_EH_PE_block then
              rbind dm_ReadULEB128 (\<lambda>block_length.
                rbind (modify (\<lambda>dm. set_cur_offset (cur_offset dm + block_length) dm)) (\<lambda>_. rret block_length))
            else dm_ReadEncodedValue T e)
       (\<lambda>v. rbind (cfa_read_operands T encs n) (\<lambda>vs. rret (v # vs)))"

definition on_cfa_memory :: "(dwarf_memory, 'b) op \<Rightarrow> ('a::len dwarf_cfa, 'b) op" where
  "on_cfa_memory f = on_fail (\<lambda>s. s\<lparr>cfa_last_error := DWARF_ERROR_MEMORY_INVALID\<rparr>)
     (on_part cfa_memory (\<lambda>dm s. s\<lparr>cfa_memory := dm\<rparr>) f)"

text \<open>The body of the loop: the dispatch on the two high bits of the first byte, then the table.\<close>

definition cfa_dispatch :: "u8 list \<Rightarrow> ('a::len dwarf_cfa, unit) op" where
  "cfa_dispatch bs =
     (let cfa_value = hd bs;
          cfa_low = cfa_value AND 0x3f;
          high = drop_bit 6 cfa_value in
      if high = 1 then advance_pc (ucast cfa_low)
      else if high = 2 then
        rbind (on_cfa_memory dm_ReadULEB128) (\<lambda>off.
          rbind (factored (ucast off)) (\<lambda>p. set_loc cfa_low (location DWARF_LOCATION_OFFSET p 0)))
      else if high = 3 then restore_reg cfa_low
      else
        (case cfa_kCallbackTable ! unat cfa_low of
           None \<Rightarrow> cfa_fail DWARF_ERROR_ILLEGAL_VALUE
         | Some h \<Rightarrow>
             let cfa = kTable ! unat cfa_low in
             rbind (on_cfa_memory (cfa_read_operands TYPE('a) (cfa_operand_encodings cfa) (unat (cfa_num_operands cfa))))
               (\<lambda>vs s. run_cfa_handler h (s\<lparr>cfa_operands := map ucast vs\<rparr>))))"

definition cfa_step :: "('a::len dwarf_cfa, unit) op" where
  "cfa_step s = rbind (on_cfa_memory (dm_ReadBytes 1)) cfa_dispatch (s\<lparr>cfa_operands := []\<rparr>)"

partial_function (option) GetLocationInfo_loop ::
  "u64 \<Rightarrow> u64 \<Rightarrow> 'a::len dwarf_cfa \<Rightarrow> (unit res \<times> 'a dwarf_cfa) option" where
  "GetLocationInfo_loop pc end_offset s =
     (if cur_offset (cfa_memory s) < end_offset \<and> ucast (cur_pc s) \<le> pc then
        (if is_Ret (fst (cfa_step s)) then GetLocationInfo_loop pc end_offset (snd (cfa_step s))
         else Some (cfa_step s))
      else Some (Ret (), s))"

text \<open>\<open>GetLocationInfo\<close>; the copy of the CIE's locations overwrites entries of the same register.\<close>

definition GetLocationInfo ::
  "u64 \<Rightarrow> u64 \<Rightarrow> u64 \<Rightarrow> 'a::len dwarf_cfa \<Rightarrow> (unit res \<times> 'a dwarf_cfa) option" where
  "GetLocationInfo pc start_offset end_offset s =
     GetLocationInfo_loop pc end_offset
       (s\<lparr>loc_regs := (case cie_loc_regs s of None \<Rightarrow> loc_regs s | Some locs \<Rightarrow> loc_regs s ++ locs),
          cfa_last_error := DWARF_ERROR_NONE,
          cfa_memory := set_cur_offset start_offset (cfa_memory s),
          cur_pc := ucast (pc_start (fde s))\<rparr>)"

end
