(* ===== verification/DwarfCfa_Insn.thy ===== *)
theory DwarfCfa_Insn
  imports DwarfCfa
begin

text \<open>
  Call frame instructions: an instruction set with its encoding and its meaning on an abstract frame
  state (the location counter, the table of rules and the saved tables), and the refinement of that
  meaning by \<open>GetLocationInfo\<close>, which works on the bytes.
\<close>

section \<open>Instructions\<close>

text \<open>Register numbers are 16-bit, unsigned operands are numbers of 64 bits, signed operands are
  integers, expressions are byte lists.\<close>

datatype cfa_insn =
    AdvanceLoc u8 | Offset u8 u64 | Restore u8
  | Nop | SetLoc u64 | AdvanceLoc1 u8 | AdvanceLoc2 u16 | AdvanceLoc4 u32
  | OffsetExt u16 u64 | RestoreExt u16 | Undefined u16 | SameValue u16 | Register u16 u16
  | RememberState | RestoreState
  | DefCfa u16 u64 | DefCfaRegister u16 | DefCfaOffset u64 | DefCfaExpression "u8 list"
  | Expression u16 "u8 list" | OffsetExtSf u16 int | DefCfaSf u16 int | DefCfaOffsetSf int
  | ValOffset u16 u64 | ValOffsetSf u16 int | ValExpression u16 "u8 list"
  | GnuArgsSize u64 | GnuNegOffsetExt u16 u64

abbreviation uleb :: "'b::len word \<Rightarrow> u8 list" where
  "uleb v \<equiv> uleb_encode (unat v)"

definition block_bytes :: "u8 list \<Rightarrow> u8 list" where
  "block_bytes bs = uleb_encode (length bs) @ bs"

primrec cfa_encode :: "'a::len itself \<Rightarrow> cfa_insn \<Rightarrow> u8 list" where
  "cfa_encode T (AdvanceLoc n) = [0x40 OR n]"
| "cfa_encode T (Offset r n) = (0x80 OR r) # uleb n"
| "cfa_encode T (Restore r) = [0xc0 OR r]"
| "cfa_encode T Nop = [0x00]"
| "cfa_encode T (SetLoc a) = 0x01 # le_bytes (sizeof T) a"
| "cfa_encode T (AdvanceLoc1 n) = 0x02 # le_bytes 1 n"
| "cfa_encode T (AdvanceLoc2 n) = 0x03 # le_bytes 2 n"
| "cfa_encode T (AdvanceLoc4 n) = 0x04 # le_bytes 4 n"
| "cfa_encode T (OffsetExt r n) = 0x05 # uleb r @ uleb n"
| "cfa_encode T (RestoreExt r) = 0x06 # uleb r"
| "cfa_encode T (Undefined r) = 0x07 # uleb r"
| "cfa_encode T (SameValue r) = 0x08 # uleb r"
| "cfa_encode T (Register r r') = 0x09 # uleb r @ uleb r'"
| "cfa_encode T RememberState = [0x0a]"
| "cfa_encode T RestoreState = [0x0b]"
| "cfa_encode T (DefCfa r n) = 0x0c # uleb r @ uleb n"
| "cfa_encode T (DefCfaRegister r) = 0x0d # uleb r"
| "cfa_encode T (DefCfaOffset n) = 0x0e # uleb n"
| "cfa_encode T (DefCfaExpression bs) = 0x0f # block_bytes bs"
| "cfa_encode T (Expression r bs) = 0x10 # uleb r @ block_bytes bs"
| "cfa_encode T (OffsetExtSf r i) = 0x11 # uleb r @ sleb_encode i"
| "cfa_encode T (DefCfaSf r i) = 0x12 # uleb r @ sleb_encode i"
| "cfa_encode T (DefCfaOffsetSf i) = 0x13 # sleb_encode i"
| "cfa_encode T (ValOffset r n) = 0x14 # uleb r @ uleb n"
| "cfa_encode T (ValOffsetSf r i) = 0x15 # uleb r @ sleb_encode i"
| "cfa_encode T (ValExpression r bs) = 0x16 # uleb r @ block_bytes bs"
| "cfa_encode T (GnuArgsSize n) = 0x2e # uleb n"
| "cfa_encode T (GnuNegOffsetExt r n) = 0x2f # uleb r @ uleb n"

text \<open>Six bits for the operands of the compact forms; signed numbers in the range that \<open>ReadSLEB128\<close>
  handles; expressions shorter than the address space.\<close>

definition sleb_ok :: "int \<Rightarrow> bool" where
  "sleb_ok i \<longleftrightarrow> - (2 ^ 62) \<le> i \<and> i < 2 ^ 63"

fun insn_ok :: "cfa_insn \<Rightarrow> bool" where
  "insn_ok (AdvanceLoc n) = (n < 0x40)"
| "insn_ok (Offset r n) = (r < 0x40)"
| "insn_ok (Restore r) = (r < 0x40)"
| "insn_ok (OffsetExtSf r i) = sleb_ok i"
| "insn_ok (DefCfaSf r i) = sleb_ok i"
| "insn_ok (DefCfaOffsetSf i) = sleb_ok i"
| "insn_ok (ValOffsetSf r i) = sleb_ok i"
| "insn_ok (DefCfaExpression bs) = (length bs < 2 ^ 64)"
| "insn_ok (Expression r bs) = (length bs < 2 ^ 64)"
| "insn_ok (ValExpression r bs) = (length bs < 2 ^ 64)"
| "insn_ok _ = True"

section \<open>Meaning\<close>

record (overloaded) ('a::len) frame_state =
  fs_pc :: "'a word"
  fs_rules :: dwarf_loc_regs
  fs_saved :: "dwarf_loc_regs list"

text \<open>Operands are kept with the width of an address.\<close>

definition trunc :: "'a::len itself \<Rightarrow> u64 \<Rightarrow> u64" where
  "trunc T v = ucast (ucast v :: 'a word)"

text \<open>A factored offset: the operand as a signed number times \<open>data_alignment_factor\<close>, as long as the
  product fits 64 bits.\<close>

definition scaled :: "'a::len itself \<Rightarrow> dwarf_cie \<Rightarrow> 'a word \<Rightarrow> u64 option" where
  "scaled T c v =
     (let p = sint v * sint (data_alignment_factor c) in
      if - (2 ^ 63) \<le> p \<and> p < 2 ^ 63 then Some (scast (of_int p :: 'a word)) else None)"

definition fs_set :: "u16 \<Rightarrow> dwarf_location \<Rightarrow> 'a::len frame_state \<Rightarrow> 'a frame_state" where
  "fs_set r l st = st\<lparr>fs_rules := (fs_rules st)(r \<mapsto> l)\<rparr>"

definition fs_set_scaled ::
  "dwarf_cie \<Rightarrow> u16 \<Rightarrow> (u64 \<Rightarrow> dwarf_location) \<Rightarrow> 'a word \<Rightarrow> 'a::len frame_state \<Rightarrow> 'a frame_state option" where
  "fs_set_scaled c r l v st = map_option (\<lambda>p. fs_set r (l p) st) (scaled TYPE('a) c v)"

definition fs_restore :: "dwarf_loc_regs option \<Rightarrow> u16 \<Rightarrow> 'a::len frame_state \<Rightarrow> 'a frame_state option" where
  "fs_restore init r st =
     map_option (\<lambda>locs. st\<lparr>fs_rules := (fs_rules st)(r := locs r)\<rparr>) init"

definition fs_advance :: "dwarf_cie \<Rightarrow> u64 \<Rightarrow> 'a::len frame_state \<Rightarrow> 'a frame_state" where
  "fs_advance c n st = st\<lparr>fs_pc := fs_pc st + ucast (n * code_alignment_factor c)\<rparr>"

text \<open>The CFA is a register plus offset, and one of the two changes.\<close>

definition fs_change_cfa ::
  "(u64 \<Rightarrow> u64 \<Rightarrow> dwarf_location) \<Rightarrow> 'a::len frame_state \<Rightarrow> 'a frame_state option" where
  "fs_change_cfa f st =
     (case fs_rules st CFA_REG of
        None \<Rightarrow> None
      | Some l \<Rightarrow> if dl_type l = DWARF_LOCATION_REGISTER then Some (fs_set CFA_REG (f (value0 l) (value1 l)) st) else None)"

text \<open>The meaning of one instruction; \<open>next\<close> is the address behind it, which the rule of an expression
  records.\<close>

fun exec_insn :: "dwarf_cie \<Rightarrow> dwarf_loc_regs option \<Rightarrow> u64 \<Rightarrow> cfa_insn \<Rightarrow> 'a::len frame_state \<Rightarrow> 'a frame_state option" where
  "exec_insn c init next (AdvanceLoc n) st = Some (fs_advance c (ucast n) st)"
| "exec_insn c init next (Offset r n) st =
     fs_set_scaled c (ucast r) (\<lambda>p. location DWARF_LOCATION_OFFSET p 0) (ucast n) st"
| "exec_insn c init next (Restore r) st = fs_restore init (ucast r) st"
| "exec_insn c init next Nop st = Some st"
| "exec_insn c init next (SetLoc a) st = Some (st\<lparr>fs_pc := ucast a\<rparr>)"
| "exec_insn c init next (AdvanceLoc1 n) st = Some (fs_advance c (ucast n) st)"
| "exec_insn c init next (AdvanceLoc2 n) st = Some (fs_advance c (ucast n) st)"
| "exec_insn c init next (AdvanceLoc4 n) st = Some (fs_advance c (ucast n) st)"
| "exec_insn c init next (OffsetExt r n) st = Some (fs_set r (location DWARF_LOCATION_OFFSET (trunc TYPE('a) n) 0) st)"
| "exec_insn c init next (RestoreExt r) st = fs_restore init r st"
| "exec_insn c init next (Undefined r) st = Some (fs_set r (location DWARF_LOCATION_UNDEFINED 0 0) st)"
| "exec_insn c init next (SameValue r) st = Some (st\<lparr>fs_rules := (fs_rules st)(r := None)\<rparr>)"
| "exec_insn c init next (Register r r') st = Some (fs_set r (location DWARF_LOCATION_REGISTER (ucast r') 0) st)"
| "exec_insn c init next RememberState st = Some (st\<lparr>fs_saved := fs_rules st # fs_saved st\<rparr>)"
| "exec_insn c init next RestoreState st =
     (case fs_saved st of [] \<Rightarrow> Some st | l # ls \<Rightarrow> Some (st\<lparr>fs_rules := l, fs_saved := ls\<rparr>))"
| "exec_insn c init next (DefCfa r n) st =
     Some (fs_set CFA_REG (location DWARF_LOCATION_REGISTER (ucast r) (trunc TYPE('a) n)) st)"
| "exec_insn c init next (DefCfaRegister r) st =
     fs_change_cfa (\<lambda>v0 v1. location DWARF_LOCATION_REGISTER (ucast r) v1) st"
| "exec_insn c init next (DefCfaOffset n) st =
     fs_change_cfa (\<lambda>v0 v1. location DWARF_LOCATION_REGISTER v0 (trunc TYPE('a) n)) st"
| "exec_insn c init next (DefCfaExpression bs) st =
     Some (fs_set CFA_REG (location DWARF_LOCATION_EXPRESSION (trunc TYPE('a) (of_nat (length bs))) next) st)"
| "exec_insn c init next (Expression r bs) st =
     Some (fs_set r (location DWARF_LOCATION_EXPRESSION (trunc TYPE('a) (of_nat (length bs))) next) st)"
| "exec_insn c init next (OffsetExtSf r i) st =
     fs_set_scaled c r (\<lambda>p. location DWARF_LOCATION_OFFSET p 0) (of_int i) st"
| "exec_insn c init next (DefCfaSf r i) st =
     fs_set_scaled c CFA_REG (location DWARF_LOCATION_REGISTER (ucast r)) (of_int i) st"
| "exec_insn c init next (DefCfaOffsetSf i) st =
     (case scaled TYPE('a) c (of_int i) of
        None \<Rightarrow> None
      | Some p \<Rightarrow> fs_change_cfa (\<lambda>v0 v1. location DWARF_LOCATION_REGISTER v0 p) st)"
| "exec_insn c init next (ValOffset r n) st =
     fs_set_scaled c r (\<lambda>p. location DWARF_LOCATION_VAL_OFFSET p 0) (ucast n) st"
| "exec_insn c init next (ValOffsetSf r i) st =
     fs_set_scaled c r (\<lambda>p. location DWARF_LOCATION_VAL_OFFSET p 0) (of_int i) st"
| "exec_insn c init next (ValExpression r bs) st =
     Some (fs_set r (location DWARF_LOCATION_VAL_EXPRESSION (trunc TYPE('a) (of_nat (length bs))) next) st)"
| "exec_insn c init next (GnuArgsSize n) st = Some st"
| "exec_insn c init next (GnuNegOffsetExt r n) st =
     (if (ucast n :: 'a word) = signed_min then None
      else Some (fs_set r (location DWARF_LOCATION_OFFSET (scast (- ucast n :: 'a word)) 0) st))"

text \<open>A program runs until its end or until the location counter has passed \<open>pc\<close>.\<close>

fun exec_insns ::
  "dwarf_cie \<Rightarrow> dwarf_loc_regs option \<Rightarrow> u64 \<Rightarrow> u64 \<Rightarrow> cfa_insn list \<Rightarrow> 'a::len frame_state \<Rightarrow> 'a frame_state option" where
  "exec_insns c init pc a [] st = Some st"
| "exec_insns c init pc a (i # is) st =
     (if ucast (fs_pc st) \<le> pc then
        (let next = a + of_nat (length (cfa_encode TYPE('a) i)) in
         case exec_insn c init next i st of
           None \<Rightarrow> None
         | Some st' \<Rightarrow> exec_insns c init pc next is st')
      else Some st)"

definition cfa_code :: "'a::len itself \<Rightarrow> cfa_insn list \<Rightarrow> u8 list" where
  "cfa_code T is = concat (map (cfa_encode T) is)"


section \<open>Reading operands\<close>

text \<open>\<open>reads f bs v\<close>: where the memory holds \<open>bs\<close>, \<open>f\<close> returns \<open>v\<close> and moves the cursor behind \<open>bs\<close>.\<close>

definition reads :: "(dwarf_memory, 'b) op \<Rightarrow> u8 list \<Rightarrow> 'b \<Rightarrow> bool" where
  "reads f bs v \<longleftrightarrow> (\<forall>dm. mem_holds (dm_memory dm) (cur_offset dm) bs \<longrightarrow>
     f dm = (Ret v, dm\<lparr>cur_offset := cur_offset dm + of_nat (length bs)\<rparr>))"

lemma readsD:
  "reads f bs v \<Longrightarrow> mem_holds (dm_memory dm) (cur_offset dm) bs \<Longrightarrow>
     f dm = (Ret v, dm\<lparr>cur_offset := cur_offset dm + of_nat (length bs)\<rparr>)"
  by (simp add: reads_def)

lemma reads_rret: "reads (rret v) [] v"
  by (simp add: reads_def rret_def)

lemma reads_rbind:
  assumes "reads f bs v" and "reads (g v) cs w"
  shows "reads (rbind f g) (bs @ cs) w"
  unfolding reads_def
proof (intro allI impI)
  fix dm :: dwarf_memory
  assume h: "mem_holds (dm_memory dm) (cur_offset dm) (bs @ cs)"
  have "f dm = (Ret v, dm\<lparr>cur_offset := cur_offset dm + of_nat (length bs)\<rparr>)"
    using readsD [OF assms(1) mem_holds_append(1) [OF h]] .
  moreover have "g v (dm\<lparr>cur_offset := cur_offset dm + of_nat (length bs)\<rparr>) =
      (Ret w, dm\<lparr>cur_offset := cur_offset dm + of_nat (length bs) + of_nat (length cs)\<rparr>)"
    using readsD [OF assms(2), of "dm\<lparr>cur_offset := cur_offset dm + of_nat (length bs)\<rparr>"] mem_holds_append(2) [OF h]
    by simp
  ultimately show "rbind f g dm = (Ret w, dm\<lparr>cur_offset := cur_offset dm + of_nat (length (bs @ cs))\<rparr>)"
    by (simp add: add.assoc)
qed

lemma reads_uleb: "reads dm_ReadULEB128 (uleb_encode (unat v)) v"
  using ReadULEB128_encode by (simp add: reads_def)

lemma reads_adjust_plain: "reads f bs v \<Longrightarrow> reads (rbind f (AdjustEncodedValue 0)) bs v"
  using reads_rbind [of f bs v "AdjustEncodedValue 0" "[]" v]
  by (simp add: reads_def AdjustEncodedValue_def)

lemma reads_encoded:
  assumes "reads (read_encoded_data T e) bs v" and "e AND 0x70 = 0" and "e \<noteq> DW_EH_PE_omit"
  shows "reads (dm_ReadEncodedValue T e) bs v"
proof -
  have "e \<noteq> DW_EH_PE_aligned" using assms(2) by auto
  then have "dm_ReadEncodedValue T e = rbind (read_encoded_data T e) (AdjustEncodedValue 0)"
    using assms(2,3) by (simp add: fun_eq_iff dm_ReadEncodedValue_def)
  with reads_adjust_plain [OF assms(1)] show ?thesis by simp
qed

lemma reads_encoded_uleb: "reads (dm_ReadEncodedValue T DW_EH_PE_uleb128) (uleb_encode (unat v)) v"
  by (rule reads_encoded) (simp_all add: read_encoded_data_def reads_uleb)

lemma reads_encoded_sleb: "sleb_ok i \<Longrightarrow> reads (dm_ReadEncodedValue T DW_EH_PE_sleb128) (sleb_encode i) (of_int i)"
  by (rule reads_encoded) (simp_all add: read_encoded_data_def reads_def ReadSLEB128_encode sleb_ok_def)

lemma reads_encoded_fixed:
  assumes "GetEncodedSize T e = length bs" and "bs \<noteq> []" and "length bs \<le> 8" and "e AND 0x70 = 0"
  shows "reads (dm_ReadEncodedValue T e) bs (of_int (le_int (encoded_signed e) bs))"
proof (rule reads_encoded)
  show "reads (read_encoded_data T e) bs (of_int (le_int (encoded_signed e) bs))"
    using read_encoded_data_fixed [OF assms(1-3)] by (simp add: reads_def)
qed (use assms in \<open>auto simp: GetEncodedSize_def\<close>)

text \<open>One operand of a call frame instruction.\<close>

definition cfa_read_operand :: "'a::len itself \<Rightarrow> u8 \<Rightarrow> (dwarf_memory, u64) op" where
  "cfa_read_operand T e =
     (if e = DW_EH_PE_block then
        rbind dm_ReadULEB128 (\<lambda>block_length.
          rbind (modify (\<lambda>dm. set_cur_offset (cur_offset dm + block_length) dm)) (\<lambda>_. rret block_length))
      else dm_ReadEncodedValue T e)"

lemma reads_skip:
  assumes "of_nat (length bs) = v"
  shows "reads (rbind (modify (\<lambda>dm. set_cur_offset (cur_offset dm + v) dm)) (\<lambda>_. rret v)) bs v"
  using assms by (simp add: reads_def rbind_def modify_def set_cur_offset_def rret_def)

lemma reads_block:
  assumes "length bs < 2 ^ 64"
  shows "reads (cfa_read_operand T DW_EH_PE_block) (block_bytes bs) (of_nat (length bs))"
proof -
  have "unat (of_nat (length bs) :: u64) = length bs" using assms by (simp add: unat_of_nat)
  then have "uleb_encode (length bs) = uleb_encode (unat (of_nat (length bs) :: u64))" by simp
  then show ?thesis
    unfolding cfa_read_operand_def block_bytes_def
    using reads_rbind [OF reads_uleb, of _ "of_nat (length bs)" bs] reads_skip [OF refl, of bs]
    by simp
qed

lemma reads_operand: "e \<noteq> DW_EH_PE_block \<Longrightarrow> reads (dm_ReadEncodedValue T e) bs v \<Longrightarrow> reads (cfa_read_operand T e) bs v"
  by (simp add: cfa_read_operand_def)

lemma reads_operands:
  assumes "list_all2 (\<lambda>e (bs, v). reads (cfa_read_operand T e) bs v) encs args"
  shows "reads (cfa_read_operands T encs (length encs)) (concat (map fst args)) (map snd args)"
  using assms
proof (induction encs args rule: list_all2_induct)
  case Nil
  then show ?case by (simp add: reads_rret)
next
  case (Cons e encs arg args)
  then have "reads (rbind (cfa_read_operand T e) (\<lambda>v. rbind (cfa_read_operands T encs (length encs)) (\<lambda>vs. rret (v # vs))))
      (fst arg @ concat (map fst args) @ []) (snd arg # map snd args)"
    by (intro reads_rbind [where v = "snd arg"] reads_rbind [where v = "map snd args"] reads_rret) (simp_all add: split_beta)
  then show ?case by (simp add: cfa_read_operand_def split_beta)
qed

section \<open>One instruction\<close>

definition cfa_sig :: "u8 \<Rightarrow> cfa_handler option \<times> u8 list" where
  "cfa_sig b = (cfa_kCallbackTable ! unat b,
     take (unat (cfa_num_operands (kTable ! unat b))) (cfa_operand_encodings (kTable ! unat b)))"

lemma length_kTable: "length kTable = 64" "length cfa_kCallbackTable = 64"
  by (simp_all add: kTable_def kTable_00_11_def kTable_12_3f_def cfa_kCallbackTable_def)

lemma kTable_operands:
  fixes b :: u8
  assumes "b < 0x40"
  shows "unat (cfa_num_operands (kTable ! unat b)) \<le> length (cfa_operand_encodings (kTable ! unat b))"
proof -
  have "list_all (\<lambda>r. unat (cfa_num_operands r) \<le> length (cfa_operand_encodings r)) kTable" by code_simp
  moreover have "unat b < 64" using assms by (simp add: word_less_nat_alt)
  ultimately show ?thesis using length_kTable by (simp add: list_all_length)
qed

lemma cfa_read_operands_take:
  "n \<le> length encs \<Longrightarrow> cfa_read_operands T encs n = cfa_read_operands T (take n encs) (length (take n encs))"
  by (induction T encs n rule: cfa_read_operands.induct) simp_all

lemma on_cfa_memory_run:
  "on_cfa_memory f s =
     (case f (cfa_memory s) of
        (Ret v, dm) \<Rightarrow> (Ret v, s\<lparr>cfa_memory := dm\<rparr>)
      | (Fail, dm) \<Rightarrow> (Fail, s\<lparr>cfa_memory := dm, cfa_last_error := DWARF_ERROR_MEMORY_INVALID\<rparr>)
      | (Abort, dm) \<Rightarrow> (Abort, s\<lparr>cfa_memory := dm\<rparr>)
      | (Undef, dm) \<Rightarrow> (Undef, s\<lparr>cfa_memory := dm\<rparr>))"
  by (simp add: on_cfa_memory_def on_fail_def on_part_def split: prod.split res.split)

definition cfa_decoded :: "u64 list \<Rightarrow> nat \<Rightarrow> 'a::len dwarf_cfa \<Rightarrow> 'a dwarf_cfa" where
  "cfa_decoded vs n s =
     s\<lparr>cfa_memory := (cfa_memory s)\<lparr>cur_offset := cur_offset (cfa_memory s) + of_nat n\<rparr>,
       cfa_operands := map ucast vs\<rparr>"

lemma low_opcode:
  assumes "b < 0x40"
  shows "drop_bit 6 b = 0 \<and> b AND 0x3f = (b :: u8)"
proof -
  have "list_all (\<lambda>n. drop_bit 6 (of_nat n :: u8) = 0 \<and> of_nat n AND 0x3f = (of_nat n :: u8)) [0..<64]" by code_simp
  moreover have "unat b \<in> set [0..<64]" using assms by (simp add: word_less_nat_alt)
  ultimately have "drop_bit 6 (of_nat (unat b) :: u8) = 0 \<and> of_nat (unat b) AND 0x3f = (of_nat (unat b) :: u8)"
    by (simp only: list_all_iff)
  then show ?thesis by (simp only: of_nat_unat ucast_id)
qed

lemma compact_opcode:
  assumes "n < (0x40 :: u8)"
  shows "drop_bit 6 (0x40 OR n) = 1" "(0x40 OR n) AND 0x3f = n"
    and "drop_bit 6 (0x80 OR n) = 2" "(0x80 OR n) AND 0x3f = n"
    and "drop_bit 6 (0xc0 OR n) = 3" "(0xc0 OR n) AND 0x3f = n"
proof -
  have "list_all (\<lambda>k. (let n = of_nat k :: u8 in drop_bit 6 (0x40 OR n) = 1 \<and> (0x40 OR n) AND 0x3f = n \<and>
      drop_bit 6 (0x80 OR n) = 2 \<and> (0x80 OR n) AND 0x3f = n \<and>
      drop_bit 6 (0xc0 OR n) = 3 \<and> (0xc0 OR n) AND 0x3f = n)) [0..<64]" by code_simp
  moreover have "unat n \<in> set [0..<64]" using assms by (simp add: word_less_nat_alt)
  ultimately have "let n = of_nat (unat n) :: u8 in drop_bit 6 (0x40 OR n) = 1 \<and> (0x40 OR n) AND 0x3f = n \<and>
      drop_bit 6 (0x80 OR n) = 2 \<and> (0x80 OR n) AND 0x3f = n \<and>
      drop_bit 6 (0xc0 OR n) = 3 \<and> (0xc0 OR n) AND 0x3f = n"
    by (simp only: list_all_iff)
  then show "drop_bit 6 (0x40 OR n) = 1" "(0x40 OR n) AND 0x3f = n"
    "drop_bit 6 (0x80 OR n) = 2" "(0x80 OR n) AND 0x3f = n"
    "drop_bit 6 (0xc0 OR n) = 3" "(0xc0 OR n) AND 0x3f = n"
    by (simp_all only: Let_def of_nat_unat ucast_id)
qed

lemma cfa_step_read:
  assumes "mem_holds (dm_memory (cfa_memory s)) (cur_offset (cfa_memory s)) (b # rest)"
  shows "dm_ReadBytes 1 (cfa_memory s) = (Ret [b], (cfa_memory s)\<lparr>cur_offset := cur_offset (cfa_memory s) + 1\<rparr>)"
  using dm_ReadBytes_holds [OF assms, of 1] by simp

lemma cfa_step_table:
  fixes s :: "'a::len dwarf_cfa"
  assumes "cfa_sig b = (Some h, encs)" and "b < 0x40"
    and "list_all2 (\<lambda>e (bs, v). reads (cfa_read_operand TYPE('a) e) bs v) encs args"
    and "mem_holds (dm_memory (cfa_memory s)) (cur_offset (cfa_memory s)) (b # concat (map fst args))"
  shows "cfa_step s = run_cfa_handler h (cfa_decoded (map snd args) (Suc (length (concat (map fst args)))) s)"
proof -
  let ?dm = "(cfa_memory s)\<lparr>cur_offset := cur_offset (cfa_memory s) + 1\<rparr>"
  have "cfa_read_operands TYPE('a) (cfa_operand_encodings (kTable ! unat b)) (unat (cfa_num_operands (kTable ! unat b))) =
      cfa_read_operands TYPE('a) encs (length encs)"
    using assms(1) by (subst cfa_read_operands_take [OF kTable_operands [OF assms(2)]]) (auto simp: cfa_sig_def)
  moreover have "cfa_read_operands TYPE('a) encs (length encs) ?dm =
      (Ret (map snd args), ?dm\<lparr>cur_offset := cur_offset ?dm + of_nat (length (concat (map fst args)))\<rparr>)"
    by (rule readsD [OF reads_operands [OF assms(3)]]) (use mem_holds_Cons(2) [OF assms(4)] in simp)
  ultimately show ?thesis
    using assms(1) cfa_step_read [OF assms(4)] low_opcode [OF assms(2)]
    by (simp add: cfa_step_def cfa_dispatch_def rbind_def on_cfa_memory_run Let_def cfa_sig_def cfa_decoded_def add.assoc)
qed

subsection \<open>Opcode and operands of an instruction\<close>

fun insn_op :: "'a::len itself \<Rightarrow> cfa_insn \<Rightarrow> (u8 \<times> (u8 list \<times> u64) list) option" where
  "insn_op T Nop = Some (0x00, [])"
| "insn_op T (SetLoc a) = Some (0x01, [(le_bytes (sizeof T) a, take_bit (8 * sizeof T) a)])"
| "insn_op T (AdvanceLoc1 n) = Some (0x02, [(le_bytes 1 n, ucast n)])"
| "insn_op T (AdvanceLoc2 n) = Some (0x03, [(le_bytes 2 n, ucast n)])"
| "insn_op T (AdvanceLoc4 n) = Some (0x04, [(le_bytes 4 n, ucast n)])"
| "insn_op T (OffsetExt r n) = Some (0x05, [(uleb r, ucast r), (uleb n, n)])"
| "insn_op T (RestoreExt r) = Some (0x06, [(uleb r, ucast r)])"
| "insn_op T (Undefined r) = Some (0x07, [(uleb r, ucast r)])"
| "insn_op T (SameValue r) = Some (0x08, [(uleb r, ucast r)])"
| "insn_op T (Register r r') = Some (0x09, [(uleb r, ucast r), (uleb r', ucast r')])"
| "insn_op T RememberState = Some (0x0a, [])"
| "insn_op T RestoreState = Some (0x0b, [])"
| "insn_op T (DefCfa r n) = Some (0x0c, [(uleb r, ucast r), (uleb n, n)])"
| "insn_op T (DefCfaRegister r) = Some (0x0d, [(uleb r, ucast r)])"
| "insn_op T (DefCfaOffset n) = Some (0x0e, [(uleb n, n)])"
| "insn_op T (DefCfaExpression bs) = Some (0x0f, [(block_bytes bs, of_nat (length bs))])"
| "insn_op T (Expression r bs) = Some (0x10, [(uleb r, ucast r), (block_bytes bs, of_nat (length bs))])"
| "insn_op T (OffsetExtSf r i) = Some (0x11, [(uleb r, ucast r), (sleb_encode i, of_int i)])"
| "insn_op T (DefCfaSf r i) = Some (0x12, [(uleb r, ucast r), (sleb_encode i, of_int i)])"
| "insn_op T (DefCfaOffsetSf i) = Some (0x13, [(sleb_encode i, of_int i)])"
| "insn_op T (ValOffset r n) = Some (0x14, [(uleb r, ucast r), (uleb n, n)])"
| "insn_op T (ValOffsetSf r i) = Some (0x15, [(uleb r, ucast r), (sleb_encode i, of_int i)])"
| "insn_op T (ValExpression r bs) = Some (0x16, [(uleb r, ucast r), (block_bytes bs, of_nat (length bs))])"
| "insn_op T (GnuArgsSize n) = Some (0x2e, [(uleb n, n)])"
| "insn_op T (GnuNegOffsetExt r n) = Some (0x2f, [(uleb r, ucast r), (uleb n, n)])"
| "insn_op T _ = None"

lemma cfa_sigs:
  "cfa_sig 0x00 = (Some H_cfa_nop, [])"
  "cfa_sig 0x01 = (Some H_cfa_set_loc, [DW_EH_PE_absptr])"
  "cfa_sig 0x02 = (Some H_cfa_advance_loc, [DW_EH_PE_udata1])"
  "cfa_sig 0x03 = (Some H_cfa_advance_loc, [DW_EH_PE_udata2])"
  "cfa_sig 0x04 = (Some H_cfa_advance_loc, [DW_EH_PE_udata4])"
  "cfa_sig 0x05 = (Some H_cfa_offset, [DW_EH_PE_uleb128, DW_EH_PE_uleb128])"
  "cfa_sig 0x06 = (Some H_cfa_restore, [DW_EH_PE_uleb128])"
  "cfa_sig 0x07 = (Some H_cfa_undefined, [DW_EH_PE_uleb128])"
  "cfa_sig 0x08 = (Some H_cfa_same_value, [DW_EH_PE_uleb128])"
  "cfa_sig 0x09 = (Some H_cfa_register, [DW_EH_PE_uleb128, DW_EH_PE_uleb128])"
  "cfa_sig 0x0a = (Some H_cfa_remember_state, [])"
  "cfa_sig 0x0b = (Some H_cfa_restore_state, [])"
  "cfa_sig 0x0c = (Some H_cfa_def_cfa, [DW_EH_PE_uleb128, DW_EH_PE_uleb128])"
  "cfa_sig 0x0d = (Some H_cfa_def_cfa_register, [DW_EH_PE_uleb128])"
  "cfa_sig 0x0e = (Some H_cfa_def_cfa_offset, [DW_EH_PE_uleb128])"
  "cfa_sig 0x0f = (Some H_cfa_def_cfa_expression, [DW_EH_PE_block])"
  "cfa_sig 0x10 = (Some H_cfa_expression, [DW_EH_PE_uleb128, DW_EH_PE_block])"
  "cfa_sig 0x11 = (Some H_cfa_offset_extended_sf, [DW_EH_PE_uleb128, DW_EH_PE_sleb128])"
  "cfa_sig 0x12 = (Some H_cfa_def_cfa_sf, [DW_EH_PE_uleb128, DW_EH_PE_sleb128])"
  "cfa_sig 0x13 = (Some H_cfa_def_cfa_offset_sf, [DW_EH_PE_sleb128])"
  "cfa_sig 0x14 = (Some H_cfa_val_offset, [DW_EH_PE_uleb128, DW_EH_PE_uleb128])"
  "cfa_sig 0x15 = (Some H_cfa_val_offset_sf, [DW_EH_PE_uleb128, DW_EH_PE_sleb128])"
  "cfa_sig 0x16 = (Some H_cfa_val_expression, [DW_EH_PE_uleb128, DW_EH_PE_block])"
  "cfa_sig 0x2e = (Some H_cfa_nop, [DW_EH_PE_uleb128])"
  "cfa_sig 0x2f = (Some H_cfa_gnu_negative_offset_extended, [DW_EH_PE_uleb128, DW_EH_PE_uleb128])"
  by code_simp+

lemma insn_op_encode: "insn_op T i = Some (b, args) \<Longrightarrow> cfa_encode T i = b # concat (map fst args)"
  by (cases i) auto

lemma insn_op_low: "insn_op T i = Some (b, args) \<Longrightarrow> b < 0x40"
  by (cases i) auto

lemma reads_uleb_reg: "reads (cfa_read_operand T DW_EH_PE_uleb128) (uleb (r :: u16)) (ucast r)"
proof -
  have "unat r < 2 ^ 16" using unsigned_less [of r, where ?'a = nat] by simp
  then have "unat (ucast r :: u64) = unat r" by (simp add: unsigned_ucast_eq take_bit_nat_eq_self)
  then show ?thesis
    using reads_operand [OF _ reads_encoded_uleb, of T "ucast r"] by simp
qed

lemma reads_uleb_num: "reads (cfa_read_operand T DW_EH_PE_uleb128) (uleb (n :: u64)) n"
  by (intro reads_operand reads_encoded_uleb) simp

lemma reads_sleb_num: "sleb_ok i \<Longrightarrow> reads (cfa_read_operand T DW_EH_PE_sleb128) (sleb_encode i) (of_int i)"
  by (intro reads_operand reads_encoded_sleb) simp_all

lemma of_int_le_int_unsigned: "(of_int (le_int False bs) :: u64) = le_word bs"
  by (simp add: le_int_def le_word_of_nat)

lemma reads_udata:
  fixes n :: "'b::len word"
  assumes "e \<in> {DW_EH_PE_absptr, DW_EH_PE_udata1, DW_EH_PE_udata2, DW_EH_PE_udata4}"
    and "GetEncodedSize T e = k" and "0 < k" and "k \<le> 8"
  shows "reads (cfa_read_operand T e) (le_bytes k n) (ucast (take_bit (8 * k) n))"
proof -
  have "e AND 0x70 = 0" "e \<noteq> DW_EH_PE_block" "encoded_signed e = False"
    using assms(1) by (auto simp: encoded_signed_def)
  moreover have "le_bytes k n \<noteq> []" using assms(3) by (metis length_le_bytes length_greater_0_conv)
  ultimately show ?thesis
    using reads_operand [OF _ reads_encoded_fixed [of T e "le_bytes k n"]] assms(2,4)
    by (simp add: of_int_le_int_unsigned le_word_le_bytes)
qed

lemma insn_op_reads:
  assumes "insn_op TYPE('a::len) i = Some (b, args)" and "insn_ok i" and "LENGTH('a) = 32 \<or> LENGTH('a) = 64"
  shows "list_all2 (\<lambda>e (bs, v). reads (cfa_read_operand TYPE('a) e) bs v) (snd (cfa_sig b)) args"
proof -
  have sz: "sizeof TYPE('a) = 4 \<or> sizeof TYPE('a) = 8" using assms(3) by (auto simp: sizeof_def)
  have f: "reads (cfa_read_operand TYPE('a) DW_EH_PE_absptr) (le_bytes (sizeof TYPE('a)) a) (take_bit (8 * sizeof TYPE('a)) a)"
    for a :: u64
    using reads_udata [of DW_EH_PE_absptr "TYPE('a)" "sizeof TYPE('a)" a] sz by (auto simp: GetEncodedSize_def)
  have g: "reads (cfa_read_operand TYPE('a) DW_EH_PE_udata1) (le_bytes 1 n1) (ucast n1)"
    "reads (cfa_read_operand TYPE('a) DW_EH_PE_udata2) (le_bytes 2 n2) (ucast n2)"
    "reads (cfa_read_operand TYPE('a) DW_EH_PE_udata4) (le_bytes 4 n4) (ucast n4)"
    for n1 :: u8 and n2 :: u16 and n4 :: u32
    using reads_udata [of DW_EH_PE_udata1 "TYPE('a)" 1 n1] reads_udata [of DW_EH_PE_udata2 "TYPE('a)" 2 n2]
      reads_udata [of DW_EH_PE_udata4 "TYPE('a)" 4 n4]
    by (simp_all add: GetEncodedSize_def take_bit_word_eq_self)
  note r = reads_uleb_reg reads_uleb_num reads_sleb_num reads_block f g [unfolded One_nat_def]
  show ?thesis
    using assms(1,2)
    by (cases i) (auto simp: cfa_sigs simp del: DW_EH_PE_absptr_def DW_EH_PE_uleb128_def DW_EH_PE_sleb128_def
      DW_EH_PE_udata1_def DW_EH_PE_udata2_def DW_EH_PE_udata4_def DW_EH_PE_block_def le_bytes.simps
      intro!: r)
qed

text \<open>Conversions through 64 bits and the width of an address.\<close>

lemma ucast_through:
  fixes x :: "'b::len word"
  assumes "LENGTH('b) \<le> LENGTH('a::len)" and "LENGTH('b) \<le> 64"
  shows "(ucast (ucast (ucast x :: u64) :: 'a word) :: 'c::len word) = ucast x"
  by (rule bit_word_eqI) (use assms in \<open>auto simp: bit_simps dest: bit_imp_le_length\<close>)

lemma ucast_add_down:
  assumes "LENGTH('a::len) \<le> 64"
  shows "(ucast (ucast (x :: 'a word) + y :: u64) :: 'a word) = x + ucast y"
proof -
  have m: "(of_int (n mod 2 ^ 64) :: 'a word) = of_int n" for n
    by (simp only: word_of_int_eq_iff take_bit_eq_mod mod_mod_cancel [OF le_imp_power_dvd [OF assms]])
  have "uint (ucast x + y :: u64) = (uint (ucast x :: u64) + uint y) mod 2 ^ 64"
    by (simp add: uint_word_ariths)
  then have "(ucast (ucast x + y :: u64) :: 'a word) = of_int (uint (ucast x :: u64) + uint y)"
    unfolding ucast_eq [of "ucast x + y"] by (simp only: m)
  also have "\<dots> = ucast (ucast x :: u64) + ucast y" by (simp only: of_int_add ucast_eq)
  also have "ucast (ucast x :: u64) = x" by (rule bit_word_eqI) (use assms in \<open>auto simp: bit_simps\<close>)
  finally show ?thesis .
qed

section \<open>Refinement\<close>

definition frame_of :: "'a::len dwarf_cfa \<Rightarrow> 'a frame_state" where
  "frame_of s = \<lparr>fs_pc = cur_pc s, fs_rules = loc_regs s, fs_saved = loc_reg_state s\<rparr>"

text \<open>The object after an instruction of \<open>n\<close> bytes that leads to the frame state \<open>st\<close>.\<close>

definition cfa_after :: "nat \<Rightarrow> 'a::len frame_state \<Rightarrow> 'a dwarf_cfa \<Rightarrow> 'a dwarf_cfa \<Rightarrow> bool" where
  "cfa_after n st s s' \<longleftrightarrow> frame_of s' = st \<and> fde s' = fde s \<and> cie_loc_regs s' = cie_loc_regs s \<and>
     cfa_last_error s' = cfa_last_error s \<and>
     cfa_memory s' = (cfa_memory s)\<lparr>cur_offset := cur_offset (cfa_memory s) + of_nat n\<rparr>"

lemma cfa_operand_less [simp]: "i < length (cfa_operands s) \<Longrightarrow> cfa_operand i s = (Ret (cfa_operands s ! i), s)"
  by (simp add: cfa_operand_def)

lemma factored_scaled:
  fixes s :: "'a::len dwarf_cfa"
  assumes "fde_cie (fde s) = Some c" and "scaled TYPE('a) c v = Some p"
  shows "factored v s = (Ret p, s)"
  using assms by (auto simp: factored_def fde_to_cie_def rbind_def scaled_def Let_def rret_def split: if_splits)

lemma advance_pc_run:
  "fde_cie (fde s) = Some c \<Longrightarrow>
     advance_pc n s = (Ret (), s\<lparr>cur_pc := ucast (ucast (cur_pc s) + n * code_alignment_factor c)\<rparr>)"
  by (simp add: advance_pc_def fde_to_cie_def rbind_def modify_def)

lemma restore_reg_run:
  assumes "cie_loc_regs s = Some locs"
  shows "restore_reg r s = (Ret (), s\<lparr>loc_regs := (loc_regs s)(ucast r := locs (ucast r))\<rparr>)"
  using assms by (simp add: restore_reg_def erase_loc_def set_loc_def split: option.split)

lemma change_cfa_run:
  assumes "loc_regs s CFA_REG = Some l" and "dl_type l = DWARF_LOCATION_REGISTER"
  shows "change_cfa f s = (Ret (), s\<lparr>loc_regs := (loc_regs s)(CFA_REG \<mapsto> f l)\<rparr>)"
    and "cfa_is_register s = (Ret (), s)"
  using assms by (simp_all add: change_cfa_def cfa_is_register_def set_loc_def fun_upd_idem)

lemma location_update:
  assumes "dl_type l = t"
  shows "l\<lparr>value0 := v\<rparr> = \<lparr>dl_type = t, value0 = v, value1 = value1 l\<rparr>"
    and "l\<lparr>value1 := v\<rparr> = \<lparr>dl_type = t, value0 = value0 l, value1 = v\<rparr>"
  using assms by (cases l; simp)+

lemmas cfa_handler_defs = cfa_nop_def cfa_set_loc_def cfa_advance_loc_def cfa_offset_def cfa_restore_def
  cfa_undefined_def cfa_same_value_def cfa_register_def cfa_remember_state_def cfa_restore_state_def
  cfa_def_cfa_def cfa_def_cfa_register_def cfa_def_cfa_offset_def cfa_def_cfa_expression_def
  cfa_expression_def cfa_offset_extended_sf_def cfa_def_cfa_sf_def cfa_def_cfa_offset_sf_def
  cfa_val_offset_def cfa_val_offset_sf_def cfa_val_expression_def cfa_gnu_negative_offset_extended_def

lemma table_insn_refines:
  fixes s :: "'a::len dwarf_cfa"
  assumes "insn_op TYPE('a) i = Some (b, args)" and "insn_ok i" and "LENGTH('a) = 32 \<or> LENGTH('a) = 64"
    and "mem_holds (dm_memory (cfa_memory s)) (cur_offset (cfa_memory s)) (cfa_encode TYPE('a) i)"
    and "fde_cie (fde s) = Some c"
    and "exec_insn c (cie_loc_regs s) (cur_offset (cfa_memory s) + of_nat (length (cfa_encode TYPE('a) i))) i
      (frame_of s) = Some st"
  shows "\<exists>s'. cfa_step s = (Ret (), s') \<and> cfa_after (length (cfa_encode TYPE('a) i)) st s s'"
proof -
  let ?n = "length (cfa_encode TYPE('a) i)"
  obtain h where h: "cfa_sig b = (Some h, snd (cfa_sig b))"
    using assms(1) by (cases i) (auto simp: cfa_sigs)
  have step: "cfa_step s = run_cfa_handler h (cfa_decoded (map snd args) ?n s)"
    using cfa_step_table [OF h insn_op_low [OF assms(1)] insn_op_reads [OF assms(1-3)]] assms(4)
    by (simp add: insn_op_encode [OF assms(1)])
  have w: "8 \<le> LENGTH('a)" "16 \<le> LENGTH('a)" "32 \<le> LENGTH('a)" "LENGTH('a) \<le> 64" "8 * sizeof TYPE('a) = LENGTH('a)"
    using assms(3) by (auto simp: sizeof_def)
  have u: "(ucast (ucast (ucast x8 :: u64) :: 'a word) :: u64) = ucast x8"
    "(ucast (ucast (ucast x16 :: u64) :: 'a word) :: u64) = ucast x16"
    "(ucast (ucast (ucast x16 :: u64) :: 'a word) :: u16) = x16"
    "(ucast (ucast (ucast x32 :: u64) :: 'a word) :: u64) = ucast x32" for x8 :: u8 and x16 :: u16 and x32 :: u32
    using w by (simp_all add: ucast_through)
  have sl: "(ucast (take_bit LENGTH('a) a :: u64) :: 'a word) = ucast a" for a
    by (rule bit_word_eqI) (auto simp: bit_simps)
  note defs = cfa_handler_defs cfa_decoded_def cfa_after_def frame_of_def rret_def rundef_def modify_def set_loc_def erase_loc_def
    cfa_cur_offset_def fs_set_def fs_advance_def
  show ?thesis
    unfolding step using assms(1,2,5,6) h w(4,5)
    by (cases i)
      (auto simp: cfa_sigs defs u sl ucast_of_int_u64 ucast_add_down advance_pc_run factored_scaled restore_reg_run
        change_cfa_run location_update trunc_def fs_set_scaled_def fs_restore_def fs_change_cfa_def location_def
        split: list.splits option.splits if_splits)
qed

lemma compact_insn_refines:
  fixes s :: "'a::len dwarf_cfa"
  assumes "insn_op TYPE('a) i = None" and "insn_ok i" and "LENGTH('a) \<le> 64"
    and "mem_holds (dm_memory (cfa_memory s)) (cur_offset (cfa_memory s)) (cfa_encode TYPE('a) i)"
    and "fde_cie (fde s) = Some c"
    and "exec_insn c (cie_loc_regs s) (cur_offset (cfa_memory s) + of_nat (length (cfa_encode TYPE('a) i))) i
      (frame_of s) = Some st"
  shows "\<exists>s'. cfa_step s = (Ret (), s') \<and> cfa_after (length (cfa_encode TYPE('a) i)) st s s'"
proof (cases i)
  case (AdvanceLoc n)
  then show ?thesis
    using assms(2-6) compact_opcode [of n] cfa_step_read [of s "0x40 OR n" "[]"]
    by (auto simp: cfa_step_def cfa_dispatch_def rbind_def on_cfa_memory_run Let_def advance_pc_run cfa_after_def frame_of_def
        fs_advance_def ucast_add_down)
next
  case (Offset r n)
  let ?dm = "(cfa_memory s)\<lparr>cur_offset := cur_offset (cfa_memory s) + 1\<rparr>"
  have h: "mem_holds (dm_memory (cfa_memory s)) (cur_offset (cfa_memory s)) ((0x80 OR r) # uleb n)"
    using assms(4) Offset by simp
  have u: "dm_ReadULEB128 ?dm = (Ret n, ?dm\<lparr>cur_offset := cur_offset ?dm + of_nat (length (uleb n))\<rparr>)"
    by (rule readsD [OF reads_uleb]) (use mem_holds_Cons(2) [OF h] in simp)
  obtain p where p: "scaled TYPE('a) c (ucast n) = Some p"
    "st = fs_set (ucast r) (location DWARF_LOCATION_OFFSET p 0) (frame_of s)"
    using assms(6) Offset by (auto simp: fs_set_scaled_def)
  show ?thesis
    using assms(2,5) Offset compact_opcode [of r] cfa_step_read [OF h] u p
    by (auto simp: cfa_step_def cfa_dispatch_def rbind_def on_cfa_memory_run Let_def factored_scaled set_loc_def cfa_after_def
        frame_of_def fs_set_def add.assoc)
next
  case (Restore r)
  then show ?thesis
    using assms(2-6) compact_opcode [of r] cfa_step_read [of s "0xc0 OR r" "[]"]
    by (auto simp: cfa_step_def cfa_dispatch_def rbind_def on_cfa_memory_run Let_def restore_reg_run cfa_after_def frame_of_def
        fs_restore_def)
qed (use assms(1) in simp_all)

lemma insn_refines:
  fixes s :: "'a::len dwarf_cfa"
  assumes "insn_ok i" and "LENGTH('a) = 32 \<or> LENGTH('a) = 64"
    and "mem_holds (dm_memory (cfa_memory s)) (cur_offset (cfa_memory s)) (cfa_encode TYPE('a) i)"
    and "fde_cie (fde s) = Some c"
    and "exec_insn c (cie_loc_regs s) (cur_offset (cfa_memory s) + of_nat (length (cfa_encode TYPE('a) i))) i
      (frame_of s) = Some st"
  obtains s' where "cfa_step s = (Ret (), s')" and "cfa_after (length (cfa_encode TYPE('a) i)) st s s'"
proof (cases "insn_op TYPE('a) i")
  case None
  then show thesis using compact_insn_refines [OF None assms(1) _ assms(3-5)] assms(2) that by auto
next
  case (Some ba)
  then show thesis
    using table_insn_refines [of i "fst ba" "snd ba", OF _ assms] that by auto
qed

lemma GetLocationInfo_loop_refines:
  fixes s :: "'a::len dwarf_cfa"
  assumes "mem_holds (dm_memory (cfa_memory s)) (cur_offset (cfa_memory s)) (cfa_code TYPE('a) is)"
    and "e = cur_offset (cfa_memory s) + of_nat (length (cfa_code TYPE('a) is))"
    and "list_all insn_ok is" and "LENGTH('a) = 32 \<or> LENGTH('a) = 64" and "fde_cie (fde s) = Some c"
    and "exec_insns c (cie_loc_regs s) pc (cur_offset (cfa_memory s)) is (frame_of s) = Some st"
  shows "\<exists>s'. GetLocationInfo_loop pc e s = Some (Ret (), s') \<and> frame_of s' = st \<and>
    cfa_last_error s' = cfa_last_error s"
  using assms
proof (induction "is" arbitrary: s)
  case Nil
  then show ?case by (subst GetLocationInfo_loop.simps) (simp add: cfa_code_def)
next
  case (Cons i "is")
  let ?cur = "cur_offset (cfa_memory s)" and ?n = "length (cfa_encode TYPE('a) i)"
  show ?case
  proof (cases "ucast (cur_pc s) \<le> pc")
    case False
    with Cons.prems(6) show ?thesis
      by (subst GetLocationInfo_loop.simps) (simp add: frame_of_def)
  next
    case True
    have code: "cfa_code TYPE('a) (i # is) = cfa_encode TYPE('a) i @ cfa_code TYPE('a) is" by (simp add: cfa_code_def)
    note h = mem_holds_append [OF Cons.prems(1) [unfolded code]]
    obtain st1 where st1: "exec_insn c (cie_loc_regs s) (?cur + of_nat ?n) i (frame_of s) = Some st1"
      "exec_insns c (cie_loc_regs s) pc (?cur + of_nat ?n) is st1 = Some st"
      using Cons.prems(6) True by (auto simp: Let_def frame_of_def split: option.splits)
    have ok: "insn_ok i" using Cons.prems(3) by simp
    obtain s1 where s1: "cfa_step s = (Ret (), s1)" "cfa_after ?n st1 s s1"
      by (rule insn_refines [OF ok Cons.prems(4) h(1) Cons.prems(5) st1(1)])
    have "unat ?cur + length (cfa_code TYPE('a) (i # is)) < 2 ^ 64"
      using Cons.prems(1) by (simp add: mem_holds_def)
    moreover have "0 < ?n" by (cases i) simp_all
    ultimately have "?cur < e"
      using Cons.prems(2) unat_add_no_wrap [of ?cur "length (cfa_code TYPE('a) (i # is))"]
      by (simp add: word_less_nat_alt code)
    then have "GetLocationInfo_loop pc e s = GetLocationInfo_loop pc e s1"
      using True s1(1) by (subst GetLocationInfo_loop.simps) simp
    moreover have "\<exists>s'. GetLocationInfo_loop pc e s1 = Some (Ret (), s') \<and> frame_of s' = st \<and>
        cfa_last_error s' = cfa_last_error s1"
      by (rule Cons.IH)
        (use s1(2) h(2) Cons.prems st1(2) in \<open>simp_all add: cfa_after_def code add.assoc\<close>)
    ultimately show ?thesis using s1(2) by (simp add: cfa_after_def)
  qed
qed

lemma GetLocationInfo_refines_frame:
  fixes s :: "'a::len dwarf_cfa"
  assumes "mem_holds (dm_memory (cfa_memory s)) start (cfa_code TYPE('a) is)"
    and "list_all insn_ok is" and "LENGTH('a) = 32 \<or> LENGTH('a) = 64" and "fde_cie (fde s) = Some c"
    and "exec_insns c (cie_loc_regs s) pc start is
      \<lparr>fs_pc = ucast (pc_start (fde s)),
       fs_rules = (case cie_loc_regs s of None \<Rightarrow> loc_regs s | Some locs \<Rightarrow> loc_regs s ++ locs),
       fs_saved = loc_reg_state s\<rparr> = Some st"
  shows "\<exists>s'. GetLocationInfo pc start (start + of_nat (length (cfa_code TYPE('a) is))) s = Some (Ret (), s') \<and>
    frame_of s' = st \<and> cfa_last_error s' = DWARF_ERROR_NONE"
proof -
  let ?s = "s\<lparr>loc_regs := (case cie_loc_regs s of None \<Rightarrow> loc_regs s | Some locs \<Rightarrow> loc_regs s ++ locs),
      cfa_last_error := DWARF_ERROR_NONE, cfa_memory := set_cur_offset start (cfa_memory s),
      cur_pc := ucast (pc_start (fde s))\<rparr>"
  have "\<exists>s'. GetLocationInfo_loop pc (start + of_nat (length (cfa_code TYPE('a) is))) ?s = Some (Ret (), s') \<and>
      frame_of s' = st \<and> cfa_last_error s' = cfa_last_error ?s"
    by (rule GetLocationInfo_loop_refines [OF _ _ assms(2,3)])
      (use assms(1,4,5) in \<open>simp_all add: set_cur_offset_def frame_of_def\<close>)
  then show ?thesis by (simp add: GetLocationInfo_def)
qed

section \<open>Balanced programs\<close>

text \<open>The nesting of \<open>RememberState\<close> and \<open>RestoreState\<close>: the depth after the program, if no
  \<open>RestoreState\<close> lacks its partner.\<close>

fun nesting :: "nat \<Rightarrow> cfa_insn list \<Rightarrow> nat option" where
  "nesting d [] = Some d"
| "nesting d (RememberState # is) = nesting (Suc d) is"
| "nesting d (RestoreState # is) = (case d of 0 \<Rightarrow> None | Suc d' \<Rightarrow> nesting d' is)"
| "nesting d (_ # is) = nesting d is"

lemma exec_insn_saved:
  "exec_insn c init next i st = Some st' \<Longrightarrow> i \<noteq> RememberState \<Longrightarrow> i \<noteq> RestoreState \<Longrightarrow> fs_saved st' = fs_saved st"
  by (cases i) (auto simp: fs_advance_def fs_set_def fs_set_scaled_def fs_restore_def fs_change_cfa_def
      split: option.splits if_splits)

lemma nesting_other: "i \<noteq> RememberState \<Longrightarrow> i \<noteq> RestoreState \<Longrightarrow> nesting d (i # is) = nesting d is"
  by (cases i) simp_all

lemma exec_insns_Cons:
  assumes "exec_insns c init (-1) a (i # is) (st :: 'a::len frame_state) = Some st'"
  obtains nx st1 where "exec_insn c init nx i st = Some st1" and "exec_insns c init (-1) nx is st1 = Some st'"
  using assms by (auto simp: Let_def split: option.splits)

lemma exec_insns_saved:
  assumes "exec_insns c init (-1) a is st = Some st'" and "nesting d is = Some d'"
    and "fs_saved st = xs @ S" and "length xs = d"
  shows "\<exists>ys. fs_saved st' = ys @ S \<and> length ys = d'"
  using assms
proof (induction "is" arbitrary: d a st xs)
  case Nil
  then show ?case by auto
next
  case (Cons i "is")
  obtain nx st1 where st1: "exec_insn c init nx i st = Some st1" "exec_insns c init (-1) nx is st1 = Some st'"
    by (rule exec_insns_Cons [OF Cons.prems(1)])
  consider "i = RememberState" | "i = RestoreState" | "i \<noteq> RememberState" "i \<noteq> RestoreState" by blast
  then show ?case
  proof cases
    case 1
    then show ?thesis
      using Cons.prems(2-4) st1 Cons.IH [OF st1(2), of "Suc d" "fs_rules st # xs"] by auto
  next
    case 2
    then obtain d1 x xs' where d: "d = Suc d1" "xs = x # xs'" "nesting d1 is = Some d'"
      using Cons.prems(2,4) by (cases d; cases xs) auto
    then show ?thesis
      using Cons.prems(3,4) st1 2 Cons.IH [OF st1(2), of d1 xs'] by auto
  next
    case 3
    then show ?thesis
      using Cons.prems(2-4) exec_insn_saved [OF st1(1)] Cons.IH [OF st1(2), of d xs] by (simp add: nesting_other)
  qed
qed

lemma exec_insns_append:
  "exec_insns c init (-1) a (xs @ ys) (st :: 'a::len frame_state) =
     (case exec_insns c init (-1) a xs st of
        None \<Rightarrow> None
      | Some st' \<Rightarrow> exec_insns c init (-1) (a + of_nat (length (cfa_code TYPE('a) xs))) ys st')"
  by (induction xs arbitrary: a st) (simp_all add: Let_def cfa_code_def add.assoc split: option.split)

lemma remember_restore:
  fixes st :: "'a::len frame_state"
  assumes "exec_insns c init (-1) (a + 1) is (st\<lparr>fs_saved := fs_rules st # fs_saved st\<rparr>) = Some st1"
    and "nesting 0 is = Some 0"
  shows "exec_insns c init (-1) a (RememberState # is @ [RestoreState]) st =
    Some (st1\<lparr>fs_rules := fs_rules st, fs_saved := fs_saved st\<rparr>)"
proof -
  have "fs_saved st1 = fs_rules st # fs_saved st"
    using exec_insns_saved [OF assms, of "[]" "fs_rules st # fs_saved st"] by auto
  then show ?thesis
    using assms(1) by (simp add: exec_insns_append Let_def)
qed

section \<open>A block that leads back\<close>

lemma GetLocationInfo_loop_invariant:
  assumes "\<And>s. P s \<Longrightarrow> cur_offset (cfa_memory s) < e \<and> ucast (cur_pc s) \<le> pc \<and> is_Ret (fst (cfa_step s)) \<and> P (snd (cfa_step s))"
    and "P s"
  shows "GetLocationInfo_loop pc e s = None"
proof -
  have "pc = pc \<longrightarrow> e = e \<longrightarrow> \<not> P s" if "GetLocationInfo_loop pc e s = Some y" for y
  proof (rule GetLocationInfo_loop.raw_induct [where P = "\<lambda>pc' e' s y. pc' = pc \<longrightarrow> e' = e \<longrightarrow> \<not> P s", OF _ that],
      intro impI notI)
    fix f pc' e' s y
    assume IH: "\<And>pc' e' s y. f pc' e' s = Some y \<Longrightarrow> pc' = pc \<longrightarrow> e' = e \<longrightarrow> \<not> P s"
      and body: "(if cur_offset (cfa_memory s) < e' \<and> ucast (cur_pc s) \<le> pc'
        then if is_Ret (fst (cfa_step s)) then f pc' e' (snd (cfa_step s)) else Some (cfa_step s)
        else Some (Ret (), s)) = Some y" and eq: "pc' = pc" "e' = e" and P: "P s"
    have "f pc e (snd (cfa_step s)) = Some y" using body eq assms(1) [OF P] by simp
    from IH [OF this] assms(1) [OF P] show False by simp
  qed
  with assms(2) show ?thesis by (cases "GetLocationInfo_loop pc e s") auto
qed

lemma uleb_back: "length (uleb_encode (2 ^ 64 - 11)) = 10"
  by (simp add: uleb_encode.simps)

lemma back_block_step:
  fixes s :: "'a::len dwarf_cfa"
  assumes "mem_holds (dm_memory (cfa_memory s)) (cur_offset (cfa_memory s)) (0x0f # uleb_encode (2 ^ 64 - 11))"
  shows "\<exists>s'. cfa_step s = (Ret (), s') \<and> cfa_memory s' = cfa_memory s \<and> cur_pc s' = cur_pc s"
proof -
  let ?dm = "(cfa_memory s)\<lparr>cur_offset := cur_offset (cfa_memory s) + 1\<rparr>"
  have u: "unat (- 11 :: u64) = 2 ^ 64 - 11" by simp
  have "dm_ReadULEB128 ?dm = (Ret (- 11), ?dm\<lparr>cur_offset := cur_offset ?dm + of_nat (length (uleb_encode (2 ^ 64 - 11)))\<rparr>)"
    using readsD [OF reads_uleb [of "- 11"], of ?dm] mem_holds_Cons(2) [OF assms] unfolding u by simp
  then have "cfa_read_operands TYPE('a) [DW_EH_PE_block] (length [DW_EH_PE_block]) ?dm = (Ret [- 11], cfa_memory s)"
    unfolding uleb_back by (simp add: rbind_def modify_def rret_def set_cur_offset_def)
  moreover have "cfa_read_operands TYPE('a) (cfa_operand_encodings (kTable ! 15)) (unat (cfa_num_operands (kTable ! 15))) =
      cfa_read_operands TYPE('a) [DW_EH_PE_block] (length [DW_EH_PE_block])"
    using kTable_operands [of "0x0f"] cfa_sigs(16) by (subst cfa_read_operands_take) (auto simp: cfa_sig_def)
  ultimately show ?thesis
    using cfa_step_read [OF assms] cfa_sigs(16)
    by (simp add: cfa_step_def cfa_dispatch_def rbind_def on_cfa_memory_run Let_def cfa_sig_def cfa_def_cfa_expression_def
        cfa_operand_def cfa_cur_offset_def set_loc_def del: cfa_read_operands.simps)
qed

end
