(* ===== verification/DwarfCfa_Safety.thy ===== *)
theory DwarfCfa_Safety
  imports DwarfCfa_Insn
begin

text \<open>
  What \<open>GetLocationInfo\<close> does on arbitrary bytes: the undefined behaviours of an instruction, the absence of
  aborts, the error that every failure records, and the properties of \<open>DwarfCfa\<close>.
\<close>


section \<open>Undefined behaviour\<close>

definition cfa_operands_needed :: "cfa_handler \<Rightarrow> nat" where
  "cfa_operands_needed h =
     (if h \<in> {H_cfa_nop, H_cfa_remember_state, H_cfa_restore_state} then 0
      else if h \<in> {H_cfa_set_loc, H_cfa_advance_loc, H_cfa_restore, H_cfa_undefined, H_cfa_same_value,
        H_cfa_def_cfa_register, H_cfa_def_cfa_offset, H_cfa_def_cfa_expression, H_cfa_def_cfa_offset_sf} then 1
      else 2)"

text \<open>The inputs on which a handler has undefined behaviour: a factored offset that overflows 64 bits,
  and the negation of the minimum.\<close>

definition cfa_hazard :: "dwarf_cie \<Rightarrow> cfa_handler \<Rightarrow> 'a::len dwarf_cfa \<Rightarrow> bool" where
  "cfa_hazard c h s =
     (if h \<in> {H_cfa_offset_extended_sf, H_cfa_def_cfa_sf, H_cfa_val_offset, H_cfa_val_offset_sf}
      then scaled TYPE('a) c (cfa_operands s ! 1) = None
      else if h = H_cfa_def_cfa_offset_sf
      then (case loc_regs s CFA_REG of None \<Rightarrow> False
            | Some l \<Rightarrow> dl_type l = DWARF_LOCATION_REGISTER \<and> scaled TYPE('a) c (cfa_operands s ! 0) = None)
      else h = H_cfa_gnu_negative_offset_extended \<and> cfa_operands s ! 1 = signed_min)"

lemma factored_cases:
  fixes s :: "'a::len dwarf_cfa"
  assumes "fde_cie (fde s) = Some c"
  shows "factored v s = (case scaled TYPE('a) c v of None \<Rightarrow> (Undef, s) | Some p \<Rightarrow> (Ret p, s))"
  using assms by (auto simp: factored_def fde_to_cie_def rbind_def scaled_def Let_def rret_def rundef_def)

lemma change_cfa_cases:
  "change_cfa f s =
     (case loc_regs s CFA_REG of
        None \<Rightarrow> (Fail, s\<lparr>cfa_last_error := DWARF_ERROR_ILLEGAL_STATE\<rparr>)
      | Some l \<Rightarrow>
          if dl_type l = DWARF_LOCATION_REGISTER then (Ret (), s\<lparr>loc_regs := (loc_regs s)(CFA_REG \<mapsto> f l)\<rparr>)
          else (Fail, s\<lparr>cfa_last_error := DWARF_ERROR_ILLEGAL_STATE\<rparr>))"
  by (simp add: change_cfa_def set_loc_def cfa_fail_def split: option.split)

lemma restore_reg_cases: "fst (restore_reg r s) \<noteq> Undef" "fst (restore_reg r s) \<noteq> Abort"
  by (simp_all add: restore_reg_def cfa_fail_def erase_loc_def set_loc_def split: option.split)

lemma run_cfa_handler_Undef_iff:
  fixes s :: "'a::len dwarf_cfa"
  assumes "fde_cie (fde s) = Some c" and "cfa_operands_needed h \<le> length (cfa_operands s)"
  shows "fst (run_cfa_handler h s) = Undef \<longleftrightarrow> cfa_hazard c h s"
  using assms restore_reg_cases
  by (cases h)
    (auto simp: cfa_handler_defs cfa_operands_needed_def cfa_hazard_def rbind_def rret_def rundef_def modify_def
      set_loc_def erase_loc_def cfa_cur_offset_def cfa_operand_def factored_cases advance_pc_run change_cfa_cases cfa_is_register_def
      split: list.splits option.splits if_splits)

subsection \<open>No abort\<close>

lemma no_abort_cfa_primitives [no_abort_rules]:
  "no_abort (cfa_operand i)" "no_abort (set_loc r l)" "no_abort (erase_loc r)" "no_abort (change_cfa f)"
  "no_abort fde_to_cie" "no_abort cfa_cur_offset" "no_abort (cfa_fail e)" "no_abort (modify g)" "no_abort (restore_reg r)"
  "no_abort cfa_is_register" "no_abort cfa_remember_state" "no_abort cfa_restore_state"
  by (simp_all add: no_abort_def cfa_operand_def set_loc_def erase_loc_def change_cfa_cases fde_to_cie_def
      cfa_cur_offset_def cfa_fail_def modify_def restore_reg_cases cfa_is_register_def cfa_remember_state_def
      cfa_restore_state_def split: option.split list.split)

lemma no_abort_factored [no_abort_rules]: "no_abort (factored v)" "no_abort (advance_pc n)"
  unfolding factored_def advance_pc_def Let_def by (intro no_abort_rules)+

lemmas cfa_handler_bodies = cfa_nop_def cfa_set_loc_def cfa_advance_loc_def cfa_offset_def cfa_restore_def
  cfa_undefined_def cfa_same_value_def cfa_register_def cfa_def_cfa_def cfa_def_cfa_register_def
  cfa_def_cfa_offset_def cfa_def_cfa_expression_def cfa_expression_def cfa_offset_extended_sf_def
  cfa_def_cfa_sf_def cfa_def_cfa_offset_sf_def cfa_val_offset_def cfa_val_offset_sf_def
  cfa_val_expression_def cfa_gnu_negative_offset_extended_def

lemma no_abort_run_cfa_handler [no_abort_rules]: "no_abort (run_cfa_handler h)"
  by (cases h) (auto simp: cfa_handler_bodies intro!: no_abort_rules)

definition cfa_row_ok :: "nat \<Rightarrow> bool" where
  "cfa_row_ok i \<longleftrightarrow>
     (case cfa_kCallbackTable ! i of None \<Rightarrow> True
      | Some h \<Rightarrow> cfa_operands_needed h \<le> unat (cfa_num_operands (kTable ! i))) \<and>
     cfa_num_operands (kTable ! i) \<le> 2 \<and>
     list_all (\<lambda>e. e \<in> set (DW_EH_PE_block # plain_encodings)) (cfa_operand_encodings (kTable ! i))"

lemma cfa_rows_ok:
  fixes b :: u8
  assumes "b < 0x40"
  shows "cfa_row_ok (unat b)"
proof -
  have "list_all cfa_row_ok [0..<64]" by code_simp
  moreover have "unat b \<in> set [0..<64]" using assms by (simp add: word_less_nat_alt)
  ultimately show ?thesis by (simp only: list_all_iff)
qed

lemma no_abort_cfa_read_operands:
  "list_all (\<lambda>e. e \<in> set (DW_EH_PE_block # plain_encodings)) encs \<Longrightarrow> no_abort (cfa_read_operands T encs n)"
  by (induction T encs n rule: cfa_read_operands.induct) (auto intro!: no_abort_rules plain_no_abort)

lemma cfa_read_operands_length: "cfa_read_operands T encs n dm = (Ret vs, dm') \<Longrightarrow> length vs = n"
  by (induction T encs n arbitrary: dm vs dm' rule: cfa_read_operands.induct)
    (auto simp: rbind_eq_Ret op_defs)

lemma and_3f_less: "(b :: u8) AND 0x3f < 0x40"
  using word_and_le1 [of b "0x3f"] by (simp add: word_le_nat_alt word_less_nat_alt)

abbreviation cfa_row_operands :: "'a::len itself \<Rightarrow> u8 \<Rightarrow> (dwarf_memory, u64 list) op" where
  "cfa_row_operands T b \<equiv> cfa_read_operands T (cfa_operand_encodings (kTable ! unat b)) (unat (cfa_num_operands (kTable ! unat b)))"

lemma no_abort_cfa_row_operands: "b < 0x40 \<Longrightarrow> no_abort (cfa_row_operands T b)"
  using cfa_rows_ok [of b] by (intro no_abort_cfa_read_operands) (simp add: cfa_row_ok_def)

lemma no_abort_on_cfa_memory [no_abort_rules]: "no_abort f \<Longrightarrow> no_abort (on_cfa_memory f)"
  unfolding on_cfa_memory_def by (intro no_abort_rules)

lemma no_abort_cfa_step: "no_abort (cfa_step :: ('a::len dwarf_cfa, unit) op)"
proof -
  have h: "no_abort (\<lambda>s :: 'a dwarf_cfa. run_cfa_handler h (s\<lparr>cfa_operands := vs\<rparr>))" for h vs
    using no_abort_run_cfa_handler [of h, where 'a = 'a] by (simp add: no_abort_def)
  have "no_abort (cfa_dispatch bs :: ('a dwarf_cfa, unit) op)" for bs
    unfolding cfa_dispatch_def Let_def
    by (intro no_abort_rules) (auto split: option.split intro!: no_abort_rules h no_abort_cfa_row_operands and_3f_less)
  then have "no_abort (rbind (on_cfa_memory (dm_ReadBytes 1)) cfa_dispatch :: ('a dwarf_cfa, unit) op)"
    by (intro no_abort_rules)
  then show ?thesis by (simp add: no_abort_def cfa_step_def)
qed

subsection \<open>Errors\<close>

abbreviation "cfa_reports \<equiv> reports cfa_last_error DWARF_ERROR_NONE"

lemma reports_cfa_primitives [reports_rules]:
  "cfa_reports (cfa_operand i)" "cfa_reports (set_loc r l)" "cfa_reports (erase_loc r)" "cfa_reports (change_cfa f)"
  "cfa_reports fde_to_cie" "cfa_reports cfa_cur_offset" "cfa_reports (restore_reg r)"
  "cfa_reports cfa_is_register" "cfa_reports cfa_remember_state" "cfa_reports cfa_restore_state"
  "cfa_reports (cfa_fail DWARF_ERROR_ILLEGAL_VALUE)" "cfa_reports (modify (\<lambda>s. s\<lparr>cur_pc := g s\<rparr>))"
  by (simp_all add: reports_def cfa_operand_def set_loc_def erase_loc_def change_cfa_cases fde_to_cie_def
      cfa_cur_offset_def cfa_fail_def modify_def restore_reg_def cfa_is_register_def cfa_remember_state_def
      cfa_restore_state_def split: option.split list.split)

lemma reports_factored [reports_rules]: "cfa_reports (factored v)" "cfa_reports (advance_pc n)"
  unfolding factored_def advance_pc_def Let_def by (intro reports_rules)+

lemma reports_run_cfa_handler [reports_rules]: "cfa_reports (run_cfa_handler h)"
  by (cases h)
    (auto simp: cfa_handler_bodies intro!: reports_rules)

lemma reports_on_cfa_memory [reports_rules]: "cfa_reports (on_cfa_memory f)"
  unfolding on_cfa_memory_def by (intro reports_rules keeps_rules) auto

lemma reports_cfa_step: "cfa_reports (cfa_step :: ('a::len dwarf_cfa, unit) op)"
proof -
  have h: "cfa_reports (\<lambda>s :: 'a dwarf_cfa. run_cfa_handler h (s\<lparr>cfa_operands := vs\<rparr>))" for h vs
    using reports_run_cfa_handler [of h, where 'a = 'a] by (simp add: reports_def)
  have "cfa_reports (cfa_dispatch bs :: ('a dwarf_cfa, unit) op)" for bs
    unfolding cfa_dispatch_def Let_def
    by (intro reports_rules) (auto split: option.split intro!: reports_rules h)
  then have "cfa_reports (rbind (on_cfa_memory (dm_ReadBytes 1)) cfa_dispatch :: ('a dwarf_cfa, unit) op)"
    by (intro reports_rules)
  then show ?thesis by (simp add: reports_def cfa_step_def)
qed

lemma GetLocationInfo_loop_result:
  assumes "GetLocationInfo_loop pc e s = Some (r, s')" and "P s"
    and "\<And>s s'. P s \<Longrightarrow> cfa_step s = (Ret (), s') \<Longrightarrow> P s'"
  shows "r = Ret () \<and> P s' \<and> \<not> (cur_offset (cfa_memory s') < e \<and> ucast (cur_pc s') \<le> pc) \<or>
    \<not> is_Ret r \<and> (\<exists>s1. P s1 \<and> cfa_step s1 = (r, s'))"
proof -
  have "P s \<longrightarrow> fst y = Ret () \<and> P (snd y) \<and> \<not> (cur_offset (cfa_memory (snd y)) < e \<and> ucast (cur_pc (snd y)) \<le> pc) \<or>
    \<not> is_Ret (fst y) \<and> (\<exists>s1. P s1 \<and> cfa_step s1 = y)" if "GetLocationInfo_loop pc e s = Some y" for y
  proof (rule GetLocationInfo_loop.raw_induct [where P = "\<lambda>pc e s y. P s \<longrightarrow>
      fst y = Ret () \<and> P (snd y) \<and> \<not> (cur_offset (cfa_memory (snd y)) < e \<and> ucast (cur_pc (snd y)) \<le> pc) \<or>
      \<not> is_Ret (fst y) \<and> (\<exists>s1. P s1 \<and> cfa_step s1 = y)", OF _ that], intro impI)
    fix f pc e s y
    assume IH: "\<And>pc e s y. f pc e s = Some y \<Longrightarrow> P s \<longrightarrow>
        fst y = Ret () \<and> P (snd y) \<and> \<not> (cur_offset (cfa_memory (snd y)) < e \<and> ucast (cur_pc (snd y)) \<le> pc) \<or>
        \<not> is_Ret (fst y) \<and> (\<exists>s1. P s1 \<and> cfa_step s1 = y)"
      and body: "(if cur_offset (cfa_memory s) < e \<and> ucast (cur_pc s) \<le> pc
        then if is_Ret (fst (cfa_step s)) then f pc e (snd (cfa_step s)) else Some (cfa_step s)
        else Some (Ret (), s)) = Some y" and P: "P s"
    show "fst y = Ret () \<and> P (snd y) \<and> \<not> (cur_offset (cfa_memory (snd y)) < e \<and> ucast (cur_pc (snd y)) \<le> pc) \<or>
        \<not> is_Ret (fst y) \<and> (\<exists>s1. P s1 \<and> cfa_step s1 = y)"
    proof (cases "cur_offset (cfa_memory s) < e \<and> ucast (cur_pc s) \<le> pc \<and> is_Ret (fst (cfa_step s))")
      case True
      moreover from this obtain s1 where "cfa_step s = (Ret (), s1)"
        by (cases "cfa_step s"; cases "fst (cfa_step s)") auto
      ultimately have "f pc e s1 = Some y" "P s1" using body assms(3) [OF P] by auto
      with IH show ?thesis by blast
    qed (use body P in \<open>auto split: if_splits\<close>)
  qed
  from this [OF assms(1)] assms(2) show ?thesis by auto
qed

subsection \<open>Undefined behaviour of a step\<close>

text \<open>The inputs on which the step behind the first byte \<open>b\<close> has undefined behaviour: a LEB128 number whose
  decoding is undefined, and the hazards of the handlers.\<close>

definition step_hazard :: "dwarf_cie \<Rightarrow> u8 \<Rightarrow> 'a::len dwarf_cfa \<Rightarrow> bool" where
  "step_hazard c b s =
     (if drop_bit 6 b = 2 then
        (case dm_ReadULEB128 (cfa_memory s) of
           (Ret off, _) \<Rightarrow> scaled TYPE('a) c (ucast off) = None
         | (q, _) \<Rightarrow> q = Undef)
      else if drop_bit 6 b = 0 then
        (case cfa_kCallbackTable ! unat b of
           None \<Rightarrow> False
         | Some h \<Rightarrow>
             (case cfa_row_operands TYPE('a) b (cfa_memory s) of
                (Ret vs, dm) \<Rightarrow> cfa_hazard c h (s\<lparr>cfa_memory := dm, cfa_operands := map ucast vs\<rparr>)
              | (q, _) \<Rightarrow> q = Undef))
      else False)"

lemma drop_bit_6_u8:
  fixes b :: u8
  shows "drop_bit 6 b \<in> {0, 1, 2, 3} \<and> (drop_bit 6 b = 0 \<longrightarrow> b AND 0x3f = b \<and> b < 0x40)"
  by (auto simp: u8_bits u8_less_64)

lemma cfa_dispatch_Undef_iff:
  fixes s :: "'a::len dwarf_cfa"
  assumes "fde_cie (fde s) = Some c"
  shows "fst (cfa_dispatch bs s) = Undef \<longleftrightarrow> step_hazard c (hd bs) s"
proof -
  define b where "b = hd bs"
  note defs = cfa_dispatch_def step_hazard_def b_def [symmetric]
  consider "drop_bit 6 b = 0" | "drop_bit 6 b = 1" | "drop_bit 6 b = 2" | "drop_bit 6 b = 3"
    using drop_bit_6_u8 [of b] by blast
  then show ?thesis
  proof cases
    case 1
    then have b: "b AND 0x3f = b" "b < 0x40" using drop_bit_6_u8 [of b] by blast+
    show ?thesis
    proof (cases "cfa_kCallbackTable ! unat b")
      case None
      then show ?thesis using 1 b by (simp add: defs cfa_fail_def)
    next
      case (Some h)
      obtain q dm where q: "cfa_row_operands TYPE('a) b (cfa_memory s) = (q, dm)" by fastforce
      have n: "cfa_operands_needed h \<le> length vs" if "q = Ret vs" for vs
        using cfa_rows_ok [of b] b Some cfa_read_operands_length [OF q [unfolded that]] by (auto simp: cfa_row_ok_def)
      show ?thesis
        using 1 b Some q n run_cfa_handler_Undef_iff [of "s\<lparr>cfa_memory := dm, cfa_operands := map ucast vs\<rparr>" c h for vs] assms
        by (cases q) (simp_all add: defs rbind_def on_cfa_memory_run Let_def)
    qed
  next
    case 3
    then show ?thesis using assms
      by (auto simp: defs rbind_def on_cfa_memory_run factored_cases set_loc_def
          split: prod.split res.split option.split)
  qed (use assms restore_reg_cases in \<open>simp_all add: defs advance_pc_run\<close>)
qed

section \<open>Properties\<close>

text \<open>C1. Call frame instructions: for the encoding of any program of call frame instructions in
  memory, \<open>GetLocationInfo\<close> terminates, returns true, and leaves in \<open>cur_pc_\<close>, in the location table and in
  the stack of saved tables exactly what the instructions mean, for 32-bit and 64-bit addresses. A
  program is cut off where its location counter passes \<open>pc\<close>.\<close>

theorem GetLocationInfo_refines:
  fixes s :: "'a::len dwarf_cfa"
  assumes "mem_holds (dm_memory (cfa_memory s)) start (cfa_code TYPE('a) is)"
    and "list_all insn_ok is" and "LENGTH('a) = 32 \<or> LENGTH('a) = 64" and "fde_cie (fde s) = Some c"
    and "exec_insns c (cie_loc_regs s) pc start is
      \<lparr>fs_pc = ucast (pc_start (fde s)),
       fs_rules = (case cie_loc_regs s of None \<Rightarrow> loc_regs s | Some locs \<Rightarrow> loc_regs s ++ locs),
       fs_saved = loc_reg_state s\<rparr> = Some st"
  shows "\<exists>s'. GetLocationInfo pc start (start + of_nat (length (cfa_code TYPE('a) is))) s = Some (Ret (), s') \<and>
    frame_of s' = st \<and> cfa_last_error s' = DWARF_ERROR_NONE"
  by (rule GetLocationInfo_refines_frame [OF assms])

text \<open>The rules of a usual x86-64 function after \<open>push %rbp\<close>: CFA = rsp + 16, rip at CFA - 8, rbp at CFA - 16.\<close>

definition sample_fde :: dwarf_fde where
  "sample_fde = new_DwarfFde\<lparr>pc_start := 0x1000,
     fde_cie := Some (new_DwarfCie\<lparr>code_alignment_factor := 1, data_alignment_factor := -8\<rparr>)\<rparr>"

definition sample_insns :: "cfa_insn list" where
  "sample_insns = [DefCfa 7 8, Offset 16 1, AdvanceLoc 1, DefCfaOffset 16, Offset 6 2, AdvanceLoc 3, DefCfaRegister 6]"

definition sample_code :: "u8 list" where
  "sample_code = [0x0c, 7, 8, 0x90, 1, 0x41, 0x0e, 16, 0x86, 2, 0x43, 0x0d, 6]"

lemma sample_code_eq: "cfa_code TYPE(64) sample_insns = sample_code"
  by (simp add: cfa_code_def sample_insns_def sample_code_def uleb_encode.simps)

lemma sample_code_holds: "mem_holds (MemoryBuffer sample_code) 0 sample_code"
  using mem_holds_MemoryBuffer [of "[]" sample_code "[]"] by (simp add: sample_code_def)

theorem GetLocationInfo_refines_witness:
  "\<exists>s'. GetLocationInfo 0x1002 0 13
      (new_DwarfCfa (new_DwarfMemory (MemoryBuffer sample_code)) sample_fde Map.empty :: 64 dwarf_cfa) = Some (Ret (), s') \<and>
    cur_pc s' = 0x1004 \<and>
    loc_regs s' = [CFA_REG \<mapsto> location DWARF_LOCATION_REGISTER 7 16, 16 \<mapsto> location DWARF_LOCATION_OFFSET (-8) 0,
      6 \<mapsto> location DWARF_LOCATION_OFFSET (-16) 0]"
proof -
  let ?s = "new_DwarfCfa (new_DwarfMemory (MemoryBuffer sample_code)) sample_fde Map.empty :: 64 dwarf_cfa"
  let ?c = "new_DwarfCie\<lparr>code_alignment_factor := 1, data_alignment_factor := -8\<rparr>"
  let ?st = "\<lparr>fs_pc = 0x1004, fs_rules = [CFA_REG \<mapsto> location DWARF_LOCATION_REGISTER 7 16,
      16 \<mapsto> location DWARF_LOCATION_OFFSET (-8) 0, 6 \<mapsto> location DWARF_LOCATION_OFFSET (-16) 0], fs_saved = []\<rparr> :: 64 frame_state"
  have e: "exec_insns ?c None 0x1002 0 sample_insns \<lparr>fs_pc = 0x1000, fs_rules = Map.empty, fs_saved = []\<rparr> = Some ?st"
    by (simp add: sample_insns_def fs_set_def fs_set_scaled_def fs_advance_def fs_change_cfa_def scaled_def trunc_def
        location_def CFA_REG_def fun_upd_twist new_DwarfCie_def)
  have ok: "list_all insn_ok sample_insns" by (simp add: sample_insns_def)
  have "\<exists>s'. GetLocationInfo 0x1002 0 (0 + of_nat (length (cfa_code TYPE(64) sample_insns))) ?s = Some (Ret (), s') \<and>
      frame_of s' = ?st \<and> cfa_last_error s' = DWARF_ERROR_NONE"
    by (rule GetLocationInfo_refines [where c = ?c, OF _ ok])
      (use e sample_code_holds in \<open>simp_all add: sample_code_eq new_DwarfCfa_def new_DwarfMemory_def sample_fde_def new_DwarfFde_def\<close>)
  then show ?thesis unfolding sample_code_eq by (auto simp: sample_code_def frame_of_def)
qed


definition balanced_insns :: "cfa_insn list" where
  "balanced_insns = [DefCfa 7 8, RememberState, Undefined 3, RestoreState]"


text \<open>C38. A program on which \<open>GetLocationInfo\<close> does not terminate: the length of the block of a
  \<open>DW_CFA_def_cfa_expression\<close> is added to the cursor without a check. A block of length \<open>2 ^ 64 - 11\<close> leads
  back to its own instruction, which is then executed for ever.\<close>

theorem GetLocationInfo_diverges:
  fixes s :: "'a::len dwarf_cfa"
  assumes "mem_holds (dm_memory (cfa_memory s)) start (0x0f # uleb_encode (2 ^ 64 - 11))"
    and "start < end_offset" and "(ucast (ucast (pc_start (fde s)) :: 'a word) :: u64) \<le> pc"
  shows "GetLocationInfo pc start end_offset s = None"
  unfolding GetLocationInfo_def
proof (rule GetLocationInfo_loop_invariant [where P = "\<lambda>t. cfa_memory t = set_cur_offset start (cfa_memory s) \<and>
    cur_pc t = ucast (pc_start (fde s))"])
  fix t :: "'a dwarf_cfa"
  assume t: "cfa_memory t = set_cur_offset start (cfa_memory s) \<and> cur_pc t = ucast (pc_start (fde s))"
  then have "mem_holds (dm_memory (cfa_memory t)) (cur_offset (cfa_memory t)) (0x0f # uleb_encode (2 ^ 64 - 11))"
    using assms(1) by (simp add: set_cur_offset_def)
  from back_block_step [OF this] t assms(2,3)
  show "cur_offset (cfa_memory t) < end_offset \<and> ucast (cur_pc t) \<le> pc \<and> is_Ret (fst (cfa_step t)) \<and>
      cfa_memory (snd (cfa_step t)) = set_cur_offset start (cfa_memory s) \<and>
      cur_pc (snd (cfa_step t)) = ucast (pc_start (fde s))"
    by (auto simp: set_cur_offset_def)
qed simp

theorem GetLocationInfo_diverges_witness:
  "GetLocationInfo 0x1000 0 11
      (new_DwarfCfa (new_DwarfMemory (MemoryBuffer [0x0f, 0xf5, 0xff, 0xff, 0xff, 0xff, 0xff, 0xff, 0xff, 0xff, 0x01]))
        sample_fde Map.empty :: 64 dwarf_cfa) = None"
proof -
  let ?code = "[0x0f, 0xf5, 0xff, 0xff, 0xff, 0xff, 0xff, 0xff, 0xff, 0xff, 0x01] :: u8 list"
  have c: "0x0f # uleb_encode (2 ^ 64 - 11) = ?code" by (simp add: uleb_encode.simps)
  have "mem_holds (MemoryBuffer ?code) 0 ?code"
    using mem_holds_MemoryBuffer [of "[]" ?code "[]"] by simp
  then show ?thesis
    by (intro GetLocationInfo_diverges) (simp_all only: c, simp_all add: new_DwarfCfa_def new_DwarfMemory_def sample_fde_def)
qed

text \<open>The outcome of \<open>GetLocationInfo\<close>, whatever the bytes: when it returns, it has not aborted; true
  means that no error is recorded and that the end of the instructions or a location behind \<open>pc\<close> was
  reached; false means that \<open>last_error_\<close> tells why.\<close>

theorem GetLocationInfo_outcome:
  fixes s :: "'a::len dwarf_cfa"
  assumes "GetLocationInfo pc start_offset end_offset s = Some (r, s')"
  shows "r \<noteq> Abort \<and> (r = Fail \<longrightarrow> cfa_last_error s' \<noteq> DWARF_ERROR_NONE) \<and>
    (r = Ret () \<longrightarrow> cfa_last_error s' = DWARF_ERROR_NONE \<and>
      (end_offset \<le> cur_offset (cfa_memory s') \<or> pc < ucast (cur_pc s')))"
proof -
  have "r = Ret () \<and> cfa_last_error s' = DWARF_ERROR_NONE \<and> \<not> (cur_offset (cfa_memory s') < end_offset \<and> ucast (cur_pc s') \<le> pc) \<or>
      \<not> is_Ret r \<and> (\<exists>s1. cfa_last_error s1 = DWARF_ERROR_NONE \<and> cfa_step s1 = (r, s'))"
    by (rule GetLocationInfo_loop_result [OF assms [unfolded GetLocationInfo_def]])
      (use reportsD(1) [OF reports_cfa_step [where 'a = 'a]] in auto)
  then show ?thesis
    using reportsD(2) [OF reports_cfa_step [where 'a = 'a]] no_abortD [OF no_abort_cfa_step [where 'a = 'a]] by (auto simp: not_less not_le)
qed

theorem GetLocationInfo_outcome_witness:
  "\<exists>s'. GetLocationInfo 0x1000 0 1 (new_DwarfCfa (new_DwarfMemory (MemoryBuffer [0x17])) sample_fde Map.empty :: 64 dwarf_cfa) =
      Some (Fail, s') \<and> cfa_last_error s' = DWARF_ERROR_ILLEGAL_VALUE \<and> cfa_last_error s' \<noteq> DWARF_ERROR_NONE"
proof -
  let ?s = "new_DwarfCfa (new_DwarfMemory (MemoryBuffer [0x17])) sample_fde Map.empty :: 64 dwarf_cfa"
  let ?t = "?s\<lparr>cur_pc := 0x1000\<rparr>"
  have m: "mem_holds (MemoryBuffer [0x17]) 0 [0x17]" using mem_holds_MemoryBuffer [of "[]" "[0x17]" "[]"] by simp
  have k: "cfa_kCallbackTable ! 23 = None" by (simp add: cfa_kCallbackTable_def)
  obtain s' where st: "cfa_step ?t = (Fail, s')" "cfa_last_error s' = DWARF_ERROR_ILLEGAL_VALUE"
    using cfa_step_read [of ?t "0x17" "[]"] m k
    by (auto simp: cfa_step_def cfa_dispatch_def rbind_def on_cfa_memory_run Let_def new_DwarfCfa_def new_DwarfMemory_def cfa_fail_def)
  have g: "GetLocationInfo 0x1000 0 1 ?s = Some (Fail, s')"
    using st by (simp add: GetLocationInfo_def GetLocationInfo_loop.simps [of _ _ "_ :: 64 dwarf_cfa"] new_DwarfCfa_def new_DwarfMemory_def
        set_cur_offset_def sample_fde_def new_DwarfFde_def)
  show ?thesis using g st GetLocationInfo_outcome [OF g] by auto
qed



end
