(* ===== verification/Machine.thy ===== *)
theory Machine
  imports Unwind_Prelude
begin

text \<open>
  The numbers of the machine registers (\<open>Machine.h\<close>): each enumeration is a datatype with a function
  that gives the value of an enumerator; a second enumerator with the same value is an abbreviation.
\<close>

datatype ArmReg =
    ARM_REG_R0 | ARM_REG_R1 | ARM_REG_R2 | ARM_REG_R3 | ARM_REG_R4 | ARM_REG_R5 | ARM_REG_R6
  | ARM_REG_R7 | ARM_REG_R8 | ARM_REG_R9 | ARM_REG_R10 | ARM_REG_R11 | ARM_REG_R12 | ARM_REG_R13
  | ARM_REG_R14 | ARM_REG_R15 | ARM_REG_LAST

primrec arm_reg :: "ArmReg \<Rightarrow> nat" where
  "arm_reg ARM_REG_R0 = 0"
| "arm_reg ARM_REG_R1 = 1"
| "arm_reg ARM_REG_R2 = 2"
| "arm_reg ARM_REG_R3 = 3"
| "arm_reg ARM_REG_R4 = 4"
| "arm_reg ARM_REG_R5 = 5"
| "arm_reg ARM_REG_R6 = 6"
| "arm_reg ARM_REG_R7 = 7"
| "arm_reg ARM_REG_R8 = 8"
| "arm_reg ARM_REG_R9 = 9"
| "arm_reg ARM_REG_R10 = 10"
| "arm_reg ARM_REG_R11 = 11"
| "arm_reg ARM_REG_R12 = 12"
| "arm_reg ARM_REG_R13 = 13"
| "arm_reg ARM_REG_R14 = 14"
| "arm_reg ARM_REG_R15 = 15"
| "arm_reg ARM_REG_LAST = 16"

abbreviation "ARM_REG_SP \<equiv> ARM_REG_R13"
abbreviation "ARM_REG_LR \<equiv> ARM_REG_R14"
abbreviation "ARM_REG_PC \<equiv> ARM_REG_R15"

datatype Arm64Reg =
    ARM64_REG_R0 | ARM64_REG_R1 | ARM64_REG_R2 | ARM64_REG_R3 | ARM64_REG_R4 | ARM64_REG_R5
  | ARM64_REG_R6 | ARM64_REG_R7 | ARM64_REG_R8 | ARM64_REG_R9 | ARM64_REG_R10 | ARM64_REG_R11
  | ARM64_REG_R12 | ARM64_REG_R13 | ARM64_REG_R14 | ARM64_REG_R15 | ARM64_REG_R16 | ARM64_REG_R17
  | ARM64_REG_R18 | ARM64_REG_R19 | ARM64_REG_R20 | ARM64_REG_R21 | ARM64_REG_R22 | ARM64_REG_R23
  | ARM64_REG_R24 | ARM64_REG_R25 | ARM64_REG_R26 | ARM64_REG_R27 | ARM64_REG_R28 | ARM64_REG_R29
  | ARM64_REG_R30 | ARM64_REG_R31 | ARM64_REG_PC | ARM64_REG_LAST

primrec arm64_reg :: "Arm64Reg \<Rightarrow> nat" where
  "arm64_reg ARM64_REG_R0 = 0"
| "arm64_reg ARM64_REG_R1 = 1"
| "arm64_reg ARM64_REG_R2 = 2"
| "arm64_reg ARM64_REG_R3 = 3"
| "arm64_reg ARM64_REG_R4 = 4"
| "arm64_reg ARM64_REG_R5 = 5"
| "arm64_reg ARM64_REG_R6 = 6"
| "arm64_reg ARM64_REG_R7 = 7"
| "arm64_reg ARM64_REG_R8 = 8"
| "arm64_reg ARM64_REG_R9 = 9"
| "arm64_reg ARM64_REG_R10 = 10"
| "arm64_reg ARM64_REG_R11 = 11"
| "arm64_reg ARM64_REG_R12 = 12"
| "arm64_reg ARM64_REG_R13 = 13"
| "arm64_reg ARM64_REG_R14 = 14"
| "arm64_reg ARM64_REG_R15 = 15"
| "arm64_reg ARM64_REG_R16 = 16"
| "arm64_reg ARM64_REG_R17 = 17"
| "arm64_reg ARM64_REG_R18 = 18"
| "arm64_reg ARM64_REG_R19 = 19"
| "arm64_reg ARM64_REG_R20 = 20"
| "arm64_reg ARM64_REG_R21 = 21"
| "arm64_reg ARM64_REG_R22 = 22"
| "arm64_reg ARM64_REG_R23 = 23"
| "arm64_reg ARM64_REG_R24 = 24"
| "arm64_reg ARM64_REG_R25 = 25"
| "arm64_reg ARM64_REG_R26 = 26"
| "arm64_reg ARM64_REG_R27 = 27"
| "arm64_reg ARM64_REG_R28 = 28"
| "arm64_reg ARM64_REG_R29 = 29"
| "arm64_reg ARM64_REG_R30 = 30"
| "arm64_reg ARM64_REG_R31 = 31"
| "arm64_reg ARM64_REG_PC = 32"
| "arm64_reg ARM64_REG_LAST = 33"

abbreviation "ARM64_REG_SP \<equiv> ARM64_REG_R31"
abbreviation "ARM64_REG_LR \<equiv> ARM64_REG_R30"

datatype X86Reg =
    X86_REG_EAX | X86_REG_ECX | X86_REG_EDX | X86_REG_EBX | X86_REG_ESP | X86_REG_EBP | X86_REG_ESI
  | X86_REG_EDI | X86_REG_EIP | X86_REG_EFL | X86_REG_CS | X86_REG_SS | X86_REG_DS | X86_REG_ES
  | X86_REG_FS | X86_REG_GS | X86_REG_LAST

primrec x86_reg :: "X86Reg \<Rightarrow> nat" where
  "x86_reg X86_REG_EAX = 0"
| "x86_reg X86_REG_ECX = 1"
| "x86_reg X86_REG_EDX = 2"
| "x86_reg X86_REG_EBX = 3"
| "x86_reg X86_REG_ESP = 4"
| "x86_reg X86_REG_EBP = 5"
| "x86_reg X86_REG_ESI = 6"
| "x86_reg X86_REG_EDI = 7"
| "x86_reg X86_REG_EIP = 8"
| "x86_reg X86_REG_EFL = 9"
| "x86_reg X86_REG_CS = 10"
| "x86_reg X86_REG_SS = 11"
| "x86_reg X86_REG_DS = 12"
| "x86_reg X86_REG_ES = 13"
| "x86_reg X86_REG_FS = 14"
| "x86_reg X86_REG_GS = 15"
| "x86_reg X86_REG_LAST = 16"

abbreviation "X86_REG_SP \<equiv> X86_REG_ESP"
abbreviation "X86_REG_PC \<equiv> X86_REG_EIP"

datatype X86_64Reg =
    X86_64_REG_RAX | X86_64_REG_RDX | X86_64_REG_RCX | X86_64_REG_RBX | X86_64_REG_RSI
  | X86_64_REG_RDI | X86_64_REG_RBP | X86_64_REG_RSP | X86_64_REG_R8 | X86_64_REG_R9
  | X86_64_REG_R10 | X86_64_REG_R11 | X86_64_REG_R12 | X86_64_REG_R13 | X86_64_REG_R14
  | X86_64_REG_R15 | X86_64_REG_RIP | X86_64_REG_LAST

primrec x86_64_reg :: "X86_64Reg \<Rightarrow> nat" where
  "x86_64_reg X86_64_REG_RAX = 0"
| "x86_64_reg X86_64_REG_RDX = 1"
| "x86_64_reg X86_64_REG_RCX = 2"
| "x86_64_reg X86_64_REG_RBX = 3"
| "x86_64_reg X86_64_REG_RSI = 4"
| "x86_64_reg X86_64_REG_RDI = 5"
| "x86_64_reg X86_64_REG_RBP = 6"
| "x86_64_reg X86_64_REG_RSP = 7"
| "x86_64_reg X86_64_REG_R8 = 8"
| "x86_64_reg X86_64_REG_R9 = 9"
| "x86_64_reg X86_64_REG_R10 = 10"
| "x86_64_reg X86_64_REG_R11 = 11"
| "x86_64_reg X86_64_REG_R12 = 12"
| "x86_64_reg X86_64_REG_R13 = 13"
| "x86_64_reg X86_64_REG_R14 = 14"
| "x86_64_reg X86_64_REG_R15 = 15"
| "x86_64_reg X86_64_REG_RIP = 16"
| "x86_64_reg X86_64_REG_LAST = 17"

abbreviation "X86_64_REG_SP \<equiv> X86_64_REG_RSP"
abbreviation "X86_64_REG_PC \<equiv> X86_64_REG_RIP"

end
