(* ===== verification/Log_Format.thy ===== *)
theory Log_Format
  imports Unwind_Prelude
begin

text \<open>
  The log of the library (\<open>Log.cpp\<close>) and the conversions of \<open>StringPrintf\<close> that its messages use. A
  component that logs keeps the lines it has written, the last one at the end.
\<close>

text \<open>\<open>%d\<close>, \<open>%zu\<close> and \<open>std::to_string\<close>.\<close>

fun dec :: "nat \<Rightarrow> string" where
  "dec n = (if n < 10 then [char_of (48 + n)] else dec (n div 10) @ [char_of (48 + n mod 10)])"

declare dec.simps [simp del]

definition dec_int :: "int \<Rightarrow> string" where
  "dec_int i = (if i < 0 then ''-'' @ dec (nat (- i)) else dec (nat i))"

text \<open>\<open>%02x\<close> for a byte.\<close>

definition hex_digit :: "nat \<Rightarrow> char" where
  "hex_digit d = (if d < 10 then char_of (48 + d) else char_of (87 + d))"

definition hex02 :: "u8 \<Rightarrow> string" where
  "hex02 b = [hex_digit (unat b div 16), hex_digit (unat b mod 16)]"

text \<open>\<open>%x\<close> and \<open>PRIx64\<close>.\<close>

fun hex_digits :: "nat \<Rightarrow> string" where
  "hex_digits n = (if n < 16 then [hex_digit n] else hex_digits (n div 16) @ [hex_digit (n mod 16)])"

declare hex_digits.simps [simp del]

text \<open>A line of \<open>log\<close>: the message behind an indentation of two blanks per level, with a newline when the
  lines go to standard output.\<close>

definition log_line :: "bool \<Rightarrow> u8 \<Rightarrow> string \<Rightarrow> string" where
  "log_line print_to_stdout indent msg =
     replicate (2 * unat indent) (CHR '' '') @ msg @ (if print_to_stdout then ''\<newline>'' else [])"

text \<open>The loops that list the registers of a mask: the first argument names a register, the last one is
  \<open>add_comma\<close>.\<close>

fun mask_names :: "(nat \<Rightarrow> string) \<Rightarrow> 'a::len word \<Rightarrow> nat list \<Rightarrow> bool \<Rightarrow> string" where
  "mask_names nm m [] add_comma = []"
| "mask_names nm m (i # is) add_comma =
     (if bit m i then (if add_comma then '', '' else []) @ nm i @ mask_names nm m is True
      else mask_names nm m is add_comma)"

end
