(* ===== verification/ArmExidx.thy ===== *)
theory ArmExidx
  imports Regs Machine Log_Format
begin

text \<open>
  The unwinder for ARM exception tables (\<open>ArmExidx.h\<close>, \<open>ArmExidx.cpp\<close>): extraction of the bytecode of a table
  entry, and its execution on the registers and the virtual stack pointer \<open>cfa_\<close>. A function that
  returns \<open>false\<close> is an operation with outcome \<open>Fail\<close>, the status says why (also when the bytecode is
  finished). Where a read from process memory fails, the register it goes to keeps its value.
\<close>

section \<open>Data\<close>

datatype ArmStatus =
    ARM_STATUS_NONE
  | ARM_STATUS_NO_UNWIND
  | ARM_STATUS_FINISH
  | ARM_STATUS_RESERVED
  | ARM_STATUS_SPARE
  | ARM_STATUS_TRUNCATED
  | ARM_STATUS_READ_FAILED
  | ARM_STATUS_MALFORMED
  | ARM_STATUS_INVALID_ALIGNMENT
  | ARM_STATUS_INVALID_PERSONALITY

definition ARM_OP_FINISH :: u8 where
  "ARM_OP_FINISH = 0xb0"

text \<open>The members of the class, the memories and registers it points to, and the lines of the log.\<close>

record arm_exidx =
  arm_regs :: "32 regs"
  arm_cfa :: u32
  arm_data :: "u8 list"
  arm_status :: ArmStatus
  arm_elf_memory :: memory
  arm_process_memory :: memory
  arm_log :: bool
  arm_log_indent :: u8
  arm_log_skip_execution :: bool
  arm_pc_set :: bool
  arm_out :: "(u8 \<times> string) list"

definition new_ArmExidx :: "32 regs \<Rightarrow> memory \<Rightarrow> memory \<Rightarrow> arm_exidx" where
  "new_ArmExidx regs elf_memory process_memory =
     \<lparr>arm_regs = regs, arm_cfa = 0, arm_data = [], arm_status = ARM_STATUS_NONE, arm_elf_memory = elf_memory,
      arm_process_memory = process_memory, arm_log = False, arm_log_indent = 0, arm_log_skip_execution = False,
      arm_pc_set = False, arm_out = []\<rparr>"

definition set_cfa :: "u32 \<Rightarrow> arm_exidx \<Rightarrow> arm_exidx" where
  "set_cfa v s = s\<lparr>arm_cfa := v\<rparr>"

definition set_pc_set :: "bool \<Rightarrow> arm_exidx \<Rightarrow> arm_exidx" where
  "set_pc_set v s = s\<lparr>arm_pc_set := v\<rparr>"

definition set_log :: "bool \<Rightarrow> arm_exidx \<Rightarrow> arm_exidx" where
  "set_log v s = s\<lparr>arm_log := v\<rparr>"

definition set_log_skip_execution :: "bool \<Rightarrow> arm_exidx \<Rightarrow> arm_exidx" where
  "set_log_skip_execution v s = s\<lparr>arm_log_skip_execution := v\<rparr>"

definition set_log_indent :: "u8 \<Rightarrow> arm_exidx \<Rightarrow> arm_exidx" where
  "set_log_indent v s = s\<lparr>arm_log_indent := v\<rparr>"

section \<open>Primitives\<close>

text \<open>\<open>if (log_) log(log_indent_, msg)\<close>.\<close>

definition log_if :: "string \<Rightarrow> (arm_exidx, unit) op" where
  "log_if msg = modify (\<lambda>s. if arm_log s then s\<lparr>arm_out := arm_out s @ [(arm_log_indent s, msg)]\<rparr> else s)"

text \<open>\<open>if (log_) { log(..); if (log_skip_execution_) return true; } body\<close>.\<close>

definition log_and_run :: "string \<Rightarrow> (arm_exidx, unit) op \<Rightarrow> (arm_exidx, unit) op" where
  "log_and_run msg body = rbind (log_if msg) (\<lambda>_ s.
     if arm_log s \<and> arm_log_skip_execution s then (Ret (), s) else body s)"

definition arm_fail :: "ArmStatus \<Rightarrow> (arm_exidx, 'a) op" where
  "arm_fail st s = (Fail, s\<lparr>arm_status := st\<rparr>)"

definition arm_CHECK :: "bool \<Rightarrow> (arm_exidx, unit) op" where
  "arm_CHECK b = (if b then rret () else rabort)"

text \<open>\<open>cfa_ += n\<close>.\<close>

definition add_cfa :: "u32 \<Rightarrow> (arm_exidx, unit) op" where
  "add_cfa n = modify (\<lambda>s. s\<lparr>arm_cfa := arm_cfa s + n\<rparr>)"

definition arm_reg_value :: "nat \<Rightarrow> (arm_exidx, u32) op" where
  "arm_reg_value i s = (regs_at (arm_regs s) i, s)"

text \<open>A read of elf or process memory with its failure handler.\<close>

definition arm_Read32 :: "(arm_exidx \<Rightarrow> memory) \<Rightarrow> u32 \<Rightarrow> (arm_exidx, u32) op" where
  "arm_Read32 m addr = on_fail (\<lambda>s. s\<lparr>arm_status := ARM_STATUS_READ_FAILED\<rparr>)
     (\<lambda>s. (mem_Read32 (m s) (ucast addr), s))"

text \<open>\<open>process_memory_->Read32(cfa_, &(*regs_)[reg])\<close>, then \<open>cfa_ += 4\<close>.\<close>

definition arm_pop :: "nat \<Rightarrow> (arm_exidx, unit) op" where
  "arm_pop reg = rbind (\<lambda>s. arm_Read32 arm_process_memory (arm_cfa s) s) (\<lambda>v.
     rbind (on_part arm_regs (\<lambda>r s. s\<lparr>arm_regs := r\<rparr>) (regs_put reg v)) (\<lambda>_. add_cfa 4))"

text \<open>The loop over the registers in the second argument that pops those in the mask.\<close>

fun arm_pop_mask :: "'a::len word \<Rightarrow> nat list \<Rightarrow> (arm_exidx, unit) op" where
  "arm_pop_mask registers [] = rret ()"
| "arm_pop_mask registers (reg # regs) =
     rbind (if bit registers reg then arm_pop reg else rret ()) (\<lambda>_. arm_pop_mask registers regs)"

fun arm_pops :: "nat list \<Rightarrow> (arm_exidx, unit) op" where
  "arm_pops [] = rret ()"
| "arm_pops (reg # regs) = rbind (arm_pop reg) (\<lambda>_. arm_pops regs)"

section \<open>ExtractEntryData\<close>

definition LogRawData :: "(arm_exidx, unit) op" where
  "LogRawData s = log_if (''Raw Data:'' @ concat (map (\<lambda>b. '' 0x'' @ hex02 b) (arm_data s))) s"

definition push_data :: "u8 list \<Rightarrow> (arm_exidx, unit) op" where
  "push_data bs = modify (\<lambda>s. s\<lparr>arm_data := arm_data s @ bs\<rparr>)"

text \<open>\<open>(data >> n) & 0xff\<close>.\<close>

definition byte_of :: "nat \<Rightarrow> u32 \<Rightarrow> u8" where
  "byte_of n data = ucast (drop_bit n data)"

text \<open>The bytecode gets a finish operation if it does not end with one.\<close>

definition push_finish :: "(arm_exidx, unit) op" where
  "push_finish s =
     (if arm_data s = [] then (Undef, s)
      else if last (arm_data s) \<noteq> ARM_OP_FINISH then push_data [ARM_OP_FINISH] s
      else (Ret (), s))"

text \<open>The loop over the words of the table.\<close>

fun extract_words :: "nat \<Rightarrow> u32 \<Rightarrow> (arm_exidx, unit) op" where
  "extract_words 0 addr = rret ()"
| "extract_words (Suc n) addr =
     rbind (arm_Read32 arm_elf_memory addr) (\<lambda>data.
       rbind (push_data [byte_of 24 data, byte_of 16 data, byte_of 8 data, byte_of 0 data]) (\<lambda>_.
         extract_words n (addr + 4)))"

text \<open>The number of table words and their address, for the entry at \<open>addr\<close> that starts with \<open>data\<close>.\<close>

definition extract_header :: "u32 \<Rightarrow> u32 \<Rightarrow> (arm_exidx, nat \<times> u32) op" where
  "extract_header data addr =
     (if bit data 31 then
        (let personality = drop_bit 24 data AND 0xf in
         if personality = 0 then
           rbind (push_data [byte_of 16 data, byte_of 8 data, byte_of 0 data]) (\<lambda>_. rret (0, addr))
         else if personality = 1 \<or> personality = 2 then
           rbind (push_data [byte_of 8 data, byte_of 0 data]) (\<lambda>_. rret (unat (byte_of 16 data), addr + 4))
         else arm_fail ARM_STATUS_INVALID_PERSONALITY)
      else
        rbind (arm_Read32 arm_elf_memory (addr + 4)) (\<lambda>data.
          rbind (push_data [byte_of 16 data, byte_of 8 data, byte_of 0 data]) (\<lambda>_.
            rret (unat (byte_of 24 data), addr + 4 + 4))))"

definition extract_table :: "u32 \<Rightarrow> (arm_exidx, unit) op" where
  "extract_table addr =
     rbind (arm_Read32 arm_elf_memory addr) (\<lambda>data.
       rbind (extract_header data addr) (\<lambda>(num_table_words, addr).
         if num_table_words > 5 then arm_fail ARM_STATUS_MALFORMED
         else rbind (extract_words num_table_words addr) (\<lambda>_.
           rbind push_finish (\<lambda>_. LogRawData))))"

definition extract_inline :: "u32 \<Rightarrow> (arm_exidx, unit) op" where
  "extract_inline data =
     (if drop_bit 24 data AND 0xf \<noteq> 0 then arm_fail ARM_STATUS_INVALID_PERSONALITY
      else rbind (push_data [byte_of 16 data, byte_of 8 data, byte_of 0 data]) (\<lambda>_.
        rbind push_finish (\<lambda>_. LogRawData)))"

definition extract_entry :: "u32 \<Rightarrow> (arm_exidx, unit) op" where
  "extract_entry entry_offset =
     (if bit entry_offset 0 then arm_fail ARM_STATUS_INVALID_ALIGNMENT
      else rbind (arm_Read32 arm_elf_memory (entry_offset + 4)) (\<lambda>data.
        if data = 1 then
          rbind (log_if ''Raw Data: 0x00 0x00 0x00 0x01'') (\<lambda>_.
            rbind (log_if ''[cantunwind]'') (\<lambda>_. arm_fail ARM_STATUS_NO_UNWIND))
        else if bit data 31 then extract_inline data
        else extract_table (entry_offset + 4 + signed_drop_bit 1 (push_bit 1 data))))"

definition ExtractEntryData :: "u32 \<Rightarrow> (arm_exidx, unit) op" where
  "ExtractEntryData entry_offset =
     rbind (modify (\<lambda>s. s\<lparr>arm_data := [], arm_status := ARM_STATUS_NONE\<rparr>)) (\<lambda>_. extract_entry entry_offset)"

section \<open>Decode\<close>

definition GetByte :: "(arm_exidx, u8) op" where
  "GetByte s =
     (case arm_data s of
        [] \<Rightarrow> arm_fail ARM_STATUS_TRUNCATED s
      | b # bs \<Rightarrow> (Ret b, s\<lparr>arm_data := bs\<rparr>))"

definition spare :: "(arm_exidx, unit) op" where
  "spare = rbind (log_if ''Spare'') (\<lambda>_. arm_fail ARM_STATUS_SPARE)"

text \<open>The execution of a pop of the registers under the mask: \<open>sp\<close> becomes the \<open>cfa_\<close>, \<open>pc\<close> is recorded.\<close>

definition pop_integer_registers :: "u16 \<Rightarrow> (arm_exidx, unit) op" where
  "pop_integer_registers registers =
     rbind (arm_pop_mask registers [4..<16]) (\<lambda>_.
       rbind (if bit registers (arm_reg ARM_REG_SP) then
                rbind (arm_reg_value (arm_reg ARM_REG_SP)) (\<lambda>sp. modify (\<lambda>s. s\<lparr>arm_cfa := sp\<rparr>))
              else rret ()) (\<lambda>_.
         if bit registers (arm_reg ARM_REG_PC) then modify (\<lambda>s. s\<lparr>arm_pc_set := True\<rparr>) else rret ()))"

definition DecodePrefix_10_00 :: "u8 \<Rightarrow> (arm_exidx, unit) op" where
  "DecodePrefix_10_00 byte =
     rbind (arm_CHECK (drop_bit 4 byte = 0x8)) (\<lambda>_. rbind GetByte (\<lambda>byte2.
       let registers = push_bit 8 (ucast (byte AND 0xf)) OR ucast byte2 :: u16 in
       if registers = 0 then
         rbind (log_if ''Refuse to unwind'') (\<lambda>_. arm_fail ARM_STATUS_NO_UNWIND)
       else
         log_and_run (''pop {'' @ mask_names (\<lambda>i. ''r'' @ dec (i + 4)) registers [0..<12] False @ ''}'')
           (pop_integer_registers (push_bit 4 registers))))"

definition DecodePrefix_10_01 :: "u8 \<Rightarrow> (arm_exidx, unit) op" where
  "DecodePrefix_10_01 byte =
     rbind (arm_CHECK (drop_bit 4 byte = 0x9)) (\<lambda>_.
       let bits = byte AND 0xf in
       if bits = 13 \<or> bits = 15 then
         rbind (log_if ''[Reserved]'') (\<lambda>_. arm_fail ARM_STATUS_RESERVED)
       else
         log_and_run (''vsp = r'' @ dec (unat bits))
           (rbind (arm_reg_value (unat bits)) (\<lambda>v. modify (\<lambda>s. s\<lparr>arm_cfa := v\<rparr>))))"

definition DecodePrefix_10_10 :: "u8 \<Rightarrow> (arm_exidx, unit) op" where
  "DecodePrefix_10_10 byte =
     rbind (arm_CHECK (drop_bit 4 byte = 0xa)) (\<lambda>_.
       let end_reg = unat (byte AND 0x7) in
       log_and_run (''pop {r4'' @ (if end_reg \<noteq> 0 then ''-r'' @ dec (4 + end_reg) else []) @
           (if bit byte 3 then '', r14}'' else ''}''))
         (rbind (arm_pops [4..<5 + end_reg]) (\<lambda>_.
           if bit byte 3 then arm_pop (arm_reg ARM_REG_R14) else rret ())))"

definition DecodePrefix_10_11_0000 :: "(arm_exidx, unit) op" where
  "DecodePrefix_10_11_0000 = rbind (log_if ''finish'') (\<lambda>_. arm_fail ARM_STATUS_FINISH)"

definition DecodePrefix_10_11_0001 :: "(arm_exidx, unit) op" where
  "DecodePrefix_10_11_0001 =
     rbind GetByte (\<lambda>byte.
       if byte = 0 then spare
       else if drop_bit 4 byte \<noteq> 0 then spare
       else log_and_run (''pop {'' @ mask_names (\<lambda>i. ''r'' @ dec i) byte [0..<4] False @ ''}'')
         (arm_pop_mask byte [0..<4]))"

text \<open>The loop that reads a ULEB128 number; \<open>(byte & 0x7f) << shift\<close> is undefined for a shift by 32 or
  more, and when the value does not fit 32 bits.\<close>

fun arm_uleb_loop :: "u8 list \<Rightarrow> u32 \<Rightarrow> nat \<Rightarrow> u32 res \<times> u8 list" where
  "arm_uleb_loop [] result shift = (Fail, [])"
| "arm_uleb_loop (byte # bs) result shift =
     (if 32 \<le> shift \<or> 2 ^ 32 \<le> unat (byte AND 0x7f) * 2 ^ shift then (Undef, bs)
      else
        let result = result OR push_bit shift (ucast (byte AND 0x7f)) in
        if byte AND 0x80 \<noteq> 0 then arm_uleb_loop bs result (shift + 7) else (Ret result, bs))"

definition arm_ReadULEB :: "(arm_exidx, u32) op" where
  "arm_ReadULEB = on_fail (\<lambda>s. s\<lparr>arm_status := ARM_STATUS_TRUNCATED\<rparr>)
     (on_part arm_data (\<lambda>d s. s\<lparr>arm_data := d\<rparr>) (\<lambda>d. arm_uleb_loop d 0 0))"

definition DecodePrefix_10_11_0010 :: "(arm_exidx, unit) op" where
  "DecodePrefix_10_11_0010 =
     rbind arm_ReadULEB (\<lambda>result.
       let result = push_bit 2 result in
       log_and_run (''vsp = vsp + '' @ dec_int (sint (0x204 + result))) (add_cfa (0x204 + result)))"

definition DecodePrefix_10_11_0011 :: "(arm_exidx, unit) op" where
  "DecodePrefix_10_11_0011 =
     rbind GetByte (\<lambda>byte.
       let start_reg = unat (drop_bit 4 byte); end_reg = start_reg + unat (byte AND 0xf) in
       log_and_run (''pop {d'' @ dec start_reg @ (if end_reg \<noteq> 0 then ''-d'' @ dec end_reg else []) @ ''}'')
         (add_cfa (ucast (byte AND 0xf) * 8 + 12)))"

definition DecodePrefix_10_11_01nn :: "(arm_exidx, unit) op" where
  "DecodePrefix_10_11_01nn = spare"

definition DecodePrefix_10_11_1nnn :: "u8 \<Rightarrow> (arm_exidx, unit) op" where
  "DecodePrefix_10_11_1nnn byte =
     rbind (arm_CHECK (byte AND NOT 0x07 = 0xb8)) (\<lambda>_.
       let last_reg = unat (byte AND 0x7) in
       log_and_run (''pop {d8'' @ (if last_reg \<noteq> 0 then ''-d'' @ dec (last_reg + 8) else []) @ ''}'')
         (add_cfa (ucast (byte AND 0x7) * 8 + 12)))"

definition DecodePrefix_10 :: "u8 \<Rightarrow> (arm_exidx, unit) op" where
  "DecodePrefix_10 byte =
     rbind (arm_CHECK (drop_bit 6 byte = 0x2)) (\<lambda>_.
       let hi = drop_bit 4 byte AND 0x3; lo = byte AND 0xf in
       if hi = 0 then DecodePrefix_10_00 byte
       else if hi = 1 then DecodePrefix_10_01 byte
       else if hi = 2 then DecodePrefix_10_10 byte
       else if lo = 0 then DecodePrefix_10_11_0000
       else if lo = 1 then DecodePrefix_10_11_0001
       else if lo = 2 then DecodePrefix_10_11_0010
       else if lo = 3 then DecodePrefix_10_11_0011
       else if bit byte 3 then DecodePrefix_10_11_1nnn byte
       else DecodePrefix_10_11_01nn)"

text \<open>\<open>__builtin_popcount\<close>.\<close>

definition popcount :: "u8 \<Rightarrow> nat" where
  "popcount b = length (filter (bit b) [0..<8])"

definition DecodePrefix_11_000 :: "u8 \<Rightarrow> (arm_exidx, unit) op" where
  "DecodePrefix_11_000 byte =
     rbind (arm_CHECK (byte AND NOT 0x07 = 0xc0)) (\<lambda>_.
       let bits = byte AND 0x7 in
       if bits = 6 then
         rbind GetByte (\<lambda>byte.
           let start_reg = unat (drop_bit 4 byte); end_reg = unat (byte AND 0xf) in
           log_and_run (''pop {wR'' @ dec start_reg @
               (if end_reg \<noteq> 0 then ''-wR'' @ dec (start_reg + end_reg) else []) @ ''}'')
             (add_cfa (ucast (byte AND 0xf) * 8 + 8)))
       else if bits = 7 then
         rbind GetByte (\<lambda>byte.
           if byte = 0 then spare
           else if drop_bit 4 byte = 0 then
             rbind (log_if (''pop {'' @ mask_names (\<lambda>i. ''wCGR'' @ dec i) byte [0..<4] False @ ''}'')) (\<lambda>_.
               add_cfa (of_nat (popcount byte) * 4))
           else spare)
       else
         let nnn = unat bits in
         log_and_run (''pop {wR10'' @ (if nnn \<noteq> 0 then ''-wR'' @ dec (10 + nnn) else []) @ ''}'')
           (add_cfa (ucast bits * 8 + 8)))"

definition DecodePrefix_11_001 :: "u8 \<Rightarrow> (arm_exidx, unit) op" where
  "DecodePrefix_11_001 byte =
     rbind (arm_CHECK (byte AND NOT 0x07 = 0xc8)) (\<lambda>_.
       let bits = byte AND 0x7 in
       if bits = 0 then
         rbind GetByte (\<lambda>byte.
           let start_reg = unat (drop_bit 4 byte); end_reg = unat (byte AND 0xf) in
           log_and_run (''pop {d'' @ dec (16 + start_reg) @
               (if end_reg \<noteq> 0 then ''-d'' @ dec (16 + start_reg + end_reg) else []) @ ''}'')
             (add_cfa (ucast (byte AND 0xf) * 8 + 8)))
       else if bits = 1 then
         rbind GetByte (\<lambda>byte.
           let start_reg = unat (drop_bit 4 byte); end_reg = unat (byte AND 0xf) in
           log_and_run (''pop {d'' @ dec start_reg @
               (if end_reg \<noteq> 0 then ''-d'' @ dec (start_reg + end_reg) else []) @ ''}'')
             (add_cfa (ucast (byte AND 0xf) * 8 + 8)))
       else spare)"

definition DecodePrefix_11_010 :: "u8 \<Rightarrow> (arm_exidx, unit) op" where
  "DecodePrefix_11_010 byte =
     rbind (arm_CHECK (byte AND NOT 0x07 = 0xd0)) (\<lambda>_.
       let end_reg = unat (byte AND 0x7) in
       log_and_run (''pop {d8'' @ (if end_reg \<noteq> 0 then ''-d'' @ dec (8 + end_reg) else []) @ ''}'')
         (add_cfa (ucast (byte AND 0x7) * 8 + 8)))"

definition DecodePrefix_11 :: "u8 \<Rightarrow> (arm_exidx, unit) op" where
  "DecodePrefix_11 byte =
     rbind (arm_CHECK (drop_bit 6 byte = 0x3)) (\<lambda>_.
       let hi = drop_bit 3 byte AND 0x7 in
       if hi = 0 then DecodePrefix_11_000 byte
       else if hi = 1 then DecodePrefix_11_001 byte
       else if hi = 2 then DecodePrefix_11_010 byte
       else spare)"

text \<open>What \<open>Decode\<close> does with the first byte.\<close>

definition arm_dispatch :: "u8 \<Rightarrow> (arm_exidx, unit) op" where
  "arm_dispatch byte =
     (let hi = drop_bit 6 byte; n = push_bit 2 (ucast (byte AND 0x3f)) + 4 :: u32 in
      if hi = 0 then log_and_run (''vsp = vsp + '' @ dec (unat n)) (add_cfa n)
      else if hi = 1 then log_and_run (''vsp = vsp - '' @ dec (unat n)) (add_cfa (- n))
      else if hi = 2 then DecodePrefix_10 byte
      else DecodePrefix_11 byte)"

definition arm_Decode :: "(arm_exidx, unit) op" where
  "arm_Decode =
     rbind (modify (\<lambda>s. s\<lparr>arm_status := ARM_STATUS_NONE\<rparr>)) (\<lambda>_. rbind GetByte arm_dispatch)"

section \<open>Consumption of the bytecode\<close>

text \<open>No operation of the decoder adds to the data, and \<open>GetByte\<close> takes one byte away: this is the
  termination of \<open>Eval\<close>.\<close>

definition consumes :: "(arm_exidx, 'a) op \<Rightarrow> bool" where
  "consumes f \<longleftrightarrow> (\<forall>s. length (arm_data (snd (f s))) \<le> length (arm_data s))"

lemma consumesD: "consumes f \<Longrightarrow> f s = (r, s') \<Longrightarrow> length (arm_data s') \<le> length (arm_data s)"
  unfolding consumes_def by (drule spec [of _ s]) simp

lemma consumes_keeps: "keeps arm_data f \<Longrightarrow> consumes f"
  by (simp add: consumes_def keeps_def)

lemma consumes_rbind:
  assumes "consumes f" and "\<And>v. consumes (g v)"
  shows "consumes (rbind f g)"
  unfolding consumes_def
proof
  fix s
  obtain q s1 where q: "f s = (q, s1)" by fastforce
  have "length (arm_data (snd (g v s1))) \<le> length (arm_data s1)" for v using assms(2) by (simp add: consumes_def)
  then show "length (arm_data (snd (rbind f g s))) \<le> length (arm_data s)"
    using q consumesD [OF assms(1) q] by (cases q) (auto simp: rbind_def intro: le_trans)
qed

lemma consumes_if: "(b \<Longrightarrow> consumes f) \<Longrightarrow> (\<not> b \<Longrightarrow> consumes g) \<Longrightarrow> consumes (if b then f else g)"
  by simp

lemma keeps_arm_data [keeps_rules]:
  "keeps arm_data (log_if msg)" "keeps arm_data (arm_fail st)" "keeps arm_data (arm_CHECK b)" "keeps arm_data (add_cfa n)"
  "keeps arm_data (arm_reg_value i)" "keeps arm_data (arm_Read32 m addr)"
  "keeps arm_data (modify (\<lambda>s. s\<lparr>arm_cfa := c\<rparr>))" "keeps arm_data (modify (\<lambda>s. s\<lparr>arm_pc_set := b\<rparr>))"
  "keeps arm_data (modify (\<lambda>s. s\<lparr>arm_status := st\<rparr>))"
  by (auto simp: keeps_def log_if_def modify_def arm_fail_def arm_CHECK_def rret_def rabort_def add_cfa_def
      arm_reg_value_def arm_Read32_def on_fail_def split: res.split)

lemma keeps_arm_pop [keeps_rules]: "keeps arm_data (arm_pop r)"
proof -
  have "keeps arm_data (\<lambda>s. arm_Read32 arm_process_memory (arm_cfa s) s)"
    using keeps_arm_data(6) by (simp add: keeps_def)
  then show ?thesis unfolding arm_pop_def by (intro keeps_rules) (auto intro: keeps_rules)
qed

lemma keeps_arm_pop_mask [keeps_rules]: "keeps arm_data (arm_pop_mask m rs)" "keeps arm_data (arm_pops rs)"
  by (induction rs) (auto intro!: keeps_rules)

lemma keeps_pop_integer_registers [keeps_rules]: "keeps arm_data (pop_integer_registers r)" "keeps arm_data spare"
  unfolding pop_integer_registers_def spare_def by (intro keeps_rules)+

lemma keeps_log_and_run [keeps_rules]:
  assumes "keeps arm_data body"
  shows "keeps arm_data (log_and_run msg body)"
proof -
  have "keeps arm_data (\<lambda>s. if arm_log s \<and> arm_log_skip_execution s then (Ret (), s) else body s)"
    using assms by (simp add: keeps_def)
  then show ?thesis unfolding log_and_run_def by (intro keeps_rules)
qed

lemma consumes_GetByte: "consumes GetByte"
  by (simp add: consumes_def GetByte_def arm_fail_def split: list.split)

lemma arm_uleb_loop_length: "arm_uleb_loop bs r n = (q, bs') \<Longrightarrow> length bs' \<le> length bs"
  by (induction bs r n rule: arm_uleb_loop.induct) (auto simp: Let_def split: if_splits)

lemma consumes_arm_ReadULEB: "consumes arm_ReadULEB"
  by (auto simp: consumes_def arm_ReadULEB_def on_fail_def on_part_def split: prod.split res.split dest: arm_uleb_loop_length)

lemmas consumes_rules = consumes_rbind consumes_if consumes_GetByte consumes_arm_ReadULEB keeps_rules [THEN consumes_keeps]

lemmas arm_decoders = DecodePrefix_10_00_def DecodePrefix_10_01_def DecodePrefix_10_10_def DecodePrefix_10_11_0000_def
  DecodePrefix_10_11_0001_def DecodePrefix_10_11_0010_def DecodePrefix_10_11_0011_def DecodePrefix_10_11_01nn_def
  DecodePrefix_10_11_1nnn_def DecodePrefix_11_000_def DecodePrefix_11_001_def DecodePrefix_11_010_def

lemma consumes_prefixes: "consumes (DecodePrefix_10 b)" "consumes (DecodePrefix_11 b)"
  unfolding DecodePrefix_10_def DecodePrefix_11_def arm_decoders Let_def
  by (intro consumes_rules consumes_keeps keeps_rules)+

lemma arm_Decode_run:
  "arm_Decode s =
     (case arm_data s of
        [] \<Rightarrow> (Fail, s\<lparr>arm_status := ARM_STATUS_TRUNCATED\<rparr>)
      | b # bs \<Rightarrow> arm_dispatch b (s\<lparr>arm_status := ARM_STATUS_NONE, arm_data := bs\<rparr>))"
  by (simp add: arm_Decode_def rbind_def modify_def GetByte_def arm_fail_def split: list.split)

lemma consumes_arm_dispatch: "consumes (arm_dispatch b)"
  unfolding arm_dispatch_def Let_def by (intro consumes_rules consumes_prefixes consumes_keeps keeps_rules)

lemma arm_Decode_consumes:
  assumes "arm_Decode s = (r, s')" and "is_Ret r"
  shows "length (arm_data s') < length (arm_data s)"
  using assms consumesD [OF consumes_arm_dispatch]
  by (auto simp: arm_Decode_run split: list.splits) (metis arm_exidx.select_convs(3) arm_exidx.surjective arm_exidx.update_convs(3) less_Suc_eq_le)

section \<open>Eval\<close>

function arm_Eval_loop :: "(arm_exidx, unit) op" where
  "arm_Eval_loop s =
     (case arm_Decode s of
        (Ret _, s') \<Rightarrow> arm_Eval_loop s'
      | (Fail, s') \<Rightarrow> (Ret (), s')
      | (Abort, s') \<Rightarrow> (Abort, s')
      | (Undef, s') \<Rightarrow> (Undef, s'))"
  by pat_completeness auto
termination
  by (relation "measure (\<lambda>s. length (arm_data s))") (auto dest!: sym [of "(Ret _, _)"] arm_Decode_consumes)

declare arm_Eval_loop.simps [simp del]

definition arm_Eval :: "(arm_exidx, bool) op" where
  "arm_Eval = rbind (modify (\<lambda>s. s\<lparr>arm_pc_set := False\<rparr>)) (\<lambda>_.
     rbind arm_Eval_loop (\<lambda>_ s. (Ret (arm_status s = ARM_STATUS_FINISH), s)))"

end
