(* ===== verification/ArmExidx_Insn.thy ===== *)
theory ArmExidx_Insn
  imports ArmExidx DwarfMemory
begin

text \<open>
  The bytecode of ARM exception tables as a set of instructions, with their encoding and their meaning
  on the registers and the virtual stack pointer, and the proof that \<open>Decode\<close> and \<open>Eval\<close> implement it.
\<close>

section \<open>Instructions\<close>

text \<open>The instructions of the bytecode of the ARM exception handling ABI, with the fields of their encodings.\<close>

datatype arm_insn =
    VspAdd u8 | VspSub u8
  | PopMask u16 | SetVsp u8 | PopRange u8 bool | PopLow u8
  | VspAddLarge u32
  | PopVfpX u8 u8 | PopD8X u8
  | PopWmmx u8 u8 | PopWcgr u8 | PopWmmx10 u8
  | PopD16 u8 u8 | PopD u8 u8 | PopD8 u8

definition nibbles :: "u8 \<Rightarrow> u8 \<Rightarrow> u8" where
  "nibbles hi lo = push_bit 4 hi OR lo"

primrec arm_encode :: "arm_insn \<Rightarrow> u8 list" where
  "arm_encode (VspAdd n) = [n]"
| "arm_encode (VspSub n) = [0x40 OR n]"
| "arm_encode (PopMask m) = [0x80 OR ucast (drop_bit 8 m), ucast m]"
| "arm_encode (SetVsp r) = [0x90 OR r]"
| "arm_encode (PopRange n lr) = [(if lr then 0xa8 else 0xa0) OR n]"
| "arm_encode (PopLow m) = [0xb1, m]"
| "arm_encode (VspAddLarge n) = 0xb2 # uleb_encode (unat n)"
| "arm_encode (PopVfpX d n) = [0xb3, nibbles d n]"
| "arm_encode (PopD8X n) = [0xb8 OR n]"
| "arm_encode (PopWmmx d n) = [0xc6, nibbles d n]"
| "arm_encode (PopWcgr m) = [0xc7, m]"
| "arm_encode (PopWmmx10 n) = [0xc0 OR n]"
| "arm_encode (PopD16 d n) = [0xc8, nibbles d n]"
| "arm_encode (PopD d n) = [0xc9, nibbles d n]"
| "arm_encode (PopD8 n) = [0xd0 OR n]"

primrec arm_insn_ok :: "arm_insn \<Rightarrow> bool" where
  "arm_insn_ok (VspAdd n) = (n < 0x40)"
| "arm_insn_ok (VspSub n) = (n < 0x40)"
| "arm_insn_ok (PopMask m) = (m \<noteq> 0 \<and> m < 0x1000)"
| "arm_insn_ok (SetVsp r) = (r < 16 \<and> r \<noteq> 13 \<and> r \<noteq> 15)"
| "arm_insn_ok (PopRange n lr) = (n < 8)"
| "arm_insn_ok (PopLow m) = (m \<noteq> 0 \<and> m < 16)"
| "arm_insn_ok (VspAddLarge n) = True"
| "arm_insn_ok (PopVfpX d n) = (d < 16 \<and> n < 16)"
| "arm_insn_ok (PopD8X n) = (n < 8)"
| "arm_insn_ok (PopWmmx d n) = (d < 16 \<and> n < 16)"
| "arm_insn_ok (PopWcgr m) = (m \<noteq> 0 \<and> m < 16)"
| "arm_insn_ok (PopWmmx10 n) = (n < 6)"
| "arm_insn_ok (PopD16 d n) = (d < 16 \<and> n < 16)"
| "arm_insn_ok (PopD d n) = (d < 16 \<and> n < 16)"
| "arm_insn_ok (PopD8 n) = (n < 8)"

section \<open>Meaning\<close>

record arm_frame =
  af_regs :: "u32 list"
  af_vsp :: u32
  af_pc_set :: bool

definition word_at :: "memory \<Rightarrow> u32 \<Rightarrow> u32 option" where
  "word_at m a = (case mem_Read32 m (ucast a) of Ret v \<Rightarrow> Some v | _ \<Rightarrow> None)"

text \<open>Popping registers: their values are the consecutive words at the virtual stack pointer.\<close>

definition popped :: "memory \<Rightarrow> u32 \<Rightarrow> nat list \<Rightarrow> u32 list option" where
  "popped m vsp rs = those (map (\<lambda>k. word_at m (vsp + 4 * of_nat k)) [0..<length rs])"

definition store_regs :: "nat list \<Rightarrow> u32 list \<Rightarrow> u32 list \<Rightarrow> u32 list" where
  "store_regs rs vs R = fold (\<lambda>(r, v) R. R[r := v]) (zip rs vs) R"

definition pop_regs :: "memory \<Rightarrow> nat list \<Rightarrow> arm_frame \<Rightarrow> arm_frame option" where
  "pop_regs m rs f = map_option (\<lambda>vs. f\<lparr>af_regs := store_regs rs vs (af_regs f),
     af_vsp := af_vsp f + 4 * of_nat (length rs)\<rparr>) (popped m (af_vsp f) rs)"

definition skip_vsp :: "u32 \<Rightarrow> arm_frame \<Rightarrow> arm_frame option" where
  "skip_vsp n f = Some (f\<lparr>af_vsp := af_vsp f + n\<rparr>)"

primrec arm_exec :: "memory \<Rightarrow> arm_insn \<Rightarrow> arm_frame \<Rightarrow> arm_frame option" where
  "arm_exec m (VspAdd n) f = skip_vsp (ucast n * 4 + 4) f"
| "arm_exec m (VspSub n) f = skip_vsp (- (ucast n * 4 + 4)) f"
| "arm_exec m (PopMask w) f =
     map_option (\<lambda>f. f\<lparr>af_vsp := (if bit w 9 then af_regs f ! 13 else af_vsp f), af_pc_set := af_pc_set f \<or> bit w 11\<rparr>)
       (pop_regs m (filter (\<lambda>r. bit w (r - 4)) [4..<16]) f)"
| "arm_exec m (SetVsp r) f = Some (f\<lparr>af_vsp := af_regs f ! unat r\<rparr>)"
| "arm_exec m (PopRange n lr) f = pop_regs m ([4..<5 + unat n] @ (if lr then [14] else [])) f"
| "arm_exec m (PopLow w) f = pop_regs m (filter (bit w) [0..<4]) f"
| "arm_exec m (VspAddLarge n) f = skip_vsp (0x204 + n * 4) f"
| "arm_exec m (PopVfpX d n) f = skip_vsp (ucast n * 8 + 12) f"
| "arm_exec m (PopD8X n) f = skip_vsp (ucast n * 8 + 12) f"
| "arm_exec m (PopWmmx d n) f = skip_vsp (ucast n * 8 + 8) f"
| "arm_exec m (PopWcgr w) f = skip_vsp (of_nat (popcount w) * 4) f"
| "arm_exec m (PopWmmx10 n) f = skip_vsp (ucast n * 8 + 8) f"
| "arm_exec m (PopD16 d n) f = skip_vsp (ucast n * 8 + 8) f"
| "arm_exec m (PopD d n) f = skip_vsp (ucast n * 8 + 8) f"
| "arm_exec m (PopD8 n) f = skip_vsp (ucast n * 8 + 8) f"

primrec arm_execs :: "memory \<Rightarrow> arm_insn list \<Rightarrow> arm_frame \<Rightarrow> arm_frame option" where
  "arm_execs m [] f = Some f"
| "arm_execs m (i # is) f = (case arm_exec m i f of None \<Rightarrow> None | Some f' \<Rightarrow> arm_execs m is f')"

section \<open>Execution of the primitives\<close>

definition arm_frame_of :: "arm_exidx \<Rightarrow> arm_frame" where
  "arm_frame_of s = \<lparr>af_regs = regs_data (arm_regs s), af_vsp = arm_cfa s, af_pc_set = arm_pc_set s\<rparr>"

text \<open>What execution never changes, and what it relies on: sixteen registers, and no skipping of the
  execution.\<close>

definition arm_env :: "arm_exidx \<Rightarrow> _" where
  "arm_env s = (arm_elf_memory s, arm_process_memory s, arm_log s, arm_log_skip_execution s, length (regs_data (arm_regs s)))"

definition arm_ready :: "arm_exidx \<Rightarrow> bool" where
  "arm_ready s \<longleftrightarrow> length (regs_data (arm_regs s)) = 16 \<and> \<not> (arm_log s \<and> arm_log_skip_execution s)"

definition arm_runs :: "(arm_exidx, unit) op \<Rightarrow> arm_exidx \<Rightarrow> u8 list \<Rightarrow> arm_frame \<Rightarrow> bool" where
  "arm_runs f s rest st \<longleftrightarrow> (\<exists>s'. f s = (Ret (), s') \<and> arm_frame_of s' = st \<and> arm_data s' = rest \<and> arm_env s' = arm_env s)"

lemma arm_runs_log_and_run:
  assumes "arm_ready s" and "\<And>s'. arm_frame_of s' = arm_frame_of s \<Longrightarrow> arm_data s' = arm_data s \<Longrightarrow> arm_env s' = arm_env s \<Longrightarrow>
    arm_runs body s' rest st"
  shows "arm_runs (log_and_run msg body) s rest st"
proof -
  obtain s1 where s1: "log_if msg s = (Ret (), s1)" "arm_frame_of s1 = arm_frame_of s" "arm_data s1 = arm_data s" "arm_env s1 = arm_env s"
    by (auto simp: log_if_def modify_def arm_frame_of_def arm_env_def)
  have "\<not> (arm_log s1 \<and> arm_log_skip_execution s1)" using assms(1) s1(4) by (simp add: arm_ready_def arm_env_def)
  then show ?thesis using assms(2) [OF s1(2-4)] s1(1,4) by (auto simp: arm_runs_def log_and_run_def)
qed

lemma arm_runs_add_cfa: "arm_runs (add_cfa n) s (arm_data s) ((arm_frame_of s)\<lparr>af_vsp := arm_cfa s + n\<rparr>)"
  by (simp add: arm_runs_def add_cfa_def modify_def arm_frame_of_def arm_env_def)

lemma rret_rbind: "rbind (rret v) f = f v"
  by (simp add: rbind_def rret_def fun_eq_iff)

lemma arm_pop_mask_eq: "arm_pop_mask m rs = arm_pops (filter (bit m) rs)"
  by (induction rs) (auto simp: rret_rbind)

lemma arm_pop_run:
  assumes "word_at (arm_process_memory s) (arm_cfa s) = Some v" and "r < length (regs_data (arm_regs s))"
  shows "arm_pop r s = (Ret (), s\<lparr>arm_regs := (arm_regs s)\<lparr>regs_data := (regs_data (arm_regs s))[r := v]\<rparr>, arm_cfa := arm_cfa s + 4\<rparr>)"
  using assms by (simp add: arm_pop_def arm_Read32_def on_fail_def word_at_def rbind_def on_part_def regs_put_def add_cfa_def modify_def
      split: res.splits)

lemma popped_Cons:
  "popped m vsp (r # rs) =
     (case word_at m vsp of None \<Rightarrow> None | Some v \<Rightarrow> map_option ((#) v) (popped m (vsp + 4) rs))"
proof -
  have "map (\<lambda>k. word_at m (vsp + 4 * of_nat k)) [0..<Suc (length rs)] =
      word_at m vsp # map (\<lambda>k. word_at m (vsp + 4 + 4 * of_nat k)) [0..<length rs]"
    by (subst map_upt_Suc) (simp add: algebra_simps)
  then show ?thesis by (simp add: popped_def del: upt_Suc split: option.split)
qed

lemma arm_pops_run:
  assumes "popped (arm_process_memory s) (arm_cfa s) rs = Some vs" and "\<forall>r \<in> set rs. r < length (regs_data (arm_regs s))"
  shows "arm_pops rs s = (Ret (), s\<lparr>arm_regs := (arm_regs s)\<lparr>regs_data := store_regs rs vs (regs_data (arm_regs s))\<rparr>,
    arm_cfa := arm_cfa s + 4 * of_nat (length rs)\<rparr>)"
  using assms
proof (induction rs arbitrary: s vs)
  case Nil
  then show ?case by (simp add: rret_def store_regs_def popped_def)
next
  case (Cons r rs)
  then obtain v vs' where v: "word_at (arm_process_memory s) (arm_cfa s) = Some v"
    "popped (arm_process_memory s) (arm_cfa s + 4) rs = Some vs'" "vs = v # vs'"
    by (auto simp: popped_Cons split: option.splits)
  show ?case
    using Cons.prems(2) v arm_pop_run [OF v(1), of r]
      Cons.IH [of "s\<lparr>arm_regs := (arm_regs s)\<lparr>regs_data := (regs_data (arm_regs s))[r := v]\<rparr>, arm_cfa := arm_cfa s + 4\<rparr>" vs']
    by (simp add: store_regs_def algebra_simps)
qed

lemma arm_runs_pops:
  assumes "pop_regs (arm_process_memory s) rs (arm_frame_of s) = Some st" and "\<forall>r \<in> set rs. r < 16" and "arm_ready s"
  shows "arm_runs (arm_pops rs) s (arm_data s) st"
proof -
  obtain vs where vs: "popped (arm_process_memory s) (arm_cfa s) rs = Some vs"
    "st = \<lparr>af_regs = store_regs rs vs (regs_data (arm_regs s)), af_vsp = arm_cfa s + 4 * of_nat (length rs), af_pc_set = arm_pc_set s\<rparr>"
    using assms(1) by (auto simp: pop_regs_def arm_frame_of_def)
  have "length (store_regs rs vs R) = length R" for R
    unfolding store_regs_def by (induction rs vs arbitrary: R rule: list_induct2') auto
  then show ?thesis
    using arm_pops_run [OF vs(1)] assms(2,3) vs(2)
    by (simp add: arm_runs_def arm_frame_of_def arm_env_def arm_ready_def)
qed

section \<open>Decoding\<close>

lemma all_bytes:
  assumes "list_all (\<lambda>k. P (of_nat k :: u8)) [0..<n]" and "unat b < n"
  shows "P b"
proof -
  have "unat b \<in> set [0..<n]" using assms(2) by simp
  then have "P (of_nat (unat b))" using assms(1) unfolding list_all_iff by (rule bspec [rotated])
  then show ?thesis unfolding of_nat_unat ucast_id .
qed

lemma few_bytes:
  shows "list_all (\<lambda>k. P (of_nat k :: u8)) [0..<64] \<Longrightarrow> b < 0x40 \<Longrightarrow> P b"
    and "list_all (\<lambda>k. P (of_nat k :: u8)) [0..<16] \<Longrightarrow> b < 16 \<Longrightarrow> P b"
    and "list_all (\<lambda>k. P (of_nat k :: u8)) [0..<8] \<Longrightarrow> b < 8 \<Longrightarrow> P b"
  by (erule all_bytes, simp add: word_less_nat_alt)+

lemma six_bit_forms:
  fixes n :: u8
  shows "n < 0x40 \<Longrightarrow> drop_bit 6 n = 0 \<and> n AND 0x3f = n"
    and "n < 0x40 \<Longrightarrow> drop_bit 6 (0x40 OR n) = 1 \<and> (0x40 OR n) AND 0x3f = n"
  by (erule few_bytes(1) [rotated], code_simp)+

lemma four_bit_forms:
  fixes n :: u8
  shows "n < 16 \<Longrightarrow> drop_bit 6 (0x80 OR n) = 2 \<and> drop_bit 4 (0x80 OR n) = 8 \<and> (0x80 OR n) AND 0xf = n"
    and "n < 16 \<Longrightarrow> drop_bit 6 (0x90 OR n) = 2 \<and> drop_bit 4 (0x90 OR n) = 9 \<and> (0x90 OR n) AND 0xf = n"
    and "n < 16 \<Longrightarrow> n AND 0xf = n \<and> drop_bit 4 n = 0"
  by (erule few_bytes(2) [rotated], code_simp)+

lemma three_bit_forms:
  fixes n :: u8
  shows "n < 8 \<Longrightarrow> drop_bit 6 (0xa0 OR n) = 2 \<and> drop_bit 4 (0xa0 OR n) = 10 \<and> (0xa0 OR n) AND 0x7 = n \<and> \<not> bit (0xa0 OR n) 3"
    and "n < 8 \<Longrightarrow> drop_bit 6 (0xa8 OR n) = 2 \<and> drop_bit 4 (0xa8 OR n) = 10 \<and> (0xa8 OR n) AND 0x7 = n \<and> bit (0xa8 OR n) 3"
    and "n < 8 \<Longrightarrow> drop_bit 6 (0xb8 OR n) = 2 \<and> drop_bit 4 (0xb8 OR n) = 11 \<and> (0xb8 OR n) AND 0xf \<noteq> 0 \<and>
      (0xb8 OR n) AND 0xf \<noteq> 1 \<and> (0xb8 OR n) AND 0xf \<noteq> 2 \<and> (0xb8 OR n) AND 0xf \<noteq> 3 \<and>
      (0xb8 OR n) AND 0x7 = n \<and> bit (0xb8 OR n) 3 \<and> (0xb8 OR n) AND NOT 7 = 0xb8"
    and "n < 8 \<Longrightarrow> drop_bit 6 (0xc0 OR n) = 3 \<and> drop_bit 3 (0xc0 OR n) AND 7 = 0 \<and> (0xc0 OR n) AND 0x7 = n \<and> (0xc0 OR n) AND NOT 7 = 0xc0"
    and "n < 8 \<Longrightarrow> drop_bit 6 (0xd0 OR n) = 3 \<and> drop_bit 3 (0xd0 OR n) AND 7 = 2 \<and> (0xd0 OR n) AND 0x7 = n \<and> (0xd0 OR n) AND NOT 7 = 0xd0"
  by (erule few_bytes(3) [rotated], code_simp)+

lemma nibbles_low:
  assumes "n < 16"
  shows "nibbles d n AND 0xf = n"
proof -
  have "push_bit 4 d AND 0xf = 0" by (simp add: u8_bits bit_push_bit_iff)
  then show ?thesis using four_bit_forms(3) [OF assms] by (simp add: nibbles_def bit.conj_disj_distrib2)
qed

lemmas arm_dispatch_defs = arm_dispatch_def DecodePrefix_10_def DecodePrefix_11_def arm_decoders arm_CHECK_def rret_rbind Let_def

lemma pop_mask_bytes:
  fixes m :: u16
  assumes "m < 0x1000"
  shows "(ucast (drop_bit 8 m) :: u8) < 16" and "push_bit 8 (ucast (ucast (drop_bit 8 m) :: u8)) OR ucast (ucast m :: u8) = m"
proof -
  have "unat m < 4096" using assms by (simp add: word_less_nat_alt)
  then have "unat m div 256 < 16" by auto
  then have "unat (drop_bit 8 m) < 16" by (simp add: drop_bit_eq_div unat_div)
  moreover have "unat (ucast (drop_bit 8 m) :: u8) \<le> unat (drop_bit 8 m)"
    by (simp only: unsigned_ucast_eq take_bit_nat_less_eq_self)
  ultimately have "unat (ucast (drop_bit 8 m) :: u8) < 16" by simp
  then show "(ucast (drop_bit 8 m) :: u8) < 16" by (simp add: word_less_nat_alt)
  show "push_bit 8 (ucast (ucast (drop_bit 8 m) :: u8)) OR ucast (ucast m :: u8) = m"
    by (rule bit_word_eqI) (auto simp: bit_simps)
qed

lemma arm_runs_GetByte:
  assumes "arm_data s = b # bs" and "arm_runs (g b) (s\<lparr>arm_data := bs\<rparr>) rest st"
  shows "arm_runs (rbind GetByte g) s rest st"
  using assms by (auto simp: arm_runs_def GetByte_def rbind_def arm_env_def)

lemma arm_runs_skip:
  assumes "arm_ready s"
  shows "arm_runs (log_and_run msg (add_cfa n)) s (arm_data s) ((arm_frame_of s)\<lparr>af_vsp := arm_cfa s + n\<rparr>)"
proof (rule arm_runs_log_and_run [OF assms])
  fix s'
  assume a: "arm_frame_of s' = arm_frame_of s" "arm_data s' = arm_data s"
  from a(1) have "arm_cfa s' = arm_cfa s" by (simp add: arm_frame_of_def)
  then show "arm_runs (add_cfa n) s' (arm_data s) ((arm_frame_of s)\<lparr>af_vsp := arm_cfa s + n\<rparr>)"
    using arm_runs_add_cfa [of n s'] a by simp
qed

lemma arm_runs_pops_logged:
  assumes "arm_ready s" and "pop_regs (arm_process_memory s) rs (arm_frame_of s) = Some st" and "\<forall>r \<in> set rs. r < 16"
  shows "arm_runs (log_and_run msg (arm_pops rs)) s (arm_data s) st"
proof (rule arm_runs_log_and_run [OF assms(1)])
  fix s'
  assume a: "arm_frame_of s' = arm_frame_of s" "arm_data s' = arm_data s" "arm_env s' = arm_env s"
  then have "arm_process_memory s' = arm_process_memory s" "arm_ready s'"
    using assms(1) by (simp_all add: arm_env_def arm_ready_def)
  then show "arm_runs (arm_pops rs) s' (arm_data s) st"
    using arm_runs_pops [of s' rs st] assms(2,3) a by simp
qed

lemma pop_integer_registers_runs:
  assumes "arm_ready s" and "arm_exec (arm_process_memory s) (PopMask m) (arm_frame_of s) = Some st" and "m < 0x1000"
  shows "arm_runs (pop_integer_registers (push_bit 4 m)) s (arm_data s) st"
proof -
  define rs where "rs = filter (bit (push_bit 4 m)) [4..<16]"
  have rs: "filter (\<lambda>r. bit m (r - 4)) [4..<16] = rs" and rs16: "\<forall>r \<in> set rs. r < 16"
    unfolding rs_def by (rule filter_cong) (auto simp: bit_simps)
  obtain st1 where st1: "pop_regs (arm_process_memory s) rs (arm_frame_of s) = Some st1"
    "st = st1\<lparr>af_vsp := (if bit m 9 then af_regs st1 ! 13 else af_vsp st1), af_pc_set := af_pc_set st1 \<or> bit m 11\<rparr>"
    using assms(2) unfolding arm_exec.simps rs by auto
  obtain s1 where s1: "arm_pops rs s = (Ret (), s1)" "arm_frame_of s1 = st1" "arm_data s1 = arm_data s" "arm_env s1 = arm_env s"
    using arm_runs_pops [OF st1(1) rs16 assms(1)] by (auto simp: arm_runs_def)
  have l: "length (regs_data (arm_regs s1)) = 16" using s1(4) assms(1) by (simp add: arm_env_def arm_ready_def)
  have b: "bit (push_bit 4 m) 13 = bit m 9" "bit (push_bit 4 m) 15 = bit m 11" by (simp_all add: bit_simps)
  show ?thesis
    using s1 l st1(2) unfolding arm_runs_def pop_integer_registers_def arm_pop_mask_eq rs_def [symmetric]
    by (auto simp: b rbind_def rret_def modify_def arm_reg_value_def regs_at_def arm_frame_of_def arm_env_def)
qed

lemma or_shifted_eq_add:
  fixes r x :: u32
  assumes "unat r < 2 ^ n"
  shows "r OR push_bit n x = r + push_bit n x"
proof -
  have "take_bit n r = r"
    by (rule unsigned_word_eqI [where 'a = nat]) (simp add: unsigned_take_bit_eq take_bit_nat_eq_self assms)
  then have "bit r k \<Longrightarrow> k < n" for k by (metis bit_take_bit_iff)
  then have "\<not> bit r k \<or> \<not> bit (push_bit n x) k" for k by (meson bit_push_bit_iff leD)
  then show ?thesis by (intro disjunctive_add [symmetric])
qed

lemma unat_add_of_nat_le: "unat (r + of_nat m) \<le> unat (r :: u32) + m"
proof -
  have "unat (r + of_nat m) \<le> unat r + unat (of_nat m :: u32)" by (simp add: unat_word_ariths(1))
  also have "unat (of_nat m :: u32) \<le> m" by (simp add: unsigned_of_nat)
  finally show ?thesis by simp
qed

lemma arm_uleb_loop_encode:
  assumes "v * 2 ^ n < 2 ^ 32" and "n < 32" and "unat r < 2 ^ n"
  shows "arm_uleb_loop (uleb_encode v @ rest) r n = (Ret (r + of_nat (v * 2 ^ n)), rest)"
  using assms
proof (induction v arbitrary: r n rule: uleb_encode.induct)
  case (1 v)
  let ?d = "v mod 128"
  have d: "?d < 128" by simp
  have vd: "v = ?d + 128 * (v div 128)" by simp
  then have le: "?d * 2 ^ n \<le> v * 2 ^ n" by simp
  have p: "r OR push_bit n (ucast (b AND 0x7f)) = r + of_nat (?d * 2 ^ n)" if "unat (b AND 0x7f :: u8) = ?d" for b
    using or_shifted_eq_add [OF "1.prems"(3), of "ucast (b AND 0x7f)"] that
    by (simp add: push_bit_eq_mult) (metis of_nat_unat)
  show ?case
  proof (cases "v < 128")
    case True
    then show ?thesis
      using leb_digit_bits(1,2) [OF True] "1.prems" p [of "of_nat v"] by (simp add: uleb_encode.simps [of v] Let_def)
  next
    case False
    then have "1 \<le> v div 128" by simp
    have "2 ^ (n + 7) \<le> v * 2 ^ n" using False by (simp add: power_add)
    then have n7: "2 ^ (n + 7) < (2 :: nat) ^ 32" using "1.prems"(1) by linarith
    then have "n + 7 < 32" using power_less_imp_less_exp [OF _ n7] by simp
    moreover have "unat (r + of_nat (?d * 2 ^ n)) < 2 ^ (n + 7)"
    proof -
      have "unat (r + of_nat (?d * 2 ^ n)) \<le> unat r + ?d * 2 ^ n" by (rule unat_add_of_nat_le)
      moreover have "?d * 2 ^ n \<le> 127 * 2 ^ n" using d by (intro mult_right_mono) simp_all
      moreover have "(2 :: nat) ^ (n + 7) = 128 * 2 ^ n" by (simp add: power_add)
      ultimately show ?thesis using "1.prems"(3) by linarith
    qed
    moreover have "v div 128 * 2 ^ (n + 7) \<le> v * 2 ^ n" by (simp add: power_add)
    ultimately have IH: "arm_uleb_loop (uleb_encode (v div 128) @ rest) (r + of_nat (?d * 2 ^ n)) (n + 7) =
        (Ret (r + of_nat (?d * 2 ^ n) + of_nat (v div 128 * 2 ^ (n + 7))), rest)"
      using "1.IH" [OF False] "1.prems"(1) by simp
    have "v * 2 ^ n = ?d * 2 ^ n + v div 128 * 2 ^ (n + 7)" 
    proof -
      have "(d + 128 * q) * 2 ^ n = d * 2 ^ n + q * 2 ^ (n + 7)" for d q :: nat by (simp add: power_add algebra_simps)
      from this [of ?d "v div 128"] show ?thesis unfolding vd [symmetric] .
    qed
    then show ?thesis
      using False leb_digit_bits(3,4) [OF d] "1.prems" p [of "of_nat (?d + 128)"] IH le
      by (simp add: uleb_encode.simps [of v] Let_def add.assoc)
  qed
qed

lemma arm_ReadULEB_run:
  "arm_data s = uleb_encode (unat n) @ rest \<Longrightarrow> arm_ReadULEB s = (Ret n, s\<lparr>arm_data := rest\<rparr>)"
  using arm_uleb_loop_encode [of "unat n" 0 0 rest] unsigned_less [of n, where 'a = nat]
  by (simp add: arm_ReadULEB_def on_fail_def on_part_def)

lemma arm_Decode_byte:
  assumes "arm_data s = b # bs" and "\<And>s'. arm_data s' = bs \<Longrightarrow> arm_frame_of s' = arm_frame_of s \<Longrightarrow> arm_env s' = arm_env s \<Longrightarrow>
     arm_runs (arm_dispatch b) s' rest st"
  shows "arm_runs arm_Decode s rest st"
  using assms(2) [of "s\<lparr>arm_status := ARM_STATUS_NONE, arm_data := bs\<rparr>"] assms(1)
  by (simp add: arm_runs_def arm_Decode_run arm_frame_of_def arm_env_def)

lemma arm_runs_GetByte_skip:
  assumes "arm_ready s" and "arm_data s = b # rest" and "st = (arm_frame_of s)\<lparr>af_vsp := arm_cfa s + n b\<rparr>"
  shows "arm_runs (rbind GetByte (\<lambda>b. log_and_run (msg b) (add_cfa (n b)))) s rest st"
proof (rule arm_runs_GetByte [OF assms(2)])
  have "arm_ready (s\<lparr>arm_data := rest\<rparr>)" using assms(1) by (simp add: arm_ready_def)
  from arm_runs_skip [OF this]
  show "arm_runs (log_and_run (msg b) (add_cfa (n b))) (s\<lparr>arm_data := rest\<rparr>) rest st"
    using assms(3) by (simp add: arm_frame_of_def)
qed

text \<open>The instructions that only move the stack pointer.\<close>

lemma arm_skip_dispatch:
  assumes "arm_insn_ok i" and "arm_ready t" and "arm_encode i = b # bs" and "arm_data t = bs @ rest"
    and "arm_exec (arm_process_memory t) i (arm_frame_of t) = Some st"
    and "case i of PopMask _ \<Rightarrow> False | SetVsp _ \<Rightarrow> False | PopRange _ _ \<Rightarrow> False | PopLow _ \<Rightarrow> False | VspAddLarge _ \<Rightarrow> False
      | PopWcgr _ \<Rightarrow> False | _ \<Rightarrow> True"
  shows "arm_runs (arm_dispatch b) t rest st"
proof -
  have c: "af_vsp (arm_frame_of t) = arm_cfa t" by (simp add: arm_frame_of_def)
  note skip = arm_runs_skip [OF assms(2)] and skip2 = arm_runs_GetByte_skip [OF assms(2), where rest = rest]
  note defs = arm_dispatch_defs skip_vsp_def push_bit_eq_mult
  show ?thesis
  proof (cases i)
    case (VspAdd n)
    then show ?thesis using assms(1,3-5) c skip six_bit_forms(1) [of n] by (auto simp: defs)
  next
    case (VspSub n)
    then show ?thesis using assms(1,3-5) c skip six_bit_forms(2) [of n] by (auto simp: defs)
  next
    case (PopVfpX d n)
    then show ?thesis using assms(1,3-5) c nibbles_low [of n d] by (auto simp: defs intro!: skip2)
  next
    case (PopD8X n)
    then show ?thesis using assms(1,3-5) c skip three_bit_forms(3) [of n] by (auto simp: defs)
  next
    case (PopWmmx d n)
    then show ?thesis using assms(1,3-5) c nibbles_low [of n d] by (auto simp: defs intro!: skip2)
  next
    case (PopWmmx10 n)
    then have "n < 8" "n \<noteq> 6" "n \<noteq> 7" using assms(1) by (auto simp: word_less_nat_alt)
    then show ?thesis using PopWmmx10 assms(1,3-5) c skip three_bit_forms(4) [of n] by (auto simp: defs)
  next
    case (PopD16 d n)
    then show ?thesis using assms(1,3-5) c nibbles_low [of n d] by (auto simp: defs intro!: skip2)
  next
    case (PopD d n)
    then show ?thesis using assms(1,3-5) c nibbles_low [of n d] by (auto simp: defs intro!: skip2)
  next
    case (PopD8 n)
    then show ?thesis using assms(1,3-5) c skip three_bit_forms(5) [of n] by (auto simp: defs)
  qed (use assms(6) in simp_all)
qed

lemma arm_PopMask_dispatch:
  assumes "arm_insn_ok (PopMask m)" and "arm_ready t" and "arm_data t = ucast m # rest"
    and "arm_exec (arm_process_memory t) (PopMask m) (arm_frame_of t) = Some st"
  shows "arm_runs (arm_dispatch (0x80 OR ucast (drop_bit 8 m))) t rest st"
proof -
  let ?t = "t\<lparr>arm_data := rest\<rparr>"
  have m: "m < 0x1000" "m \<noteq> 0" using assms(1) by simp_all
  have r: "arm_ready ?t" using assms(2) by (simp add: arm_ready_def)
  have "arm_runs (log_and_run msg (pop_integer_registers (push_bit 4 m))) ?t rest st" for msg
  proof (rule arm_runs_log_and_run [OF r])
    fix u
    assume u: "arm_frame_of u = arm_frame_of ?t" "arm_data u = arm_data ?t" "arm_env u = arm_env ?t"
    then have "arm_ready u" "arm_exec (arm_process_memory u) (PopMask m) (arm_frame_of u) = Some st"
      using r assms(4) by (simp_all add: arm_ready_def arm_env_def arm_frame_of_def del: arm_exec.simps)
    from pop_integer_registers_runs [OF this m(1)] u(2)
    show "arm_runs (pop_integer_registers (push_bit 4 m)) u rest st" by simp
  qed
  then show ?thesis
    using four_bit_forms(1) [OF pop_mask_bytes(1) [OF m(1)]] pop_mask_bytes(2) [OF m(1)] m(2)
    by (simp add: arm_dispatch_defs arm_runs_GetByte [OF assms(3)])
qed

lemma arm_SetVsp_runs:
  assumes "arm_ready t" and "r < 16"
  shows "arm_runs (log_and_run msg (rbind (arm_reg_value r) (\<lambda>v. modify (\<lambda>s. s\<lparr>arm_cfa := v\<rparr>)))) t (arm_data t)
    ((arm_frame_of t)\<lparr>af_vsp := regs_data (arm_regs t) ! r\<rparr>)"
proof (rule arm_runs_log_and_run [OF assms(1)])
  fix u
  assume u: "arm_frame_of u = arm_frame_of t" "arm_data u = arm_data t" "arm_env u = arm_env t"
  then have "regs_data (arm_regs u) = regs_data (arm_regs t)" "r < length (regs_data (arm_regs u))"
    using assms by (simp_all add: arm_ready_def arm_frame_of_def)
  then show "arm_runs (rbind (arm_reg_value r) (\<lambda>v. modify (\<lambda>s. s\<lparr>arm_cfa := v\<rparr>))) u (arm_data t)
      ((arm_frame_of t)\<lparr>af_vsp := regs_data (arm_regs t) ! r\<rparr>)"
    using u by (simp add: arm_runs_def arm_reg_value_def regs_at_def rbind_def modify_def arm_frame_of_def arm_env_def)
qed

lemma arm_pops_append: "arm_pops (xs @ ys) = rbind (arm_pops xs) (\<lambda>_. arm_pops ys)"
  by (induction xs) (auto simp: rret_rbind rbind_def fun_eq_iff split: prod.split res.split)

lemma arm_pops_single: "arm_pops [r] = arm_pop r"
  by (auto simp: rbind_def rret_def fun_eq_iff split: prod.split res.split)

lemma rbind_rret: "rbind f rret = f"
  by (auto simp: rbind_def rret_def fun_eq_iff split: prod.split res.split)

text \<open>The remaining instructions.\<close>

lemma arm_other_dispatch:
  assumes "arm_insn_ok i" and "arm_ready t" and "arm_encode i = b # bs" and "arm_data t = bs @ rest"
    and "arm_exec (arm_process_memory t) i (arm_frame_of t) = Some st"
    and "case i of SetVsp _ \<Rightarrow> True | PopRange _ _ \<Rightarrow> True | PopLow _ \<Rightarrow> True | VspAddLarge _ \<Rightarrow> True | PopWcgr _ \<Rightarrow> True | _ \<Rightarrow> False"
  shows "arm_runs (arm_dispatch b) t rest st"
proof (cases i)
  case (SetVsp r)
  then show ?thesis using assms(1,3-5) arm_SetVsp_runs [OF assms(2), of "unat r"] four_bit_forms(2) [of r]
    by (auto simp: arm_dispatch_defs word_less_nat_alt arm_frame_of_def)
next
  case (PopRange n lr)
  have "arm_runs (log_and_run msg (arm_pops ([4..<5 + unat n] @ (if lr then [14] else [])))) t rest st" for msg
    using arm_runs_pops_logged [OF assms(2), of "[4..<5 + unat n] @ (if lr then [14] else [])" st msg] assms(1,3-5) PopRange
    by (auto simp: word_less_nat_alt simp del: upt_Suc split: if_splits)
  then show ?thesis using PopRange assms(1,3) three_bit_forms(1,2) [of n]
    by (cases lr) (simp_all add: arm_dispatch_defs arm_pops_append arm_pops_single rbind_rret
        del: upt_Suc arm_pops.simps split del: if_split)
next
  case (PopLow m)
  let ?t = "t\<lparr>arm_data := rest\<rparr>"
  have "arm_runs (log_and_run msg (arm_pops (filter (bit m) [0..<4]))) ?t rest st" for msg
    using arm_runs_pops_logged [of ?t "filter (bit m) [0..<4]" st msg] assms(2,5) PopLow by (simp add: arm_ready_def arm_frame_of_def)
  moreover have "arm_data t = m # rest" using assms(3,4) PopLow by auto
  ultimately show ?thesis using PopLow assms(1,3) four_bit_forms(3) [of m]
    by (auto simp: arm_dispatch_defs arm_pop_mask_eq intro!: arm_runs_GetByte)
next
  case (VspAddLarge n)
  let ?t = "t\<lparr>arm_data := rest\<rparr>"
  have "arm_ReadULEB t = (Ret n, ?t)" using arm_ReadULEB_run [of t n rest] assms(3,4) VspAddLarge by simp
  moreover have "arm_runs (log_and_run msg (add_cfa (0x204 + push_bit 2 n))) ?t rest st" for msg
    using arm_runs_skip [of ?t] assms(2,5) VspAddLarge
    by (auto simp: arm_ready_def skip_vsp_def arm_frame_of_def push_bit_eq_mult)
  ultimately show ?thesis using VspAddLarge assms(3)
    by (simp add: arm_dispatch_defs arm_runs_def rbind_def arm_env_def)
next
  case (PopWcgr m)
  let ?t = "t\<lparr>arm_data := rest\<rparr>"
  have "arm_data t = m # rest" using assms(3,4) PopWcgr by auto
  then show ?thesis using PopWcgr assms(1,3,5) four_bit_forms(3) [of m]
    by (auto simp: arm_dispatch_defs arm_runs_def GetByte_def rbind_def log_if_def modify_def add_cfa_def skip_vsp_def arm_frame_of_def
        arm_env_def)
qed (use assms(6) in simp_all)

lemma arm_insn_runs:
  assumes "arm_insn_ok i" and "arm_ready s" and "arm_data s = arm_encode i @ rest"
    and "arm_exec (arm_process_memory s) i (arm_frame_of s) = Some st"
  shows "arm_runs arm_Decode s rest st"
proof -
  obtain b bs where b: "arm_encode i = b # bs" by (cases i) auto
  show ?thesis
  proof (rule arm_Decode_byte [of s b "bs @ rest"])
    fix t
    assume t: "arm_data t = bs @ rest" "arm_frame_of t = arm_frame_of s" "arm_env t = arm_env s"
    then have r: "arm_ready t" and x: "arm_exec (arm_process_memory t) i (arm_frame_of t) = Some st"
      using assms(2,4) by (simp_all add: arm_ready_def arm_env_def arm_frame_of_def)
    show "arm_runs (arm_dispatch b) t rest st"
      using arm_skip_dispatch [OF assms(1) r b t(1) x] arm_other_dispatch [OF assms(1) r b t(1) x]
        arm_PopMask_dispatch [OF _ r, of _ rest st] assms(1) b t(1) x
      by (cases i) (auto simp del: arm_exec.simps)
  qed (use assms(3) b in simp)
qed

end
