(* ===== verification/ArmExidx_Eval.thy ===== *)
theory ArmExidx_Eval
  imports ArmExidx_Insn
begin

text \<open>
  Evaluation of ARM bytecode as a whole: \<open>Eval\<close> refines the meaning of the instructions, never aborts, always
  records why it stopped, has undefined behaviour only on over-long ULEB128 operands; the extraction of the
  bytecode from a table entry; and the properties of \<open>ArmExidx\<close>.
\<close>

section \<open>Eval\<close>

lemma arm_Decode_finish:
  assumes "arm_data s = ARM_OP_FINISH # rest"
  shows "\<exists>s'. arm_Decode s = (Fail, s') \<and> arm_frame_of s' = arm_frame_of s \<and> arm_status s' = ARM_STATUS_FINISH \<and> arm_data s' = rest"
  using assms by (auto simp: arm_Decode_run ARM_OP_FINISH_def arm_dispatch_defs log_if_def modify_def rbind_def arm_fail_def arm_frame_of_def)

lemma arm_Eval_loop_refines:
  assumes "list_all arm_insn_ok is" and "arm_ready s" and "arm_data s = concat (map arm_encode is) @ ARM_OP_FINISH # rest"
    and "arm_execs (arm_process_memory s) is (arm_frame_of s) = Some st"
  shows "\<exists>s'. arm_Eval_loop s = (Ret (), s') \<and> arm_frame_of s' = st \<and> arm_status s' = ARM_STATUS_FINISH \<and> arm_data s' = rest"
  using assms
proof (induction "is" arbitrary: s)
  case Nil
  then show ?case using arm_Decode_finish [of s rest] by (auto simp: arm_Eval_loop.simps [of s])
next
  case (Cons i "is")
  obtain st1 where st1: "arm_exec (arm_process_memory s) i (arm_frame_of s) = Some st1" "arm_execs (arm_process_memory s) is st1 = Some st"
    using Cons.prems(4) by (auto split: option.splits)
  obtain s1 where s1: "arm_Decode s = (Ret (), s1)" "arm_frame_of s1 = st1" "arm_data s1 = concat (map arm_encode is) @ ARM_OP_FINISH # rest"
    "arm_env s1 = arm_env s"
    using arm_insn_runs [OF _ Cons.prems(2) _ st1(1)] Cons.prems(1,3) by (auto simp: arm_runs_def)
  have "arm_ready s1" "arm_process_memory s1 = arm_process_memory s" using s1(4) Cons.prems(2) by (simp_all add: arm_env_def arm_ready_def)
  with Cons.IH [of s1] Cons.prems(1) s1 st1(2) show ?case by (simp add: arm_Eval_loop.simps [of s])
qed

lemma arm_Eval_refines_frame:
  assumes "list_all arm_insn_ok is" and "arm_ready s" and "arm_data s = concat (map arm_encode is) @ ARM_OP_FINISH # rest"
    and "arm_execs (arm_process_memory s) is ((arm_frame_of s)\<lparr>af_pc_set := False\<rparr>) = Some st"
  shows "\<exists>s'. arm_Eval s = (Ret True, s') \<and> arm_frame_of s' = st \<and> arm_data s' = rest"
proof -
  have "\<exists>s'. arm_Eval_loop (s\<lparr>arm_pc_set := False\<rparr>) = (Ret (), s') \<and> arm_frame_of s' = st \<and> arm_status s' = ARM_STATUS_FINISH \<and> arm_data s' = rest"
    by (rule arm_Eval_loop_refines [OF assms(1)]) (use assms(2-4) in \<open>simp_all add: arm_ready_def arm_frame_of_def\<close>)
  then show ?thesis by (auto simp: arm_Eval_def modify_def rbind_def)
qed

section \<open>Outcomes\<close>

lemma mem_Read32_not_Abort: "mem_Read32 m a \<noteq> Abort"
  using mem_Read_not_Abort [of m a 4] by (cases "mem_Read m a 4") (simp_all add: mem_Read32_def)

lemma no_abort_arm_primitives [no_abort_rules]:
  "no_abort (log_if msg)" "no_abort (arm_fail st :: (arm_exidx, 'a) op)" "b \<Longrightarrow> no_abort (arm_CHECK b)" "no_abort (add_cfa n)"
  "no_abort (arm_reg_value i)" "no_abort (arm_Read32 m addr)" "no_abort (\<lambda>s. arm_Read32 m (c s) s)" "no_abort (regs_put i v)"
  "no_abort (modify h)" "no_abort GetByte"
  using mem_Read32_not_Abort
  by (auto simp: no_abort_def log_if_def modify_def arm_fail_def arm_CHECK_def rret_def add_cfa_def regs_put_def
      arm_reg_value_def regs_at_def arm_Read32_def on_fail_def GetByte_def split: res.split list.split)

lemma no_abort_arm_pop [no_abort_rules]: "no_abort (arm_pop r)"
  unfolding arm_pop_def by (intro no_abort_rules)

lemma no_abort_arm_pops [no_abort_rules]: "no_abort (arm_pop_mask m rs)" "no_abort (arm_pops rs)"
  by (induction rs) (auto intro!: no_abort_rules)

lemma no_abort_log_and_run [no_abort_rules]: "no_abort body \<Longrightarrow> no_abort (log_and_run msg body)"
  by (auto simp: no_abort_def log_and_run_def log_if_def modify_def rbind_def)

lemma arm_uleb_loop_not_Abort: "fst (arm_uleb_loop bs r n) \<noteq> Abort"
  by (induction bs r n rule: arm_uleb_loop.induct) (auto simp: Let_def)

lemma no_abort_arm_decoders [no_abort_rules]: "no_abort (pop_integer_registers m)" "no_abort spare" "no_abort arm_ReadULEB"
  unfolding pop_integer_registers_def spare_def arm_ReadULEB_def
  by (intro no_abort_rules | simp add: no_abort_def arm_uleb_loop_not_Abort)+

text \<open>The dispatch reaches a decoder only with a byte that passes its \<open>CHECK\<close>.\<close>

lemma arm_CHECKs:
  fixes b :: u8
  shows "drop_bit 6 b = 2 \<and> drop_bit 4 b AND 3 = 0 \<longrightarrow> drop_bit 4 b = 8"
    and "drop_bit 6 b = 2 \<and> drop_bit 4 b AND 3 = 1 \<longrightarrow> drop_bit 4 b = 9"
    and "drop_bit 6 b = 2 \<and> drop_bit 4 b AND 3 = 2 \<longrightarrow> drop_bit 4 b = 10"
    and "drop_bit 6 b = 2 \<and> drop_bit 4 b AND 3 \<noteq> 0 \<and> drop_bit 4 b AND 3 \<noteq> 1 \<and> drop_bit 4 b AND 3 \<noteq> 2 \<and> bit b 3 \<longrightarrow> b AND NOT 7 = 0xb8"
    and "drop_bit 6 b \<noteq> 0 \<and> drop_bit 6 b \<noteq> 1 \<and> drop_bit 6 b \<noteq> 2 \<longrightarrow> drop_bit 6 b = 3"
    and "drop_bit 6 b = 3 \<and> drop_bit 3 b AND 7 = 0 \<longrightarrow> b AND NOT 7 = 0xc0"
    and "drop_bit 6 b = 3 \<and> drop_bit 3 b AND 7 = 1 \<longrightarrow> b AND NOT 7 = 0xc8"
    and "drop_bit 6 b = 3 \<and> drop_bit 3 b AND 7 = 2 \<longrightarrow> b AND NOT 7 = 0xd0"
  by (auto simp: u8_bits)

lemma no_abort_arm_dispatch: "no_abort (arm_dispatch b)"
  unfolding arm_dispatch_def DecodePrefix_10_def DecodePrefix_11_def arm_decoders Let_def
  by (intro no_abort_rules) (use arm_CHECKs [of b] in blast)+

lemma no_abort_arm_Decode: "no_abort arm_Decode"
  unfolding arm_Decode_def by (intro no_abort_rules no_abort_arm_dispatch)

abbreviation "arm_reports \<equiv> reports arm_status ARM_STATUS_NONE"

lemma reports_arm_primitives [reports_rules]:
  "arm_reports (log_if msg)" "st \<noteq> ARM_STATUS_NONE \<Longrightarrow> arm_reports (arm_fail st :: (arm_exidx, 'a) op)" "arm_reports (arm_CHECK b)"
  "arm_reports (add_cfa n)" "arm_reports (arm_reg_value i)" "arm_reports (\<lambda>s. arm_Read32 m (c s) s)"
  "arm_reports (on_part arm_regs (\<lambda>r s. s\<lparr>arm_regs := r\<rparr>) (regs_put i v))"
  "arm_reports (modify (\<lambda>s. s\<lparr>arm_cfa := c'\<rparr>))" "arm_reports (modify (\<lambda>s. s\<lparr>arm_pc_set := p\<rparr>))" "arm_reports GetByte"
  by (auto simp: reports_def log_if_def modify_def arm_fail_def arm_CHECK_def rret_def rabort_def add_cfa_def on_part_def regs_put_def
      arm_reg_value_def regs_at_def arm_Read32_def on_fail_def GetByte_def split: res.split list.split)

lemma reports_arm_pop [reports_rules]: "arm_reports (arm_pop r)"
  unfolding arm_pop_def by (intro reports_rules)

lemma reports_arm_pops [reports_rules]: "arm_reports (arm_pop_mask m rs)" "arm_reports (arm_pops rs)"
  by (induction rs) (auto intro!: reports_rules)

lemma reports_log_and_run [reports_rules]: "arm_reports body \<Longrightarrow> arm_reports (log_and_run msg body)"
  by (auto simp: reports_def log_and_run_def log_if_def modify_def rbind_def)

lemma reports_arm_decoders [reports_rules]:
  "arm_reports (pop_integer_registers m)" "arm_reports spare" "arm_reports arm_ReadULEB"
proof -
  show "arm_reports arm_ReadULEB" unfolding arm_ReadULEB_def by (intro reports_rules keeps_rules) auto
qed (unfold pop_integer_registers_def spare_def, (intro reports_rules; simp)+)

lemma reports_arm_dispatch: "arm_reports (arm_dispatch b)"
  unfolding arm_dispatch_def DecodePrefix_10_def DecodePrefix_11_def arm_decoders Let_def
  by (intro reports_rules) simp_all

lemma arm_Decode_status:
  assumes "arm_Decode s = (Fail, s')"
  shows "arm_status s' \<noteq> ARM_STATUS_NONE"
  using assms reportsD(2) [OF reports_arm_dispatch] by (auto simp: arm_Decode_run split: list.splits)

lemma arm_Eval_loop_outcome:
  assumes "arm_Eval_loop s = (r, s')"
  shows "r \<in> {Ret (), Undef} \<and> (r = Ret () \<longrightarrow> arm_status s' \<noteq> ARM_STATUS_NONE)"
  using assms
proof (induction s rule: arm_Eval_loop.induct)
  case (1 s)
  show ?case
  proof (cases "arm_Decode s")
    case (Pair q t)
    then show ?thesis
      using "1.IH" [OF Pair [symmetric]] "1.prems" arm_Decode_status [of s t] no_abortD [OF no_abort_arm_Decode, of s t]
      by (cases q) (auto simp: arm_Eval_loop.simps [of s])
  qed
qed

subsection \<open>Undefined behaviour\<close>

text \<open>Register accesses are in range, since there are sixteen registers.\<close>

definition arm_safe :: "arm_exidx \<Rightarrow> bool" where
  "arm_safe s \<longleftrightarrow> length (regs_data (arm_regs s)) = 16 \<and> (\<forall>a. mem_Read32 (arm_process_memory s) a \<noteq> Undef)"

definition arm_defined :: "(arm_exidx, 'a) op \<Rightarrow> bool" where
  "arm_defined f \<longleftrightarrow> (\<forall>s. arm_safe s \<longrightarrow> fst (f s) \<noteq> Undef \<and> arm_safe (snd (f s)))"

lemma arm_definedD: "arm_defined f \<Longrightarrow> arm_safe s \<Longrightarrow> f s = (q, s') \<Longrightarrow> q \<noteq> Undef \<and> arm_safe s'"
  unfolding arm_defined_def by (drule spec [of _ s]) auto

lemma arm_defined_rbind:
  assumes "arm_defined f" and "\<And>v. arm_defined (g v)"
  shows "arm_defined (rbind f g)"
  unfolding arm_defined_def
proof (intro allI impI)
  fix s
  assume s: "arm_safe s"
  obtain q s1 where q: "f s = (q, s1)" by fastforce
  show "fst (rbind f g s) \<noteq> Undef \<and> arm_safe (snd (rbind f g s))"
    using arm_definedD [OF assms(1) s q] assms(2) q unfolding arm_defined_def by (cases q) (simp_all add: rbind_def)
qed

lemma arm_defined_if: "(b \<Longrightarrow> arm_defined f) \<Longrightarrow> (\<not> b \<Longrightarrow> arm_defined g) \<Longrightarrow> arm_defined (if b then f else g)"
  by simp

lemma arm_defined_basic:
  "arm_defined (rret v)" "arm_defined (log_if msg)" "arm_defined (arm_fail st :: (arm_exidx, 'a) op)" "arm_defined (arm_CHECK b)"
  "arm_defined (add_cfa n)" "i < 16 \<Longrightarrow> arm_defined (arm_reg_value i)" "arm_defined (\<lambda>s. arm_Read32 arm_process_memory (c s) s)"
  "i < 16 \<Longrightarrow> arm_defined (on_part arm_regs (\<lambda>r s. s\<lparr>arm_regs := r\<rparr>) (regs_put i v'))"
  "arm_defined (modify (\<lambda>s. s\<lparr>arm_cfa := c'\<rparr>))" "arm_defined (modify (\<lambda>s. s\<lparr>arm_pc_set := p\<rparr>))" "arm_defined GetByte"
  by (auto simp: arm_defined_def arm_safe_def log_if_def modify_def arm_fail_def arm_CHECK_def rret_def rabort_def add_cfa_def on_part_def
      regs_put_def arm_reg_value_def regs_at_def arm_Read32_def on_fail_def GetByte_def split: res.split list.split)

lemmas arm_defined_rules = arm_defined_rbind arm_defined_if arm_defined_basic

lemma arm_defined_pop: "r < 16 \<Longrightarrow> arm_defined (arm_pop r)"
  unfolding arm_pop_def by (intro arm_defined_rules)

lemma arm_defined_pops:
  "\<forall>r \<in> set rs. r < 16 \<Longrightarrow> arm_defined (arm_pop_mask m rs)" "\<forall>r \<in> set rs. r < 16 \<Longrightarrow> arm_defined (arm_pops rs)"
  by (induction rs) (auto intro!: arm_defined_rules arm_defined_pop)

lemma arm_defined_log_and_run: "arm_defined body \<Longrightarrow> arm_defined (log_and_run msg body)"
proof -
  assume "arm_defined body"
  then have "arm_defined (\<lambda>s. if arm_log s \<and> arm_log_skip_execution s then (Ret (), s) else body s)"
    by (simp add: arm_defined_def)
  then show ?thesis unfolding log_and_run_def by (intro arm_defined_rules)
qed

lemma unat_and_f: "unat (b AND 0xf :: u8) < 16" "unat (b AND 0x7 :: u8) < 8"
  using word_and_le1 [of b "0xf"] word_and_le1 [of b "0x7"] by (simp_all add: word_le_nat_alt)

lemma arm_defined_dispatch:
  assumes "b \<noteq> 0xb2"
  shows "arm_defined (arm_dispatch b)"
proof -
  have "drop_bit 6 b = 2 \<Longrightarrow> drop_bit 4 b AND 3 \<noteq> 0 \<Longrightarrow> drop_bit 4 b AND 3 \<noteq> 1 \<Longrightarrow> drop_bit 4 b AND 3 \<noteq> 2 \<Longrightarrow> b AND 0xf \<noteq> 2"
    using assms by (auto simp: u8_bits)
  then show ?thesis
    unfolding arm_dispatch_def DecodePrefix_10_def DecodePrefix_11_def arm_decoders Let_def pop_integer_registers_def spare_def
    using unat_and_f [of b]
    by (intro arm_defined_rules arm_defined_log_and_run arm_defined_pops arm_defined_pop) auto
qed

text \<open>The encodings of more than 32 bits.\<close>

fun arm_uleb_too_long :: "u8 list \<Rightarrow> bool" where
  "arm_uleb_too_long (a # b # c # d # e # rest) \<longleftrightarrow>
     a AND 0x80 \<noteq> 0 \<and> b AND 0x80 \<noteq> 0 \<and> c AND 0x80 \<noteq> 0 \<and> d AND 0x80 \<noteq> 0 \<and>
     (16 \<le> unat (e AND 0x7f) \<or> e AND 0x80 \<noteq> 0 \<and> rest \<noteq> [])"
| "arm_uleb_too_long _ \<longleftrightarrow> False"

lemma arm_uleb_shift_ok: "n \<le> 21 \<Longrightarrow> unat (b AND 0x7f :: u8) * 2 ^ n < 2 ^ 32"
proof -
  assume n: "n \<le> 21"
  have "unat (b AND 0x7f) \<le> 127" using word_and_le1 [of b "0x7f"] by (simp add: word_le_nat_alt)
  then have "unat (b AND 0x7f) * 2 ^ n \<le> 127 * 2 ^ n" by (rule mult_right_mono) simp
  also have "\<dots> \<le> 127 * 2 ^ 21" using n by (intro mult_left_mono power_increasing) auto
  finally show ?thesis by simp
qed

lemma arm_uleb_loop_step:
  "n \<le> 21 \<Longrightarrow> arm_uleb_loop (b # bs) r n =
     (if b AND 0x80 \<noteq> 0 then arm_uleb_loop bs (r OR push_bit n (ucast (b AND 0x7f))) (n + 7)
      else (Ret (r OR push_bit n (ucast (b AND 0x7f))), bs))"
  using arm_uleb_shift_ok [of n b] by (simp add: Let_def not_le)

lemma arm_uleb_loop_28: "fst (arm_uleb_loop bs r 28) = Undef \<longleftrightarrow>
   (case bs of [] \<Rightarrow> False | b # bs' \<Rightarrow> 16 \<le> unat (b AND 0x7f) \<or> b AND 0x80 \<noteq> 0 \<and> bs' \<noteq> [])"
proof (cases bs)
  case (Cons b bs')
  have "(2 :: nat) ^ 32 \<le> x * 2 ^ 28 \<longleftrightarrow> 16 \<le> x" for x by simp
  moreover have "fst (arm_uleb_loop bs' r 35) = Undef \<longleftrightarrow> bs' \<noteq> []" for r by (cases bs') simp_all
  ultimately show ?thesis using Cons by (auto simp: Let_def)
qed simp

lemma arm_uleb_Undef_iff: "fst (arm_uleb_loop bs 0 0) = Undef \<longleftrightarrow> arm_uleb_too_long bs"
proof -
  have u: "fst (arm_uleb_loop bs r n) = Undef \<longleftrightarrow>
      (case bs of [] \<Rightarrow> False | b # bs' \<Rightarrow> b AND 0x80 \<noteq> 0 \<and> fst (arm_uleb_loop bs' (r OR push_bit n (ucast (b AND 0x7f))) (n + 7)) = Undef)"
    if "n \<le> 21" for bs r n
    using that by (cases bs) (simp_all add: arm_uleb_loop_step del: arm_uleb_loop.simps(2))
  show ?thesis
    by (simp add: u arm_uleb_loop_28 del: arm_uleb_loop.simps(2) split: list.split)
qed

lemma arm_Decode_Undef_iff:
  assumes "arm_safe s"
  shows "fst (arm_Decode s) = Undef \<longleftrightarrow> (\<exists>bs. arm_data s = 0xb2 # bs \<and> arm_uleb_too_long bs)"
proof (cases "arm_data s")
  case (Cons b bs)
  let ?t = "s\<lparr>arm_status := ARM_STATUS_NONE, arm_data := bs\<rparr>"
  have safe: "arm_safe ?t" using assms by (simp add: arm_safe_def)
  show ?thesis
  proof (cases "b = 0xb2")
    case True
    then have "fst (arm_dispatch b ?t) = Undef \<longleftrightarrow> fst (arm_uleb_loop bs 0 0) = Undef"
      by (auto simp: arm_dispatch_defs rbind_def arm_ReadULEB_def on_fail_def on_part_def log_and_run_def log_if_def modify_def add_cfa_def
          split: prod.split res.split)
    then show ?thesis using Cons True arm_uleb_Undef_iff by (simp add: arm_Decode_run)
  next
    case False
    then show ?thesis using arm_defined_dispatch [OF False] safe Cons by (simp add: arm_Decode_run arm_defined_def)
  qed
qed (simp add: arm_Decode_run)

section \<open>Skipped execution\<close>

definition arm_skipping :: "arm_exidx \<Rightarrow> bool" where
  "arm_skipping s \<longleftrightarrow> arm_log s \<and> arm_log_skip_execution s"

definition arm_skips :: "(arm_exidx, 'a) op \<Rightarrow> bool" where
  "arm_skips f \<longleftrightarrow> (\<forall>s. arm_skipping s \<longrightarrow> arm_frame_of (snd (f s)) = arm_frame_of s \<and> arm_skipping (snd (f s)))"

lemma arm_skipsD: "arm_skips f \<Longrightarrow> arm_skipping s \<Longrightarrow> f s = (q, s') \<Longrightarrow> arm_frame_of s' = arm_frame_of s \<and> arm_skipping s'"
  unfolding arm_skips_def by (drule spec [of _ s]) auto

lemma arm_skips_rbind:
  assumes "arm_skips f" and "\<And>v. arm_skips (g v)"
  shows "arm_skips (rbind f g)"
  unfolding arm_skips_def
proof (intro allI impI)
  fix s
  assume s: "arm_skipping s"
  obtain q s1 where q: "f s = (q, s1)" by fastforce
  show "arm_frame_of (snd (rbind f g s)) = arm_frame_of s \<and> arm_skipping (snd (rbind f g s))"
    using arm_skipsD [OF assms(1) s q] assms(2) q unfolding arm_skips_def by (cases q) (simp_all add: rbind_def)
qed

lemma arm_skips_if: "(b \<Longrightarrow> arm_skips f) \<Longrightarrow> (\<not> b \<Longrightarrow> arm_skips g) \<Longrightarrow> arm_skips (if b then f else g)"
  by simp

lemma arm_skips_basic:
  "arm_skips (log_if msg)" "arm_skips (arm_fail st :: (arm_exidx, 'a) op)" "arm_skips (arm_CHECK b)" "arm_skips GetByte"
  "arm_skips (log_and_run msg body)" "arm_skips arm_ReadULEB"
  by (auto simp: arm_skips_def arm_skipping_def arm_frame_of_def log_if_def modify_def arm_fail_def arm_CHECK_def rret_def rabort_def
      GetByte_def log_and_run_def rbind_def arm_ReadULEB_def on_fail_def on_part_def split: list.split prod.split res.split)

lemmas arm_skips_rules = arm_skips_rbind arm_skips_if arm_skips_basic

lemma arm_skips_dispatch:
  assumes "b \<noteq> 0xc7"
  shows "arm_skips (arm_dispatch b)"
proof -
  have "drop_bit 6 b \<noteq> 0 \<Longrightarrow> drop_bit 6 b \<noteq> 1 \<Longrightarrow> drop_bit 6 b \<noteq> 2 \<Longrightarrow> drop_bit 3 b AND 7 = 0 \<Longrightarrow> b AND 7 \<noteq> 7"
    using assms by (auto simp: u8_bits)
  then show ?thesis
    unfolding arm_dispatch_def DecodePrefix_10_def DecodePrefix_11_def arm_decoders Let_def spare_def
    by (intro arm_skips_rules) auto
qed

lemma arm_Decode_skips:
  assumes "arm_skipping s"
  shows "arm_frame_of (snd (arm_Decode s)) =
    (case arm_data s of
       a # b # _ \<Rightarrow> if a = 0xc7 \<and> b \<noteq> 0 \<and> drop_bit 4 b = 0
         then (arm_frame_of s)\<lparr>af_vsp := arm_cfa s + of_nat (popcount b) * 4\<rparr> else arm_frame_of s
     | _ \<Rightarrow> arm_frame_of s)"
proof (cases "arm_data s")
  case (Cons a bs)
  let ?t = "s\<lparr>arm_status := ARM_STATUS_NONE, arm_data := bs\<rparr>"
  have t: "arm_skipping ?t" "arm_frame_of ?t = arm_frame_of s" using assms by (simp_all add: arm_skipping_def arm_frame_of_def)
  show ?thesis
  proof (cases "a = 0xc7")
    case True
    then show ?thesis using Cons
      by (auto simp: arm_Decode_run arm_dispatch_defs GetByte_def rbind_def spare_def log_if_def modify_def arm_fail_def add_cfa_def
          arm_frame_of_def split: list.split)
  next
    case False
    then have "arm_frame_of (snd (arm_dispatch a ?t)) = arm_frame_of s"
      using arm_skips_dispatch [OF False] t by (simp add: arm_skips_def)
    then show ?thesis using Cons False by (simp add: arm_Decode_run split: list.split)
  qed
qed (simp add: arm_Decode_run arm_frame_of_def)

section \<open>Extraction\<close>

lemma extract_words_length:
  "extract_words n addr s = (Ret (), s') \<Longrightarrow> length (arm_data s') = length (arm_data s) + 4 * n"
proof (induction n arbitrary: addr s)
  case (Suc n)
  then obtain v s1 where "arm_Read32 arm_elf_memory addr s = (Ret v, s1)"
    "extract_words n (addr + 4) (s1\<lparr>arm_data := arm_data s1 @ [byte_of 24 v, byte_of 16 v, byte_of 8 v, byte_of 0 v]\<rparr>) = (Ret (), s')"
    by (auto simp: rbind_eq_Ret push_data_def modify_def)
  with Suc.IH keepsD [OF keeps_arm_data(6)] show ?case by fastforce
qed (simp add: rret_def)

lemma push_finish_last:
  "push_finish s = (Ret (), s') \<Longrightarrow> arm_data s' \<noteq> [] \<and> last (arm_data s') = ARM_OP_FINISH \<and>
     length (arm_data s) \<le> length (arm_data s') \<and> length (arm_data s') \<le> Suc (length (arm_data s))"
  by (auto simp: push_finish_def push_data_def modify_def split: if_splits)

lemma LogRawData_keeps: "LogRawData s = (Ret (), s') \<Longrightarrow> arm_data s' = arm_data s"
  by (auto simp: LogRawData_def log_if_def modify_def)

definition arm_bytecode :: "u8 list \<Rightarrow> bool" where
  "arm_bytecode d \<longleftrightarrow> 2 \<le> length d \<and> length d \<le> 24 \<and> last d = ARM_OP_FINISH"

lemma finish_bytecode:
  assumes "rbind push_finish (\<lambda>_. LogRawData) s = (Ret (), s')" and "2 \<le> length (arm_data s)" and "length (arm_data s) \<le> 23"
  shows "arm_bytecode (arm_data s')"
  using assms by (auto simp: rbind_eq_Ret arm_bytecode_def dest!: push_finish_last LogRawData_keeps)

lemma extract_inline_bytecode:
  "extract_inline v s = (Ret (), s') \<Longrightarrow> arm_data s = [] \<Longrightarrow> arm_bytecode (arm_data s')"
  by (auto simp: extract_inline_def rbind_eq_Ret [of "push_data _"] push_data_def modify_def arm_fail_def split: if_splits elim!: finish_bytecode)

lemma extract_header_length:
  assumes "extract_header v addr s = (Ret (n, addr'), s')" and "arm_data s = []"
  shows "length (arm_data s') \<in> {2, 3}"
  using assms keepsD [OF keeps_arm_data(6)]
  by (auto simp: extract_header_def rbind_eq_Ret push_data_def modify_def rret_def arm_fail_def Let_def split: if_splits)

lemma extract_table_bytecode:
  assumes "extract_table addr s = (Ret (), s')" and "arm_data s = []"
  shows "arm_bytecode (arm_data s')"
proof -
  obtain v s1 n a s2 where 1: "arm_Read32 arm_elf_memory addr s = (Ret v, s1)" and 2: "extract_header v addr s1 = (Ret (n, a), s2)"
    and 3: "(if n > 5 then arm_fail ARM_STATUS_MALFORMED else rbind (extract_words n a) (\<lambda>_. rbind push_finish (\<lambda>_. LogRawData))) s2 = (Ret (), s')"
    using assms(1) by (auto simp: extract_table_def rbind_eq_Ret [of "arm_Read32 _ _"] rbind_eq_Ret [of "extract_header _ _"] split: prod.splits)
  have "length (arm_data s2) \<in> {2, 3}" using extract_header_length [OF 2] keepsD [OF keeps_arm_data(6) 1] assms(2) by simp
  moreover from 3 obtain s3 where n: "n \<le> 5" and 4: "extract_words n a s2 = (Ret (), s3)" and 5: "rbind push_finish (\<lambda>_. LogRawData) s3 = (Ret (), s')"
    by (auto simp: rbind_eq_Ret [of "extract_words _ _"] arm_fail_def split: if_splits)
  ultimately show ?thesis using extract_words_length [OF 4] n by (intro finish_bytecode [OF 5]) auto
qed

lemma ExtractEntryData_bytecode_lemma:
  assumes "ExtractEntryData entry s = (Ret (), s')"
  shows "arm_bytecode (arm_data s')"
proof -
  let ?s = "s\<lparr>arm_data := [], arm_status := ARM_STATUS_NONE\<rparr>"
  from assms obtain v s1 where 1: "arm_Read32 arm_elf_memory (entry + 4) ?s = (Ret v, s1)"
    and 2: "extract_inline v s1 = (Ret (), s') \<or> (\<exists>a. extract_table a s1 = (Ret (), s'))"
    by (auto simp: ExtractEntryData_def extract_entry_def rbind_eq_Ret modify_def arm_fail_def split: if_splits)
  have "arm_data s1 = []" using keepsD [OF keeps_arm_data(6) 1] by simp
  then show ?thesis using 2 extract_inline_bytecode extract_table_bytecode by blast
qed

lemma reports_extract:
  "arm_reports (push_data bs)" "arm_reports push_finish" "arm_reports LogRawData" "arm_reports (arm_Read32 m addr)"
  by (auto simp: reports_def push_data_def modify_def push_finish_def LogRawData_def log_if_def arm_Read32_def on_fail_def split: res.split)

lemma reports_extract_words: "arm_reports (extract_words n addr)"
  by (induction n arbitrary: addr) (auto intro!: reports_rules reports_extract)

lemma reports_extract_entry: "arm_reports (extract_inline v)" "arm_reports (extract_table addr)"
proof -
  have "arm_reports (case p of (n, a) \<Rightarrow> if 5 < n then arm_fail ARM_STATUS_MALFORMED
      else rbind (extract_words n a) (\<lambda>_. rbind push_finish (\<lambda>_. LogRawData)))" for p :: "nat \<times> u32"
    by (cases p) (auto intro!: reports_rules reports_extract reports_extract_words)
  then show "arm_reports (extract_table addr)"
    unfolding extract_table_def extract_header_def Let_def by (intro reports_rules reports_extract) simp_all
qed (unfold extract_inline_def, intro reports_rules reports_extract, simp)

lemma ExtractEntryData_status:
  assumes "ExtractEntryData entry s = (r, s')"
  shows "(is_Ret r \<longrightarrow> arm_status s' = ARM_STATUS_NONE) \<and> (r = Fail \<longrightarrow> arm_status s' \<noteq> ARM_STATUS_NONE)"
proof -
  have "arm_reports (extract_entry entry)"
    unfolding extract_entry_def by (intro reports_rules reports_extract reports_extract_entry) simp_all
  moreover have "extract_entry entry (s\<lparr>arm_data := [], arm_status := ARM_STATUS_NONE\<rparr>) = (r, s')"
    using assms by (simp add: ExtractEntryData_def modify_def rbind_def)
  ultimately show ?thesis using reportsD [of arm_status ARM_STATUS_NONE "extract_entry entry"] by (cases r) fastforce+
qed

lemma no_abort_extract [no_abort_rules]: "no_abort (push_data bs)" "no_abort push_finish" "no_abort LogRawData"
  by (simp_all add: no_abort_def push_data_def modify_def push_finish_def LogRawData_def log_if_def)

lemma no_abort_extract_words [no_abort_rules]: "no_abort (extract_words n addr)"
  by (induction n arbitrary: addr) (auto intro!: no_abort_rules)

lemma no_abort_ExtractEntryData: "no_abort (ExtractEntryData entry)"
proof -
  have "no_abort (case p of (n, a) \<Rightarrow> if 5 < n then arm_fail ARM_STATUS_MALFORMED
      else rbind (extract_words n a) (\<lambda>_. rbind push_finish (\<lambda>_. LogRawData)))" for p :: "nat \<times> u32"
    by (cases p) (auto intro!: no_abort_rules)
  then show ?thesis
    unfolding ExtractEntryData_def extract_entry_def extract_inline_def extract_table_def extract_header_def Let_def
    by (intro no_abort_rules) simp_all
qed

lemma byte_of_le_word:
  assumes "length bs = 4" and "i < 4"
  shows "byte_of (8 * i) (le_word bs) = bs ! i"
proof (rule bit_word_eqI)
  fix k
  assume "k < LENGTH(8)"
  then have "(8 * i + k) div 8 = i" "(8 * i + k) mod 8 = k" "8 * i + k < 32" using assms(2) by simp_all
  then show "bit (byte_of (8 * i) (le_word bs)) k = bit (bs ! i) k"
    using assms \<open>k < LENGTH(8)\<close> by (simp add: byte_of_def bit_ucast_iff bit_drop_bit_eq bit_le_word)
qed

lemma extract_inline_entry:
  assumes "\<not> bit entry 0" and "mem_holds (arm_elf_memory s) (ucast (entry + 4)) [b3, b2, b1, 0x80]"
  shows "\<exists>s'. ExtractEntryData entry s = (Ret (), s') \<and> arm_env s' = arm_env s \<and> arm_frame_of s' = arm_frame_of s \<and>
    arm_data s' = [b1, b2, b3] @ (if b3 = ARM_OP_FINISH then [] else [ARM_OP_FINISH])"
proof -
  define data :: u32 where "data = le_word [b3, b2, b1, 0x80]"
  have b: "byte_of 24 data = 0x80" "byte_of 16 data = b1" "byte_of 8 data = b2" "byte_of 0 data = b3"
    using byte_of_le_word [of "[b3, b2, b1, 0x80]" 3] byte_of_le_word [of "[b3, b2, b1, 0x80]" 2]
      byte_of_le_word [of "[b3, b2, b1, 0x80]" 1] byte_of_le_word [of "[b3, b2, b1, 0x80]" 0] by (simp_all add: data_def)
  have "bit data 31" unfolding data_def bit_le_word by simp
  moreover have "data \<noteq> 1" using \<open>bit data 31\<close> by auto
  moreover have "drop_bit 24 data = ucast (byte_of 24 data)"
    by (rule bit_word_eqI) (auto simp: byte_of_def bit_simps dest: bit_imp_le_length)
  then have "drop_bit 24 data AND 0xf = 0" by (simp add: b(1))
  moreover have "mem_Read32 (arm_elf_memory s) (ucast (entry + 4)) = Ret data"
    using mem_holds_read [OF assms(2), of 4] by (simp add: mem_Read32_def data_def)
  ultimately show ?thesis using assms(1) b
    by (auto simp: ExtractEntryData_def extract_entry_def modify_def rbind_def arm_Read32_def on_fail_def extract_inline_def push_data_def
        push_finish_def LogRawData_def log_if_def arm_env_def arm_frame_of_def)
qed

section \<open>Properties\<close>

text \<open>C5. ARM unwind bytecode: on the encoding of a list of instructions followed by the finish operation,
  \<open>Eval\<close> returns true, with the registers, the virtual stack pointer and \<open>pc_set_\<close> that the meaning of the
  instructions gives, provided the stack words they pop can be read.\<close>

theorem arm_Eval_refines:
  assumes "list_all arm_insn_ok is" and "arm_ready s" and "arm_data s = concat (map arm_encode is) @ ARM_OP_FINISH # rest"
    and "arm_execs (arm_process_memory s) is ((arm_frame_of s)\<lparr>af_pc_set := False\<rparr>) = Some st"
  shows "\<exists>s'. arm_Eval s = (Ret True, s') \<and> arm_frame_of s' = st \<and> arm_data s' = rest"
  by (rule arm_Eval_refines_frame [OF assms])

text \<open>A typical epilogue: \<open>vsp = vsp + 8\<close>, then pop r4, r5 and pc.\<close>

definition sample_arm :: "u8 list \<Rightarrow> arm_exidx" where
  "sample_arm data = (new_ArmExidx (new_RegsImpl 16 13 \<lparr>loc_type = LOCATION_REGISTER, loc_value = 14\<rparr> 0 0)
     (MemoryBuffer [0, 0, 0, 0, 0x03, 0x88, 0x01, 0x80])
     (MemoryBuffer [0, 0, 0, 0, 0, 0, 0, 0, 4, 0, 0, 0, 5, 0, 0, 0, 6, 0, 0, 0]))\<lparr>arm_data := data\<rparr>"

definition sample_arm_insns :: "arm_insn list" where
  "sample_arm_insns = [VspAdd 1, PopMask 0x803]"

definition sample_arm_frame :: arm_frame where
  "sample_arm_frame = \<lparr>af_regs = [0, 0, 0, 0, 4, 5, 0, 0, 0, 0, 0, 0, 0, 0, 0, 6], af_vsp = 20, af_pc_set = True\<rparr>"

lemma sample_arm_ready: "arm_ready (sample_arm d)"
  by (simp add: sample_arm_def arm_ready_def new_ArmExidx_def new_RegsImpl_def)

lemma sample_arm_encode: "concat (map arm_encode sample_arm_insns) = [0x01, 0x88, 0x03]" "list_all arm_insn_ok sample_arm_insns"
  by (simp_all add: sample_arm_insns_def)

lemma sample_arm_execs:
  "arm_execs (arm_process_memory (sample_arm d)) sample_arm_insns ((arm_frame_of (sample_arm d))\<lparr>af_pc_set := False\<rparr>) = Some sample_arm_frame"
proof -
  have "arm_process_memory (sample_arm d) = arm_process_memory (sample_arm [])" "arm_frame_of (sample_arm d) = arm_frame_of (sample_arm [])"
    by (simp_all add: sample_arm_def arm_frame_of_def)
  moreover have "((replicate 16 0)[4 := 4, 5 := 5, 15 := 6] :: u32 list) = [0, 0, 0, 0, 4, 5, 0, 0, 0, 0, 0, 0, 0, 0, 0, 6]"
    by code_simp
  then have "arm_execs (arm_process_memory (sample_arm [])) sample_arm_insns ((arm_frame_of (sample_arm []))\<lparr>af_pc_set := False\<rparr>) =
      Some sample_arm_frame"
    by (simp add: sample_arm_def sample_arm_insns_def sample_arm_frame_def skip_vsp_def pop_regs_def popped_def word_at_def
        mem_Read32_def MemoryBuffer_Read_def add_overflow_def store_regs_def new_ArmExidx_def new_RegsImpl_def arm_frame_of_def)
  ultimately show ?thesis by simp
qed

lemma sample_arm_data: "arm_data (sample_arm d) = d"
  by (simp add: sample_arm_def)

theorem arm_Eval_refines_witness:
  "\<exists>s'. arm_Eval (sample_arm [0x01, 0x88, 0x03, 0xb0]) = (Ret True, s') \<and> arm_frame_of s' = sample_arm_frame"
  using arm_Eval_refines [OF sample_arm_encode(2) sample_arm_ready, of "[0x01, 0x88, 0x03, 0xb0]" "[]" sample_arm_frame] sample_arm_execs
  by (auto simp: sample_arm_encode ARM_OP_FINISH_def sample_arm_data)

text \<open>C31. From a table entry to the caller's registers: for an entry in the inline compact form whose three
  bytes are the encoding of instructions, filled up with finish operations, extraction followed by
  evaluation succeeds with the meaning of the instructions. The last byte must not be an operand with the
  value of the finish operation, which extraction mistakes for one.\<close>

theorem ArmExidx_inline_entry:
  assumes "\<not> bit entry_offset 0" and "mem_holds (arm_elf_memory s) (ucast (entry_offset + 4)) [b3, b2, b1, 0x80]"
    and "[b1, b2, b3] = concat (map arm_encode insns) @ replicate k ARM_OP_FINISH" and "k = 0 \<longrightarrow> b3 \<noteq> ARM_OP_FINISH"
    and "list_all arm_insn_ok insns" and "arm_ready s"
    and "arm_execs (arm_process_memory s) insns ((arm_frame_of s)\<lparr>af_pc_set := False\<rparr>) = Some st"
  shows "\<exists>s1 s2. ExtractEntryData entry_offset s = (Ret (), s1) \<and> arm_Eval s1 = (Ret True, s2) \<and> arm_frame_of s2 = st"
proof -
  obtain s1 where s1: "ExtractEntryData entry_offset s = (Ret (), s1)" "arm_env s1 = arm_env s" "arm_frame_of s1 = arm_frame_of s"
    and d: "arm_data s1 = concat (map arm_encode insns) @ replicate k ARM_OP_FINISH @ (if b3 = ARM_OP_FINISH then [] else [ARM_OP_FINISH])"
    using extract_inline_entry [OF assms(1,2)] unfolding assms(3) append_assoc by blast
  obtain rest where "replicate k ARM_OP_FINISH @ (if b3 = ARM_OP_FINISH then [] else [ARM_OP_FINISH]) = ARM_OP_FINISH # rest"
    using assms(4) by (cases k) auto
  moreover have "arm_ready s1" "arm_process_memory s1 = arm_process_memory s"
    using s1(2) assms(6) by (simp_all add: arm_ready_def arm_env_def)
  ultimately show ?thesis
    using arm_Eval_refines_frame [OF assms(5), of s1 rest st] assms(7) s1 d by auto
qed

theorem ArmExidx_inline_entry_witness:
  "\<exists>s1 s2. ExtractEntryData 0 (sample_arm []) = (Ret (), s1) \<and> arm_Eval s1 = (Ret True, s2) \<and> arm_frame_of s2 = sample_arm_frame"
proof (rule ArmExidx_inline_entry [where k = 0 and insns = sample_arm_insns])
  have "mem_holds (MemoryBuffer [0, 0, 0, 0, 0x03, 0x88, 0x01, 0x80]) 4 [0x03, 0x88, 0x01, 0x80]"
    using mem_holds_MemoryBuffer [of "[0, 0, 0, 0]" "[0x03, 0x88, 0x01, 0x80]" "[]"] by simp
  then show "mem_holds (arm_elf_memory (sample_arm [])) (ucast (0 + 4 :: u32)) [0x03, 0x88, 0x01, 0x80]"
    by (simp add: sample_arm_def new_ArmExidx_def)
qed (simp_all add: sample_arm_encode sample_arm_ready sample_arm_execs ARM_OP_FINISH_def)

text \<open>C33. The outcome of evaluating ARM bytecode, whatever the bytes: the loop ends (each decoded
  instruction consumes bytes), no \<open>CHECK\<close> fails, the result is true exactly when the finish operation was
  reached, and otherwise the status says why.\<close>

theorem arm_Eval_outcome:
  assumes "arm_Eval s = (r, s')"
  shows "r = Undef \<or> r = Ret (arm_status s' = ARM_STATUS_FINISH) \<and> arm_status s' \<noteq> ARM_STATUS_NONE"
  using assms arm_Eval_loop_outcome [of "s\<lparr>arm_pc_set := False\<rparr>"]
  by (auto simp: arm_Eval_def modify_def rbind_def split: prod.splits res.splits)

theorem arm_Eval_outcome_witness:
  "\<exists>s'. arm_Eval (sample_arm []) = (Ret False, s') \<and> arm_status s' \<noteq> ARM_STATUS_NONE"
proof -
  have e: "arm_Eval (sample_arm []) = (Ret False, (sample_arm [])\<lparr>arm_pc_set := False, arm_status := ARM_STATUS_TRUNCATED\<rparr>)"
    by (simp add: arm_Eval_def modify_def rbind_def arm_Eval_loop.simps arm_Decode_run sample_arm_def)
  show ?thesis using arm_Eval_outcome [OF e] e by auto
qed

text \<open>C34. Undefined behaviour of \<open>Decode\<close>, with sixteen registers and a process memory without: exactly
  the operation 0xb2 with a ULEB128 operand that does not fit 32 bits or has more than five bytes.\<close>

theorem arm_Decode_undefined_iff:
  assumes "length (regs_data (arm_regs s)) = 16" and "\<forall>a. mem_Read32 (arm_process_memory s) a \<noteq> Undef"
  shows "fst (arm_Decode s) = Undef \<longleftrightarrow> (\<exists>bs. arm_data s = 0xb2 # bs \<and> arm_uleb_too_long bs)"
  by (rule arm_Decode_Undef_iff) (use assms in \<open>simp add: arm_safe_def\<close>)

theorem arm_Decode_undefined_iff_witness:
  "fst (arm_Decode (sample_arm [0xb2, 0x80, 0x80, 0x80, 0x80, 0x10])) = Undef"
proof -
  have "mem_Read32 (arm_process_memory (sample_arm d)) a \<noteq> Undef" for a d
    by (simp add: sample_arm_def new_ArmExidx_def mem_Read32_def MemoryBuffer_Read_def)
  then show ?thesis
    using arm_Decode_undefined_iff [of "sample_arm [0xb2, 0x80, 0x80, 0x80, 0x80, 0x10]"]
    by (simp add: sample_arm_def new_ArmExidx_def new_RegsImpl_def)
qed

text \<open>C32. The bytecode that \<open>ExtractEntryData\<close> delivers: between two and 24 bytes that end with the finish
  operation, with status none; a failure leaves a status that says why, and no \<open>CHECK\<close> fails.\<close>

theorem ExtractEntryData_bytecode:
  assumes "ExtractEntryData entry_offset s = (r, s')"
  shows "r \<noteq> Abort \<and> (r = Fail \<longrightarrow> arm_status s' \<noteq> ARM_STATUS_NONE) \<and>
    (r = Ret () \<longrightarrow> arm_status s' = ARM_STATUS_NONE \<and> 2 \<le> length (arm_data s') \<and> length (arm_data s') \<le> 24 \<and>
      last (arm_data s') = ARM_OP_FINISH)"
  using assms ExtractEntryData_status [OF assms] ExtractEntryData_bytecode_lemma [of entry_offset s s']
    no_abortD [OF no_abort_ExtractEntryData, of entry_offset s s']
  by (auto simp: arm_bytecode_def)

theorem ExtractEntryData_bytecode_witness:
  "\<exists>s'. ExtractEntryData 3 (sample_arm []) = (Fail, s') \<and> arm_status s' \<noteq> ARM_STATUS_NONE"
proof -
  have e: "ExtractEntryData 3 (sample_arm []) = (Fail, (sample_arm [])\<lparr>arm_status := ARM_STATUS_INVALID_ALIGNMENT\<rparr>)"
    by (simp add: ExtractEntryData_def extract_entry_def modify_def rbind_def arm_fail_def sample_arm_def)
  show ?thesis using ExtractEntryData_bytecode [OF e] e by auto
qed

text \<open>Logging without execution: with \<open>log_\<close> and \<open>log_skip_execution_\<close> set, \<open>Decode\<close> leaves the registers,
  the \<open>cfa_\<close> and \<open>pc_set_\<close> as they are, with one exception: the pop of wCGR registers (0xc7 and a mask) moves
  the \<open>cfa_\<close>.\<close>

theorem arm_skip_execution:
  assumes "arm_log s" and "arm_log_skip_execution s"
  shows "arm_frame_of (snd (arm_Decode s)) =
    (case arm_data s of
       a # b # _ \<Rightarrow> if a = 0xc7 \<and> b \<noteq> 0 \<and> drop_bit 4 b = 0
         then (arm_frame_of s)\<lparr>af_vsp := arm_cfa s + of_nat (popcount b) * 4\<rparr> else arm_frame_of s
     | _ \<Rightarrow> arm_frame_of s)"
  by (rule arm_Decode_skips) (use assms in \<open>simp add: arm_skipping_def\<close>)

theorem arm_skip_execution_witness:
  "arm_cfa (snd (arm_Decode (set_log True (set_log_skip_execution True (sample_arm [0xc7, 0x03]))))) = 8 \<and>
   arm_cfa (snd (arm_Decode (set_log True (set_log_skip_execution True (sample_arm [0x3f]))))) = 0"
proof -
  let ?s = "\<lambda>d. set_log True (set_log_skip_execution True (sample_arm d))"
  have f: "af_vsp (arm_frame_of s) = arm_cfa s" for s by (simp add: arm_frame_of_def)
  have p: "popcount 3 = 2" by code_simp
  have d: "arm_data (?s d) = d" "arm_log (?s d)" "arm_log_skip_execution (?s d)" "arm_cfa (?s d) = 0" for d
    by (simp_all add: set_log_def set_log_skip_execution_def sample_arm_def new_ArmExidx_def)
  show ?thesis
    using arg_cong [OF arm_skip_execution [OF d(2,3), of "[0xc7, 0x03]"], of af_vsp]
      arg_cong [OF arm_skip_execution [OF d(2,3), of "[0x3f]"], of af_vsp]
    by (simp add: f p d)
qed

end
