(* ===== verification/Bisection.thy ===== *)
theory Bisection
  imports Unwind_Prelude
begin

text \<open>
  The binary searches for the interval that contains an address, which several classes write out. The
  locale is their common contract: the equation of the loop and a midpoint in range. What it says about
  sorted tables is proved once here and reaches the classes through their interpretations.
\<close>

text \<open>The half-open intervals of a table that is sorted: an interval ends before a different one behind it
  starts. Equal entries may be repeated.\<close>

definition interval_table :: "('i \<Rightarrow> u64) \<Rightarrow> ('i \<Rightarrow> u64) \<Rightarrow> 'i list \<Rightarrow> bool" where
  "interval_table lo hi xs \<longleftrightarrow>
     (\<forall>x \<in> set xs. lo x \<le> hi x) \<and> sorted_wrt (\<lambda>x y. x = y \<or> hi x \<le> lo y) xs"

definition covers :: "('i \<Rightarrow> u64) \<Rightarrow> ('i \<Rightarrow> u64) \<Rightarrow> u64 \<Rightarrow> 'i \<Rightarrow> bool" where
  "covers lo hi a x \<longleftrightarrow> lo x \<le> a \<and> a < hi x"

lemma interval_table_nth:
  assumes "interval_table lo hi xs" and "i < j" and "j < length xs"
  shows "xs ! i = xs ! j \<or> hi (xs ! i) \<le> lo (xs ! j)"
  using assms unfolding interval_table_def by (blast dest: sorted_wrt_nth_less)

lemma covers_unique:
  assumes "interval_table lo hi xs" and "x \<in> set xs" and "y \<in> set xs" and "covers lo hi a x" and "covers lo hi a y"
  shows "x = y"
proof -
  obtain i j where ij: "i < length xs" "x = xs ! i" "j < length xs" "y = xs ! j"
    using assms(2,3) by (auto simp: in_set_conv_nth)
  then show ?thesis
    using interval_table_nth [OF assms(1), of i j] interval_table_nth [OF assms(1), of j i] assms(4,5)
    by (cases i j rule: linorder_cases) (auto simp: covers_def)
qed

locale bisection =
  fixes lo hi :: "'i \<Rightarrow> u64"
    and mid :: "nat \<Rightarrow> nat \<Rightarrow> nat"
    and search :: "'i list \<Rightarrow> u64 \<Rightarrow> nat \<Rightarrow> nat \<Rightarrow> 'i option"
  assumes mid_range: "k < n \<Longrightarrow> k \<le> mid k n \<and> mid k n < n"
    and search_empty: "\<not> k < n \<Longrightarrow> search xs a k n = None"
    and search_hit: "k < n \<Longrightarrow> covers lo hi a (xs ! mid k n) \<Longrightarrow> search xs a k n = Some (xs ! mid k n)"
    and search_left: "k < n \<Longrightarrow> a < lo (xs ! mid k n) \<Longrightarrow> search xs a k n = search xs a k (mid k n)"
    and search_right: "k < n \<Longrightarrow> \<not> a < lo (xs ! mid k n) \<Longrightarrow> \<not> a < hi (xs ! mid k n) \<Longrightarrow>
      search xs a k n = search xs a (Suc (mid k n)) n"
begin

lemma search_Some:
  assumes "search xs a k n = Some x" and "n \<le> length xs"
  shows "covers lo hi a x \<and> x \<in> set xs"
  using assms
proof (induction "n - k" arbitrary: k n rule: less_induct)
  case less
  have fl: "k < n" using less.prems(1) search_empty by (cases "k < n") auto
  let ?m = "mid k n"
  note m = mid_range [OF fl]
  consider "covers lo hi a (xs ! ?m)" | "a < lo (xs ! ?m)" | "\<not> a < lo (xs ! ?m)" "\<not> a < hi (xs ! ?m)"
    unfolding covers_def by (meson not_less)
  then show ?case
  proof cases
    case 1
    then show ?thesis using search_hit [OF fl 1] less.prems m by auto
  next
    case 2
    then show ?thesis using search_left [OF fl 2] less.hyps [of ?m k] less.prems m by auto
  next
    case 3
    then show ?thesis using search_right [OF fl 3] less.hyps [of n "Suc ?m"] less.prems m by auto
  qed
qed

lemma search_None:
  assumes "interval_table lo hi xs" and "search xs a k n = None" and "n \<le> length xs" and "k \<le> i" and "i < n"
  shows "\<not> covers lo hi a (xs ! i)"
  using assms(2-5)
proof (induction "n - k" arbitrary: k n rule: less_induct)
  case less
  have fl: "k < n" using less.prems by simp
  let ?m = "mid k n"
  note m = mid_range [OF fl]
  have n: "\<not> covers lo hi a (xs ! ?m)" using search_hit [OF fl] less.prems(1) by fastforce
  have w: "lo (xs ! ?m) \<le> hi (xs ! ?m)" using assms(1) m less.prems(2) by (simp add: interval_table_def)
  show ?case
  proof (cases "a < lo (xs ! ?m)")
    case True
    show ?thesis
    proof (cases "i < ?m")
      case True
      then show ?thesis using less.hyps [of ?m k] search_left [OF fl \<open>a < lo (xs ! ?m)\<close>] less.prems m by auto
    next
      case False
      then have "i = ?m \<or> xs ! ?m = xs ! i \<or> hi (xs ! ?m) \<le> lo (xs ! i)"
        using interval_table_nth [OF assms(1), of ?m i] less.prems by auto
      then show ?thesis using n w True by (auto simp: covers_def)
    qed
  next
    case False
    then have h: "\<not> a < hi (xs ! ?m)" using n by (simp add: covers_def)
    show ?thesis
    proof (cases "?m < i")
      case True
      then show ?thesis using less.hyps [of n "Suc ?m"] search_right [OF fl False h] less.prems m by auto
    next
      case False
      then have "i = ?m \<or> xs ! i = xs ! ?m \<or> hi (xs ! i) \<le> lo (xs ! ?m)"
        using interval_table_nth [OF assms(1), of i ?m] less.prems m by auto
      then show ?thesis using n h \<open>\<not> a < lo (xs ! ?m)\<close> by (auto simp: covers_def)
    qed
  qed
qed

text \<open>On a sorted table the search is the linear search.\<close>

theorem search_is_find:
  assumes "interval_table lo hi xs"
  shows "search xs a 0 (length xs) = find (covers lo hi a) xs"
proof (cases "search xs a 0 (length xs)")
  case None
  then have "\<forall>x \<in> set xs. \<not> covers lo hi a x"
    using search_None [OF assms None] by (auto simp: in_set_conv_nth)
  then show ?thesis using None by (simp add: find_None_iff2)
next
  case (Some x)
  then have x: "covers lo hi a x" "x \<in> set xs" using search_Some [OF Some] by auto
  then obtain y where y: "find (covers lo hi a) xs = Some y" by (cases "find (covers lo hi a) xs") (auto simp: find_None_iff)
  then have "y \<in> set xs" "covers lo hi a y" by (auto simp: find_Some_iff)
  then show ?thesis using covers_unique [OF assms x(2) _ x(1)] Some y by auto
qed

end

end
