(* ===== verification/Maps.thy ===== *)
theory Maps
  imports Bisection Log_Format "HOL-Library.Monad_Syntax"
begin

text \<open>
  The memory maps of a process (\<open>Maps.h\<close>, \<open>Maps.cpp\<close>): the search for the map of an address, the parser for
  the lines of \<open>/proc/<pid>/maps\<close>, and the three ways to fill the object: from a file that is read in
  blocks, from a buffer, and from a binary dump. A C string is the list of its characters before
  the terminating zero. The members \<open>elf\<close> and \<open>elf_offset\<close> of a map are added in the theory of \<open>Elf\<close>: they are not touched here.
\<close>

section \<open>Data\<close>

record map_info =
  map_start :: u64
  map_end :: u64
  map_offset :: u64
  map_flags :: u16
  map_name :: string

definition MAPS_FLAGS_DEVICE_MAP :: u16 where "MAPS_FLAGS_DEVICE_MAP = 0x8000"
definition PROT_READ :: u16 where "PROT_READ = 1"
definition PROT_WRITE :: u16 where "PROT_WRITE = 2"
definition PROT_EXEC :: u16 where "PROT_EXEC = 4"

section \<open>Find\<close>

function Maps_Find_loop :: "'z map_info_scheme list \<Rightarrow> u64 \<Rightarrow> nat \<Rightarrow> nat \<Rightarrow> 'z map_info_scheme option" where
  "Maps_Find_loop maps pc k n =
     (if k < n then
        (let index = (k + n) div 2; cur = maps ! index in
         if pc \<ge> map_start cur \<and> pc < map_end cur then Some cur
         else if pc < map_start cur then Maps_Find_loop maps pc k index
         else Maps_Find_loop maps pc (index + 1) n)
      else None)"
  by pat_completeness auto
termination
  by (relation "measure (\<lambda>(maps, pc, k, n). n - k)") auto

declare Maps_Find_loop.simps [simp del]

definition Maps_Find :: "'z map_info_scheme list \<Rightarrow> u64 \<Rightarrow> 'z map_info_scheme option" where
  "Maps_Find maps pc = (if maps = [] then None else Maps_Find_loop maps pc 0 (length maps))"

text \<open>\<open>Get\<close>.\<close>

definition Maps_Get :: "'z map_info_scheme list \<Rightarrow> nat \<Rightarrow> 'z map_info_scheme option" where
  "Maps_Get maps index = (if index \<ge> length maps then None else Some (maps ! index))"

interpretation map_search: bisection map_start map_end "\<lambda>k n. (k + n) div 2" Maps_Find_loop
proof
  fix k n :: nat and xs a
  note step = Maps_Find_loop.simps [of xs a k n]
  show "k < n \<Longrightarrow> k \<le> (k + n) div 2 \<and> (k + n) div 2 < n" by linarith
  show "\<not> k < n \<Longrightarrow> Maps_Find_loop xs a k n = None" by (subst step) simp
  show "k < n \<Longrightarrow> covers map_start map_end a (xs ! ((k + n) div 2)) \<Longrightarrow> Maps_Find_loop xs a k n = Some (xs ! ((k + n) div 2))"
    by (subst step) (simp add: covers_def Let_def)
  show "k < n \<Longrightarrow> a < map_start (xs ! ((k + n) div 2)) \<Longrightarrow> Maps_Find_loop xs a k n = Maps_Find_loop xs a k ((k + n) div 2)"
    by (subst step) (auto simp: Let_def dest: leD)
  show "k < n \<Longrightarrow> \<not> a < map_start (xs ! ((k + n) div 2)) \<Longrightarrow> \<not> a < map_end (xs ! ((k + n) div 2)) \<Longrightarrow>
      Maps_Find_loop xs a k n = Maps_Find_loop xs a (Suc ((k + n) div 2)) n"
    by (subst step) (simp add: Let_def)
qed

section \<open>Numbers and blanks\<close>

text \<open>\<open>std::isspace\<close> in the C locale.\<close>

definition isspace :: "char \<Rightarrow> bool" where
  "isspace c \<longleftrightarrow> c = CHR '' '' \<or> (9 \<le> (of_char c :: nat) \<and> (of_char c :: nat) \<le> 13)"

text \<open>The value of a digit, 255 for other characters.\<close>

definition digit_value :: "char \<Rightarrow> nat" where
  "digit_value c =
     (let n = of_char c :: nat in
      if 48 \<le> n \<and> n \<le> 57 then n - 48
      else if 97 \<le> n \<and> n \<le> 102 then n - 87
      else if 65 \<le> n \<and> n \<le> 70 then n - 55
      else 255)"

definition number_of :: "nat \<Rightarrow> string \<Rightarrow> nat" where
  "number_of base ds = foldl (\<lambda>v c. v * base + digit_value c) 0 ds"

text \<open>\<open>strtoul\<close>: blanks, a sign, \<open>0x\<close> in base 16, digits; the largest value on overflow. An \<open>unsigned long\<close> has 64 bits. The second
  component is what \<open>endptr\<close> points to, the whole string if there is no number.\<close>

definition skip_sign :: "string \<Rightarrow> bool \<times> string" where
  "skip_sign s = (case s of [] \<Rightarrow> (False, []) | c # t \<Rightarrow> if c = CHR ''-'' then (True, t) else if c = CHR ''+'' then (False, t) else (False, s))"

definition skip_0x :: "nat \<Rightarrow> string \<Rightarrow> string" where
  "skip_0x base s =
     (if base = 16 \<and> 2 < length s \<and> s ! 0 = CHR ''0'' \<and> (s ! 1 = CHR ''x'' \<or> s ! 1 = CHR ''X'') \<and> digit_value (s ! 2) < 16
      then drop 2 s else s)"

definition strtoul :: "nat \<Rightarrow> string \<Rightarrow> u64 \<times> string" where
  "strtoul base s =
     (let (neg, t) = skip_sign (dropWhile isspace s);
          u = skip_0x base t;
          ds = takeWhile (\<lambda>c. digit_value c < base) u;
          v = number_of base ds in
      if ds = [] then (0, s)
      else (if v \<ge> 2 ^ 64 then -1 else if neg then - of_nat v else of_nat v, drop (length ds) u))"

section \<open>InternalParseLine\<close>

text \<open>\<open>strtoul\<close> with the test that there was a number, and the tests of one character.\<close>

definition parse_num :: "nat \<Rightarrow> string \<Rightarrow> (u64 \<times> string) option" where
  "parse_num base s = (let (v, t) = strtoul base s in if t = s then None else Some (v, t))"

definition expect :: "(char \<Rightarrow> bool) \<Rightarrow> string \<Rightarrow> string option" where
  "expect p s = (case s of [] \<Rightarrow> None | c # t \<Rightarrow> if p c then Some t else None)"

definition parse_perm :: "char \<Rightarrow> u16 \<Rightarrow> string \<Rightarrow> (u16 \<times> string) option" where
  "parse_perm c prot s = (case s of [] \<Rightarrow> None | d # t \<Rightarrow> if d = c then Some (prot, t) else if d = CHR ''-'' then Some (0, t) else None)"

definition InternalParseLine :: "string \<Rightarrow> map_info option" where
  "InternalParseLine line = do {
     (start, s) \<leftarrow> parse_num 16 line;
     s \<leftarrow> expect (\<lambda>c. c = CHR ''-'') s;
     (fin, s) \<leftarrow> parse_num 16 s;
     s \<leftarrow> expect isspace s;
     (r, s) \<leftarrow> parse_perm (CHR ''r'') PROT_READ (dropWhile isspace s);
     (w, s) \<leftarrow> parse_perm (CHR ''w'') PROT_WRITE s;
     (x, s) \<leftarrow> parse_perm (CHR ''x'') PROT_EXEC s;
     s \<leftarrow> expect (\<lambda>c. c = CHR ''p'' \<or> c = CHR ''s'') s;
     s \<leftarrow> expect isspace s;
     (off, s) \<leftarrow> parse_num 16 s;
     _ \<leftarrow> expect isspace s;
     (_, s) \<leftarrow> parse_num 16 s;
     s \<leftarrow> expect (\<lambda>c. c = CHR '':'') s;
     (if s \<noteq> [] \<and> isspace (hd s) then None else Some ());
     (_, s) \<leftarrow> parse_num 16 s;
     s \<leftarrow> expect isspace s;
     (_, s) \<leftarrow> parse_num 10 s;
     (if s \<noteq> [] \<and> \<not> isspace (hd s) then None else Some ());
     let nm = dropWhile isspace s;
     let device = (take 5 nm = ''/dev/'' \<and> take 7 (drop 5 nm) \<noteq> ''ashmem/'');
     Some \<lparr>map_start = start, map_end = fin, map_offset = off,
           map_flags = r OR w OR x OR (if device then MAPS_FLAGS_DEVICE_MAP else 0), map_name = nm\<rparr>
   }"

section \<open>Parse\<close>

text \<open>\<open>BufferMaps::Parse\<close>. The buffer is a C string; the maps of the lines before a bad one are kept.\<close>

function BufferMaps_Parse :: "string \<Rightarrow> map_info list \<Rightarrow> bool \<times> map_info list" where
  "BufferMaps_Parse start_of_line maps =
     (let line = takeWhile (\<lambda>c. c \<noteq> CHR ''\<newline>'') start_of_line;
          rest = drop (length line + 1) start_of_line in
      case InternalParseLine line of
        None \<Rightarrow> (False, maps)
      | Some map_info \<Rightarrow>
          if rest = [] then (True, maps @ [map_info])
          else BufferMaps_Parse rest (maps @ [map_info]))"
  by pat_completeness auto
termination
  by (relation "measure (\<lambda>(s, maps). length s)") auto

text \<open>\<open>Maps::Parse\<close> reads the file in blocks into a buffer of 2048 characters. The first argument says what each
  call of \<open>read\<close> does: fail, or return at most so many characters (and at least one, if there are any
  left and any are asked for).\<close>

definition maps_read :: "nat option list \<Rightarrow> nat \<Rightarrow> string \<Rightarrow> string option" where
  "maps_read os n file =
     (case os of
        [] \<Rightarrow> Some (take n file)
      | None # _ \<Rightarrow> None
      | Some k # _ \<Rightarrow> Some (take (min n (Suc k)) file))"

text \<open>The characters of the C string at a position of the buffer.\<close>

definition c_str :: "string \<Rightarrow> string" where
  "c_str s = takeWhile (\<lambda>c. c \<noteq> CHR 0x00) s"

text \<open>The loop over the lines in the buffer: buffer, position and number of the characters that are left.
  The results are the buffer, the characters left over, whether all lines were good, and the maps.\<close>

function parse_buffer :: "string \<Rightarrow> nat \<Rightarrow> nat \<Rightarrow> map_info list \<Rightarrow> string \<times> nat \<times> bool \<times> map_info list" where
  "parse_buffer buffer line bytes maps =
     (if bytes > 0 then
        (let k = length (takeWhile (\<lambda>c. c \<noteq> CHR ''\<newline>'') (take bytes (drop line buffer))) in
         if k \<ge> bytes then (take bytes (drop line buffer) @ drop bytes buffer, bytes, True, maps)
         else
           (let buffer = buffer[line + k := CHR 0x00] in
            case InternalParseLine (c_str (drop line buffer)) of
              None \<Rightarrow> (buffer, bytes, False, maps)
            | Some map_info \<Rightarrow> parse_buffer buffer (line + k + 1) (bytes - (k + 1)) (maps @ [map_info])))
      else (buffer, bytes, True, maps))"
  by pat_completeness auto
termination
  by (relation "measure (\<lambda>(buffer, line, bytes, maps). bytes)") auto

declare parse_buffer.simps [simp del]

function Maps_Parse_loop ::
  "nat option list \<Rightarrow> string \<Rightarrow> string \<Rightarrow> nat \<Rightarrow> bool \<Rightarrow> map_info list \<Rightarrow> bool \<times> map_info list" where
  "Maps_Parse_loop os file buffer leftover return_value maps =
     (case maps_read os (2048 - leftover) file of
        None \<Rightarrow> (False, maps)
      | Some chunk \<Rightarrow>
          if chunk = [] then (return_value, maps)
          else
            (let buffer = take leftover buffer @ chunk @ drop (leftover + length chunk) buffer;
                 (buffer, bytes, ok, maps) = parse_buffer buffer 0 (length chunk + leftover) maps in
             Maps_Parse_loop (tl os) (drop (length chunk) file) buffer bytes (return_value \<and> ok) maps))"
  by pat_completeness auto
termination
  by (relation "measure (\<lambda>(os, file, buffer, leftover, return_value, maps). length file)")
     (auto simp: maps_read_def split: list.splits option.splits)

declare Maps_Parse_loop.simps [simp del]

text \<open>The file is \<open>None\<close> when it cannot be opened; the buffer on the stack is not initialised.\<close>

definition Maps_Parse :: "nat option list \<Rightarrow> string option \<Rightarrow> string \<Rightarrow> map_info list \<Rightarrow> bool \<times> map_info list" where
  "Maps_Parse os file buffer maps =
     (case file of
        None \<Rightarrow> (False, maps)
      | Some content \<Rightarrow> Maps_Parse_loop os content buffer 0 True maps)"

definition RemoteMaps_GetMapsFile :: "nat \<Rightarrow> string" where
  "RemoteMaps_GetMapsFile pid = ''/proc/'' @ dec pid @ ''/maps''"

text \<open>\<open>OfflineMaps::Parse\<close>: each \<open>read\<close> gets the bytes asked for, fewer only at the end of the file.\<close>

definition read_exact :: "nat \<Rightarrow> u8 list \<Rightarrow> (u8 list \<times> u8 list) option" where
  "read_exact n file = (if length file < n then None else Some (take n file, drop n file))"

definition string_of_bytes :: "u8 list \<Rightarrow> string" where
  "string_of_bytes bs = map (\<lambda>b. char_of (unat b)) bs"

definition offline_map :: "u8 list \<Rightarrow> (map_info \<times> u8 list) option" where
  "offline_map file = do {
     (start, file) \<leftarrow> read_exact 8 file;
     (fin, file) \<leftarrow> read_exact 8 file;
     (off, file) \<leftarrow> read_exact 8 file;
     (flags, file) \<leftarrow> read_exact 2 file;
     (len, file) \<leftarrow> read_exact 2 file;
     (nm, file) \<leftarrow> read_exact (unat (le_word len :: u16)) file;
     Some (\<lparr>map_start = le_word start, map_end = le_word fin, map_offset = le_word off, map_flags = le_word flags,
            map_name = string_of_bytes nm\<rparr>, file)
   }"

lemma offline_map_shorter: "offline_map file = Some (mi, rest) \<Longrightarrow> length rest < length file"
  by (auto simp: offline_map_def read_exact_def bind_eq_Some_conv split: if_splits)

function OfflineMaps_Parse_loop :: "u8 list \<Rightarrow> map_info list \<Rightarrow> bool \<times> map_info list" where
  "OfflineMaps_Parse_loop file maps =
     (if file = [] then (True, maps)
      else
        case offline_map file of
          None \<Rightarrow> (False, maps)
        | Some (map_info, rest) \<Rightarrow> OfflineMaps_Parse_loop rest (maps @ [map_info]))"
  by pat_completeness auto
termination
  by (relation "measure (\<lambda>(file, maps). length file)") (auto dest: offline_map_shorter)

definition OfflineMaps_Parse :: "u8 list option \<Rightarrow> map_info list \<Rightarrow> bool \<times> map_info list" where
  "OfflineMaps_Parse file maps = (case file of None \<Rightarrow> (False, maps) | Some content \<Rightarrow> OfflineMaps_Parse_loop content maps)"

declare OfflineMaps_Parse_loop.simps [simp del] BufferMaps_Parse.simps [simp del]

end
