(* ===== verification/Maps_Text.thy ===== *)
theory Maps_Text
  imports Maps
begin

text \<open>
  What the parsers of the maps read back: the lines in the format of the kernel, whatever the blocks in which they are
  read, and the binary dump.
\<close>

section \<open>Printed numbers\<close>

text \<open>A number in the given base, as \<open>printf\<close> writes it, and with zeros in front up to a width.\<close>

function num_string :: "nat \<Rightarrow> nat \<Rightarrow> string" where
  "num_string base n =
     (if base < 2 \<or> n < base then [hex_digit n] else num_string base (n div base) @ [hex_digit (n mod base)])"
  by pat_completeness auto
termination
  by (relation "measure snd") auto

declare num_string.simps [simp del]

definition padded :: "nat \<Rightarrow> string \<Rightarrow> string" where
  "padded w s = replicate (w - length s) (CHR ''0'') @ s"

definition digits :: "nat \<Rightarrow> string \<Rightarrow> bool" where
  "digits base ds \<longleftrightarrow> ds \<noteq> [] \<and> (\<forall>c \<in> set ds. digit_value c < base)"

lemma digit_value_hex_digit [simp]: "d < 16 \<Longrightarrow> digit_value (hex_digit d) = d"
  by (auto simp: digit_value_def hex_digit_def Let_def of_char_of)

lemma number_of_snoc [simp]: "number_of base (ds @ [c]) = number_of base ds * base + digit_value c"
  by (simp add: number_of_def)

lemma number_of_zeros [simp]: "number_of base (replicate k (CHR ''0'') @ ds) = number_of base ds"
proof (induction k)
  case (Suc k)
  have "digit_value (CHR ''0'') = 0" by (simp add: digit_value_def)
  then show ?case using Suc by (simp add: number_of_def)
qed simp

lemma num_string_number:
  assumes "2 \<le> base" and "base \<le> 16"
  shows "digits base (num_string base n) \<and> number_of base (num_string base n) = n"
proof (induction n rule: less_induct)
  case (less n)
  show ?case
  proof (cases "n < base")
    case True
    then show ?thesis using assms num_string.simps [of base n] by (simp add: digits_def number_of_def)
  next
    case False
    then have "n div base < n" using assms by simp
    moreover have "n mod base < base" "n mod base < 16" using assms mod_less_divisor [of base n] by linarith+
    ultimately show ?thesis
      using False assms less [of "n div base"] num_string.simps [of base n] by (simp add: digits_def)
  qed
qed

lemma padded_number:
  assumes "2 \<le> base" and "base \<le> 16"
  shows "digits base (padded w (num_string base n)) \<and> number_of base (padded w (num_string base n)) = n"
  using num_string_number [OF assms, of n] assms by (auto simp: padded_def digits_def digit_value_def)

section \<open>What strtoul reads back\<close>

lemma digit_no_blank: "digit_value c < 16 \<Longrightarrow> \<not> isspace c \<and> c \<notin> {CHR ''-'', CHR ''+'', CHR ''x'', CHR ''X''}"
  by (auto simp: digit_value_def isspace_def Let_def split: if_splits)

text \<open>A character that ends a number.\<close>

definition ends_number :: "nat \<Rightarrow> string \<Rightarrow> bool" where
  "ends_number base rest \<longleftrightarrow> (rest = [] \<or> \<not> digit_value (hd rest) < base \<and> hd rest \<notin> {CHR ''x'', CHR ''X''})"

lemma strtoul_digits:
  assumes "digits base ds" and "base \<le> 16" and "number_of base ds < 2 ^ 64" and "ends_number base rest"
    and "\<forall>c \<in> set blanks. isspace c"
  shows "strtoul base (blanks @ ds @ rest) = (of_nat (number_of base ds), rest)"
proof -
  obtain d ds' where ds: "ds = d # ds'" using assms(1) by (cases ds) (auto simp: digits_def)
  have all: "digit_value c < base \<and> digit_value c < 16" if "c \<in> set ds" for c
    using assms(1,2) that by (force simp: digits_def)
  have d: "\<not> isspace d" "d \<notin> {CHR ''-'', CHR ''+''}" using digit_no_blank [of d] all [of d] ds by auto
  have 1: "dropWhile isspace (blanks @ ds @ rest) = ds @ rest"
    using assms(5) d ds by (simp add: dropWhile_append)
  have 2: "skip_sign (ds @ rest) = (False, ds @ rest)" using d ds by (simp add: skip_sign_def)
  have "(ds @ rest) ! 1 \<notin> {CHR ''x'', CHR ''X''}" if "2 < length (ds @ rest)"
  proof (cases ds')
    case Nil
    then show ?thesis using that assms(4) ds by (cases rest) (auto simp: ends_number_def)
  next
    case (Cons e t)
    then have "e \<in> set ds" using ds by simp
    then show ?thesis using digit_no_blank [of e] all [of e] ds Cons by auto
  qed
  then have 3: "skip_0x base (ds @ rest) = ds @ rest" by (auto simp: skip_0x_def)
  have 4: "takeWhile (\<lambda>c. digit_value c < base) (ds @ rest) = ds"
    using all assms(4) by (cases rest) (auto simp: ends_number_def takeWhile_append)
  have "ds \<noteq> []" using ds by simp
  then show ?thesis
    using assms(3) unfolding strtoul_def 1 2 Let_def prod.case 3 4 by simp
qed

lemma parse_num_printed:
  assumes "2 \<le> base" and "base \<le> 16" and "n < 2 ^ 64" and "ends_number base rest"
  shows "parse_num base (padded w (num_string base n) @ rest) = Some (of_nat n, rest)"
    and "isspace c \<Longrightarrow> parse_num base ([c] @ padded w (num_string base n) @ rest) = Some (of_nat n, rest)"
proof -
  note p = padded_number [OF assms(1,2), of w n]
  then have ne: "padded w (num_string base n) \<noteq> []" by (simp add: digits_def)
  have s: "strtoul base (blanks @ padded w (num_string base n) @ rest) = (of_nat n, rest)"
    if "\<forall>c \<in> set blanks. isspace c" for blanks
    using strtoul_digits [OF _ assms(2) _ assms(4) that] p assms(3) by auto
  show "parse_num base (padded w (num_string base n) @ rest) = Some (of_nat n, rest)"
    using s [of "[]"] ne by (simp add: parse_num_def)
  show "parse_num base ([c] @ padded w (num_string base n) @ rest) = Some (of_nat n, rest)" if "isspace c"
    using s [of "[c]"] that by (auto simp: parse_num_def dest: arg_cong [where f = length])
qed

section \<open>The lines of the kernel\<close>

definition device_name :: "string \<Rightarrow> bool" where
  "device_name nm \<longleftrightarrow> (\<exists>t. nm = ''/dev/'' @ t \<and> \<not> (\<exists>u. t = ''ashmem/'' @ u))"

definition map_line :: "bool \<Rightarrow> nat \<Rightarrow> nat \<Rightarrow> nat \<Rightarrow> nat \<Rightarrow> map_info \<Rightarrow> string" where
  "map_line shared major minor inode gap m =
     padded 8 (num_string 16 (unat (map_start m))) @ ''-'' @ padded 8 (num_string 16 (unat (map_end m))) @ '' '' @
     (if bit (map_flags m) 0 then ''r'' else ''-'') @ (if bit (map_flags m) 1 then ''w'' else ''-'') @
     (if bit (map_flags m) 2 then ''x'' else ''-'') @ (if shared then ''s'' else ''p'') @ '' '' @
     padded 8 (num_string 16 (unat (map_offset m))) @ '' '' @
     padded 2 (num_string 16 major) @ '':'' @ padded 2 (num_string 16 minor) @ '' '' @
     padded 0 (num_string 10 inode) @ '' '' @ replicate gap (CHR '' '') @ map_name m"

definition kernel_map :: "map_info \<Rightarrow> bool" where
  "kernel_map m \<longleftrightarrow> (map_name m = [] \<or> \<not> isspace (hd (map_name m))) \<and>
     map_flags m = take_bit 3 (map_flags m) OR (if device_name (map_name m) then MAPS_FLAGS_DEVICE_MAP else 0)"

lemma device_name_code:
  "device_name nm \<longleftrightarrow> take 5 nm = ''/dev/'' \<and> take 7 (drop 5 nm) \<noteq> ''ashmem/''"
proof -
  have p: "(\<exists>t. s = p @ t) \<longleftrightarrow> take (length p) s = p" for p s :: string
    by (metis append_eq_conv_conj)
  have n: "length ''ashmem/'' = 7" "length ''/dev/'' = 5" by simp_all
  have "(\<exists>u. t = ''ashmem/'' @ u) \<longleftrightarrow> take 7 t = ''ashmem/''" for t by (simp only: p n)
  moreover have "(\<exists>t. nm = ''/dev/'' @ t \<and> Q t) \<longleftrightarrow> take 5 nm = ''/dev/'' \<and> Q (drop 5 nm)" for Q
    unfolding n(2) [symmetric] by (metis append_eq_conv_conj)
  ultimately show ?thesis unfolding device_name_def by simp
qed

lemma flags_from_bits:
  "(if bit f 0 then PROT_READ else 0) OR (if bit f 1 then PROT_WRITE else 0) OR (if bit f 2 then PROT_EXEC else 0) = take_bit 3 (f :: u16)"
proof (rule bit_word_eqI)
  fix n :: nat assume "n < LENGTH(16)"
  have p: "PROT_READ = 2 ^ 0" "PROT_WRITE = 2 ^ 1" "PROT_EXEC = 2 ^ 2"
    by (simp_all add: PROT_READ_def PROT_WRITE_def PROT_EXEC_def)
  have "bit PROT_READ n \<longleftrightarrow> n = 0" "bit PROT_WRITE n \<longleftrightarrow> n = 1" "bit PROT_EXEC n \<longleftrightarrow> n = 2"
    unfolding p bit_exp_iff by auto
  then show "bit ((if bit f 0 then PROT_READ else 0) OR (if bit f 1 then PROT_WRITE else 0) OR (if bit f 2 then PROT_EXEC else 0)) n =
      bit (take_bit 3 f) n"
    using less_Suc_eq [of n 2] less_Suc_eq [of n 1] by (auto simp: bit_or_iff bit_take_bit_iff)
qed

text \<open>A permission character as the head of the rest of the line.\<close>

lemma parse_perm_printed [simp]:
  "c \<noteq> CHR ''-'' \<Longrightarrow> parse_perm c prot ((if b then [c] else ''-'') @ s) = Some (if b then prot else 0, s)"
  by (simp add: parse_perm_def)

lemma InternalParseLine_map_line:
  assumes "kernel_map m" and "major < 2 ^ 64" and "minor < 2 ^ 64" and "inode < 2 ^ 64"
  shows "InternalParseLine (map_line shared major minor inode gap m) = Some m"
proof -
  have e [simp]: "ends_number b ('' '' @ t)" "ends_number b (''-'' @ t)" "ends_number b ('':'' @ t)" if "b \<le> 16" for b t
    using that by (auto simp: ends_number_def digit_value_def)
  have sp [simp]: "isspace (CHR '' '')" "\<not> isspace (CHR ''r'')" "\<not> isspace (CHR ''-'')" by (simp_all add: isspace_def)
  have d: "padded w (num_string 16 n) \<noteq> []" "\<not> isspace (hd (padded w (num_string 16 n)))" for w n
    using padded_number [of 16 w n] digit_no_blank [of "hd (padded w (num_string 16 n))"] by (auto simp: digits_def)
  have nm: "dropWhile isspace ('' '' @ replicate gap (CHR '' '') @ map_name m) = map_name m"
    using assms(1) by (cases "map_name m") (auto simp: kernel_map_def dropWhile_append)
  have pm: "dropWhile isspace ((if b then ''r'' else ''-'') @ t) = (if b then ''r'' else ''-'') @ t" for b t by simp
  have fl: "(if bit (map_flags m) 0 then PROT_READ else 0) OR (if bit (map_flags m) 1 then PROT_WRITE else 0) OR
      (if bit (map_flags m) 2 then PROT_EXEC else 0) OR (if device_name (map_name m) then MAPS_FLAGS_DEVICE_MAP else 0) = map_flags m"
    using assms(1) unfolding kernel_map_def flags_from_bits [symmetric] by (simp only: or.assoc)
  have sh: "expect (\<lambda>c. c = CHR ''p'' \<or> c = CHR ''s'') ((if shared then ''s'' else ''p'') @ t) = Some t" for t
    by (simp add: expect_def)
  have ex: "expect P ('' '' @ t) = (if P (CHR '' '') then Some t else None)"
      "expect P (''-'' @ t) = (if P (CHR ''-'') then Some t else None)"
      "expect P ('':'' @ t) = (if P (CHR '':'') then Some t else None)" for P t by (simp_all add: expect_def)
  have u: "unat w < 18446744073709551616" for w :: u64 using unsigned_less [of w] by simp
  show ?thesis
    using assms(2-4) fl unfolding InternalParseLine_def map_line_def device_name_code
    by (simp add: parse_num_printed ex sh pm d nm u hd_append del: append.simps split del: if_split)
qed

section \<open>The file in blocks\<close>

text \<open>A text of complete lines.\<close>

definition unlines :: "string list \<Rightarrow> string" where
  "unlines ls = concat (map (\<lambda>l. l @ ''\<newline>'') ls)"

definition text_line :: "string \<Rightarrow> bool" where
  "text_line l \<longleftrightarrow> CHR ''\<newline>'' \<notin> set l \<and> CHR 0x00 \<notin> set l \<and> length l < 2048"

lemma unlines_simps [simp]: "unlines [] = []" "unlines (l # ls) = l @ CHR ''\<newline>'' # unlines ls"
  by (simp_all add: unlines_def)

text \<open>The first part of a text is made of its first lines and the start of the next.\<close>

lemma unlines_prefix:
  assumes "p @ r = unlines ls @ t" and "\<forall>l \<in> set ls. text_line l" and "CHR ''\<newline>'' \<notin> set t"
  shows "\<exists>ls1 ls2 t1. p = unlines ls1 @ t1 \<and> t1 @ r = unlines ls2 @ t \<and> ls = ls1 @ ls2 \<and> CHR ''\<newline>'' \<notin> set t1"
  using assms
proof (induction ls arbitrary: p)
  case Nil
  then have "CHR ''\<newline>'' \<notin> set p" by (metis Un_iff append_Nil set_append unlines_simps(1))
  then show ?case using Nil by (intro exI [of _ "[]"] exI [of _ p]) auto
next
  case (Cons l ls)
  show ?case
  proof (cases "length p \<le> length l")
    case True
    then have "p = take (length p) l" using Cons.prems(1) by (simp add: append_eq_append_conv_if)
    then have "set p \<subseteq> set l" by (metis set_take_subset)
    then have "CHR ''\<newline>'' \<notin> set p" using Cons.prems(2) by (auto simp: text_line_def)
    then show ?thesis using Cons.prems(1) by (intro exI [of _ "[]"] exI [of _ "l # ls"] exI [of _ p]) auto
  next
    case False
    obtain us where "p = (l @ ''\<newline>'') @ us \<and> us @ r = unlines ls @ t \<or> p @ us = l @ ''\<newline>'' \<and> r = us @ unlines ls @ t"
      using Cons.prems(1) append_eq_append_conv2 [of p r "l @ ''\<newline>''" "unlines ls @ t"] by auto
    then obtain us where us: "p = (l @ ''\<newline>'') @ us" "us @ r = unlines ls @ t"
    proof (elim disjE)
      assume a: "p @ us = l @ ''\<newline>'' \<and> r = us @ unlines ls @ t"
      then have "length p + length us = length l + 1" by (metis length_append length_Cons list.size(3) One_nat_def)
      then have "length us = 0" using False by linarith
      then have "us = []" by simp
      then show thesis using a that [of "[]"] by simp
    qed auto
    obtain ls1 ls2 t1 where "us = unlines ls1 @ t1" "t1 @ r = unlines ls2 @ t" "ls = ls1 @ ls2" "CHR ''\<newline>'' \<notin> set t1"
      using Cons.IH [OF us(2)] Cons.prems(2,3) by auto
    then show ?thesis using us(1) by (intro exI [of _ "l # ls1"] exI [of _ ls2] exI [of _ t1]) auto
  qed
qed

text \<open>The loop over a buffer that holds lines and the start of another.\<close>

lemma parse_buffer_lines:
  assumes "\<forall>l \<in> set ls. text_line l" and "CHR ''\<newline>'' \<notin> set t"
  shows "(case parse_buffer (pre @ unlines ls @ t @ post) (length pre) (length (unlines ls @ t)) maps of (buffer, bytes, ok, maps') \<Rightarrow>
      case those (map InternalParseLine ls) of
        None \<Rightarrow> \<not> ok
      | Some ms \<Rightarrow> ok \<and> bytes = length t \<and> take (length t) buffer = t \<and>
          length buffer = length (pre @ unlines ls @ t @ post) \<and> maps' = maps @ ms)"
  using assms(1)
proof (induction ls arbitrary: pre maps)
  case Nil
  have tw: "takeWhile (\<lambda>c. c \<noteq> CHR ''\<newline>'') t = t" using assms(2) by (auto simp: takeWhile_eq_all_conv)
  show ?case by (subst parse_buffer.simps) (auto simp: Let_def tw)
next
  case (Cons l ls)
  have l: "CHR ''\<newline>'' \<notin> set l" "CHR 0x00 \<notin> set l" using Cons.prems by (auto simp: text_line_def)
  have tw: "takeWhile (\<lambda>c. c \<noteq> CHR ''\<newline>'') (l @ CHR ''\<newline>'' # s) = l" for s
    using l(1) by (auto simp: takeWhile_append)
  have cs: "c_str (l @ CHR 0x00 # s) = l" for s using l(2) by (auto simp: c_str_def takeWhile_append)
  let ?b = "pre @ unlines (l # ls) @ t @ post" and ?p = "pre @ l @ [CHR 0x00]"
  have k: "length (takeWhile (\<lambda>c. c \<noteq> CHR ''\<newline>'') (take (length (unlines (l # ls) @ t)) (drop (length pre) ?b))) = length l"
    by (simp add: tw)
  have u: "?b[length pre + length l := CHR 0x00] = ?p @ unlines ls @ t @ post" by (simp add: list_update_append)
  have d: "drop (length pre) (?p @ unlines ls @ t @ post) = l @ CHR 0x00 # unlines ls @ t @ post" by simp
  show ?case
  proof (cases "InternalParseLine l")
    case None
    then show ?thesis by (subst parse_buffer.simps) (simp add: k [simplified] Let_def u [simplified] cs)
  next
    case (Some mi)
    have "parse_buffer ?b (length pre) (length (unlines (l # ls) @ t)) maps =
        parse_buffer (?p @ unlines ls @ t @ post) (length ?p) (length (unlines ls @ t)) (maps @ [mi])"
      using Some by (subst parse_buffer.simps) (simp add: k [simplified] Let_def u [simplified] cs)
    then show ?thesis
      using Cons.IH [of ?p "maps @ [mi]"] Cons.prems Some by (auto split: option.splits prod.splits)
  qed
qed

lemma Maps_Parse_loop_failed: "\<not> fst (Maps_Parse_loop os content buffer leftover False maps)"
proof (induction os content buffer leftover "False" maps rule: Maps_Parse_loop.induct)
  case (1 os content buffer leftover maps)
  show ?case
    using 1 by (subst Maps_Parse_loop.simps) (auto simp: Let_def split: option.splits prod.splits)
qed

definition parsed :: "bool \<times> map_info list \<Rightarrow> map_info list option" where
  "parsed r = (if fst r then Some (snd r) else None)"

lemma those_append: "those (xs @ ys) = Option.bind (those xs) (\<lambda>as. map_option ((@) as) (those ys))"
proof (induction xs)
  case Nil
  then show ?case by (cases "those ys") auto
next
  case (Cons x xs)
  then show ?case by (cases "those xs"; cases "those ys") (auto split: option.split)
qed

lemma maps_read_take:
  assumes "None \<notin> set os"
  shows "\<exists>n \<le> k. maps_read os k content = Some (take n content) \<and> (0 < k \<longrightarrow> 0 < n)"
  using assms by (auto simp: maps_read_def split: list.split option.split intro: exI [of _ "min k (Suc _)"])

text \<open>A line that fills the buffer has its end in it.\<close>

lemma full_buffer_no_line:
  assumes "b @ content = unlines ls @ t" and "\<forall>l \<in> set ls. text_line l" and "CHR ''\<newline>'' \<notin> set b" and "content = [] \<or> length b = 2048"
  shows "ls = []"
proof (cases ls)
  case (Cons l ls')
  then have e: "b @ content = (l @ ''\<newline>'') @ unlines ls' @ t" and "length l < 2048" using assms by (auto simp: text_line_def)
  then have "length (l @ ''\<newline>'') \<le> length b" using assms(4) by (auto dest: arg_cong [where f = length])
  then have "take (length (l @ ''\<newline>'')) b = l @ ''\<newline>''" using e by (metis append_eq_append_conv_if)
  then show ?thesis using assms(3) by (metis in_set_conv_decomp in_set_takeD)
qed

lemma Maps_Parse_loop_lines:
  assumes "None \<notin> set os" and "take leftover buffer @ content = unlines ls @ t" and "\<forall>l \<in> set ls. text_line l"
    and "CHR ''\<newline>'' \<notin> set t" and "CHR ''\<newline>'' \<notin> set (take leftover buffer)" and "length buffer = 2048" and "leftover \<le> 2048"
  shows "parsed (Maps_Parse_loop os content buffer leftover True maps) = map_option ((@) maps) (those (map InternalParseLine ls))"
  using assms
proof (induction "length content" arbitrary: os content buffer leftover ls maps rule: less_induct)
  case less
  obtain n where n: "maps_read os (2048 - leftover) content = Some (take n content)" "n \<le> 2048 - leftover" "0 < 2048 - leftover \<longrightarrow> 0 < n"
    using maps_read_take [OF less.prems(1)] by blast
  let ?b = "take leftover buffer" and ?c = "take n content"
  show ?case
  proof (cases "?c = []")
    case True
    then have "content = [] \<or> length ?b = 2048" using n less.prems(6,7) by auto
    then have "ls = []" by (rule full_buffer_no_line [OF less.prems(2,3,5)])
    then show ?thesis using True n(1) by (subst Maps_Parse_loop.simps) (simp add: parsed_def)
  next
    case False
    have "(?b @ ?c) @ drop n content = unlines ls @ t" using less.prems(2) by simp
    from unlines_prefix [OF this less.prems(3,4)] obtain ls1 ls2 t1 where
      s: "?b @ ?c = unlines ls1 @ t1" "t1 @ drop n content = unlines ls2 @ t" "ls = ls1 @ ls2" "CHR ''\<newline>'' \<notin> set t1" by blast
    define post where "post = drop (leftover + length ?c) buffer"
    obtain buffer' bytes ok maps' where r: "parse_buffer (unlines ls1 @ t1 @ post) 0 (length (unlines ls1 @ t1)) maps = (buffer', bytes, ok, maps')"
      by (metis prod_cases4)
    have "length (?b @ ?c) = length ?c + leftover" using less.prems(6,7) by simp
    moreover have "drop (min (length content) n) content = drop n content" by (cases "n \<le> length content") auto
    ultimately have step: "Maps_Parse_loop os content buffer leftover True maps = Maps_Parse_loop (tl os) (drop n content) buffer' bytes ok maps'"
      using False n(1) r s(1) unfolding post_def
      by (subst Maps_Parse_loop.simps) (simp add: Let_def append_assoc [symmetric] del: append_assoc)
    have l1: "\<forall>l \<in> set ls1. text_line l" "\<forall>l \<in> set ls2. text_line l" using less.prems(3) s(3) by auto
    note pb = parse_buffer_lines [OF l1(1) s(4), of "[]" post maps, simplified append_Nil list.size(3) r prod.case]
    show ?thesis
    proof (cases "those (map InternalParseLine ls1)")
      case None
      then show ?thesis using pb step Maps_Parse_loop_failed [of "tl os"] s(3) by (simp add: parsed_def those_append)
    next
      case (Some ms)
      have len: "length (unlines ls1 @ t1 @ post) = 2048"
        using arg_cong [OF s(1), of length] n(2) less.prems(6,7) by (simp add: post_def)
      have "None \<notin> set (tl os)" using less.prems(1) by (cases os) auto
      then have "parsed (Maps_Parse_loop (tl os) (drop n content) buffer' bytes True maps') =
          map_option ((@) maps') (those (map InternalParseLine ls2))"
        using False pb Some len s(2,4) l1(2) less.prems(4)
        by (intro less.hyps) auto
      then show ?thesis
        using step pb Some s(3) by (cases "those (map InternalParseLine ls2)") (simp_all add: those_append)
    qed
  qed
qed

section \<open>The binary dump\<close>

definition bytes_of_string :: "string \<Rightarrow> u8 list" where
  "bytes_of_string s = map (\<lambda>c. of_nat (of_char c)) s"

definition offline_record :: "map_info \<Rightarrow> u8 list" where
  "offline_record m = le_bytes 8 (map_start m) @ le_bytes 8 (map_end m) @ le_bytes 8 (map_offset m) @ le_bytes 2 (map_flags m) @
     le_bytes 2 (of_nat (length (map_name m)) :: u16) @ bytes_of_string (map_name m)"

lemma string_of_bytes_of_string [simp]: "string_of_bytes (bytes_of_string s) = s"
proof -
  have "unat (of_nat (of_char c) :: u8) = of_char c" for c :: char
  proof -
    have "(of_char c :: nat) < 256" by simp
    then show ?thesis by (simp add: unat_of_nat take_bit_eq_mod)
  qed
  then show ?thesis by (simp add: string_of_bytes_def bytes_of_string_def comp_def)
qed

lemma read_exact_append [simp]: "length bs = n \<Longrightarrow> read_exact n (bs @ rest) = Some (bs, rest)"
  by (simp add: read_exact_def)

lemma offline_map_record:
  assumes "length (map_name m) < 2 ^ 16"
  shows "offline_map (offline_record m @ rest) = Some (m, rest)"
proof -
  have "unat (of_nat (length (map_name m)) :: u16) = length (map_name m)"
    using assms by (simp add: unat_of_nat take_bit_eq_mod)
  moreover have "length (bytes_of_string s) = length s" for s by (simp add: bytes_of_string_def)
  ultimately show ?thesis by (simp add: offline_map_def offline_record_def)
qed

section \<open>Properties\<close>

text \<open>C18. The search for the map of an address finds what a scan of the list from the start finds, when the maps are
  sorted and do not overlap.\<close>

theorem Maps_Find_is_find:
  assumes "interval_table map_start map_end maps"
  shows "Maps_Find maps pc = find (\<lambda>m. map_start m \<le> pc \<and> pc < map_end m) maps"
  using map_search.search_is_find [OF assms, of pc] by (simp add: Maps_Find_def covers_def [abs_def])

text \<open>C19. The line that the kernel writes for a map is parsed back to it: any numbers of device and inode, private or
  shared, and any blanks before the name. The flags are the three permissions, and the device flag for a name
  under \<open>/dev/\<close> but not under \<open>/dev/ashmem/\<close>.\<close>

theorem InternalParseLine_roundtrip:
  assumes "kernel_map m" and "major < 2 ^ 64" and "minor < 2 ^ 64" and "inode < 2 ^ 64"
  shows "InternalParseLine (map_line shared major minor inode gap m) = Some m"
  using assms by (rule InternalParseLine_map_line)

text \<open>C16. Reading the file in blocks, of whatever sizes \<open>read\<close> returns, is the same as parsing its lines one by one: the
  result is true when every line is good, and then the maps are those of the lines in order. What is
  behind the last newline is ignored. The lines have fewer than 2048 characters.\<close>

theorem Maps_Parse_blocks:
  assumes "None \<notin> set os" and "\<forall>l \<in> set ls. text_line l" and "CHR ''\<newline>'' \<notin> set t" and "length buffer = 2048"
  shows "parsed (Maps_Parse os (Some (unlines ls @ t)) buffer maps) = map_option ((@) maps) (those (map InternalParseLine ls))"
  using Maps_Parse_loop_lines [of os 0 buffer _ ls t maps] assms by (simp add: Maps_Parse_def)

text \<open>A dump of maps is read back to the same maps, names of up to 65535 characters included.\<close>

theorem OfflineMaps_roundtrip:
  assumes "\<forall>m \<in> set ms. length (map_name m) < 2 ^ 16"
  shows "OfflineMaps_Parse (Some (concat (map offline_record ms))) maps = (True, maps @ ms)"
proof -
  have "OfflineMaps_Parse_loop (concat (map offline_record ms)) maps = (True, maps @ ms)"
    using assms
  proof (induction ms arbitrary: maps)
    case Nil
    then show ?case by (simp add: OfflineMaps_Parse_loop.simps)
  next
    case (Cons m ms)
    have "0 < length (offline_record m)" by (simp add: offline_record_def)
    then have "offline_record m \<noteq> []" by auto
    then show ?case
      using Cons by (subst OfflineMaps_Parse_loop.simps) (simp add: offline_map_record)
  qed
  then show ?thesis by (simp add: OfflineMaps_Parse_def)
qed

section \<open>Witnesses\<close>

definition libc_map :: map_info where
  "libc_map = \<lparr>map_start = 0x6f000000, map_end = 0x6f01e000, map_offset = 0, map_flags = 5, map_name = ''/system/lib/libc.so''\<rparr>"

definition null_map :: map_info where
  "null_map = \<lparr>map_start = 0x70000000, map_end = 0x70001000, map_offset = 0x1000, map_flags = 0x8003, map_name = ''/dev/null''\<rparr>"

lemma sample_maps_sorted: "interval_table map_start map_end [libc_map, null_map]"
  by (simp add: interval_table_def libc_map_def null_map_def)

theorem Maps_Find_is_find_witness: "Maps_Find [libc_map, null_map] 0x70000004 = Some null_map"
  using Maps_Find_is_find [OF sample_maps_sorted, of "0x70000004"] by (simp add: libc_map_def null_map_def)

lemma kernel_map_null: "kernel_map null_map"
  by (simp add: kernel_map_def null_map_def isspace_def device_name_code MAPS_FLAGS_DEVICE_MAP_def)

lemma null_line:
  "map_line False 0 12 16389419 2 null_map = ''70000000-70001000 rw-p 00001000 00:0c 16389419   /dev/null''"
proof -
  have "replicate 4 c = [c, c, c, c]" "replicate 2 c = [c, c]" for c :: char by (simp_all add: numeral_eq_Suc)
  then show ?thesis
    by (simp add: map_line_def null_map_def padded_def num_string.simps hex_digit_def char_of_def bit_0)
qed

theorem InternalParseLine_roundtrip_witness:
  "InternalParseLine ''70000000-70001000 rw-p 00001000 00:0c 16389419   /dev/null'' = Some null_map"
  using InternalParseLine_roundtrip [OF kernel_map_null, of 0 12 16389419 False 2] by (simp add: null_line)

theorem Maps_Parse_blocks_witness:
  "parsed (Maps_Parse [Some 10, Some 0, Some 100] (Some (''70000000-70001000 rw-p 00001000 00:0c 16389419   /dev/null'' @ ''\<newline>''))
     (replicate 2048 (CHR ''x'')) []) = Some [null_map]"
proof -
  let ?l = "''70000000-70001000 rw-p 00001000 00:0c 16389419   /dev/null''"
  have "InternalParseLine ?l = Some null_map"
    using InternalParseLine_map_line [OF kernel_map_null, of 0 12 16389419 False 2] by (simp add: null_line)
  moreover have "\<forall>l \<in> set [?l]. text_line l" by (simp add: text_line_def)
  ultimately show ?thesis
    using Maps_Parse_blocks [of "[Some 10, Some 0, Some 100]" "[?l]" "[]" "replicate 2048 (CHR ''x'')" "[]"]
    by simp
qed

theorem OfflineMaps_roundtrip_witness:
  "OfflineMaps_Parse (Some (offline_record libc_map @ offline_record null_map)) [] = (True, [libc_map, null_map])"
  using OfflineMaps_roundtrip [of "[libc_map, null_map]" "[]"] by (simp add: libc_map_def null_map_def)

end
