(* ===== verification/Memory_Partial.thy ===== *)
theory Memory_Partial
  imports Memory
begin

text \<open>
  What a call of \<open>Read\<close> that returns \<open>false\<close> has already stored in the destination. Most classes check before
  they copy; \<open>MemoryRemote\<close> copies word by word, and \<open>MemoryLocal\<close> keeps what \<open>process_vm_readv\<close> transferred.
  The callers that read straight into the registers depend on it.
\<close>

fun remote_words_stored :: "ptrace_peek \<Rightarrow> u64 \<Rightarrow> nat \<Rightarrow> u8 list" where
  "remote_words_stored peek addr 0 = []"
| "remote_words_stored peek addr (Suc n) =
     (case peek addr of None \<Rightarrow> [] | Some data \<Rightarrow> le_bytes 8 data @ remote_words_stored peek (addr + 8) n)"

definition MemoryRemote_stored :: "ptrace_peek \<Rightarrow> u64 \<Rightarrow> nat \<Rightarrow> u8 list" where
  "MemoryRemote_stored peek addr bytes =
     (if add_overflow addr bytes then []
      else
        let align_bytes = unat (addr AND 7) in
        if align_bytes \<noteq> 0 then
          (case peek (addr AND NOT 7) of
             None \<Rightarrow> []
           | Some data \<Rightarrow>
               let copy_bytes = min (8 - align_bytes) bytes in
               take copy_bytes (drop align_bytes (le_bytes 8 data)) @
               remote_words_stored peek (addr + of_nat copy_bytes) ((bytes - copy_bytes) div 8))
        else remote_words_stored peek addr (bytes div 8))"

definition MemoryLocal_stored :: "vm_readv \<Rightarrow> u64 \<Rightarrow> nat \<Rightarrow> u8 list" where
  "MemoryLocal_stored readv addr sz =
     (if add_overflow addr sz then [] else case readv addr sz of None \<Rightarrow> [] | Some bs \<Rightarrow> take sz bs)"

fun mem_stored :: "memory \<Rightarrow> u64 \<Rightarrow> nat \<Rightarrow> u8 list" where
  "mem_stored (MemoryBuffer raw) addr sz = []"
| "mem_stored (MemoryFileAtOffset f) addr sz = []"
| "mem_stored (MemoryOffline f start) addr sz = []"
| "mem_stored (MemoryRemote peek) addr sz = MemoryRemote_stored peek addr sz"
| "mem_stored (MemoryLocal readv) addr sz = MemoryLocal_stored readv addr sz"
| "mem_stored (MemoryRange m begin len) addr sz =
     (if add_overflow addr sz \<or> unat len < unat addr + sz then [] else mem_stored m (addr + begin) sz)"

lemma length_remote_words_stored: "length (remote_words_stored peek a n) \<le> 8 * n"
  by (induction n arbitrary: a) (auto split: option.splits)

lemma length_MemoryRemote_stored: "length (MemoryRemote_stored peek a n) \<le> n"
proof -
  have w: "length (remote_words_stored peek b (k div 8)) \<le> k" for b k
    using length_remote_words_stored [of peek b "k div 8"] by linarith
  let ?c = "min (8 - unat (a AND 7)) n"
  have "?c + length (remote_words_stored peek b ((n - ?c) div 8)) \<le> n" for b
    using w [of b "n - ?c"] by linarith
  then show ?thesis
    unfolding MemoryRemote_stored_def Let_def using w [of a n] by (auto split: option.split)
qed

lemma length_mem_stored: "length (mem_stored m a n) \<le> n"
  by (induction m a n rule: mem_stored.induct)
     (auto simp: length_MemoryRemote_stored MemoryLocal_stored_def split: option.splits)

text \<open>A memory whose failed reads store nothing.\<close>

fun all_or_nothing :: "memory \<Rightarrow> bool" where
  "all_or_nothing (MemoryRemote peek) = False"
| "all_or_nothing (MemoryLocal readv) = False"
| "all_or_nothing (MemoryRange m begin len) = all_or_nothing m"
| "all_or_nothing m = True"

lemma all_or_nothing_stored: "all_or_nothing m \<Longrightarrow> mem_stored m a n = []"
  by (induction m a n rule: mem_stored.induct) auto

end
