(* ===== verification/Regs_Arch.thy ===== *)
theory Regs_Arch
  imports Regs Machine Memory_Partial Log_Format
begin

text \<open>
  The register sets of the four architectures (\<open>Regs.cpp\<close>): the classes \<open>RegsArm\<close>, \<open>RegsArm64\<close>, \<open>RegsX86\<close> and
  \<open>RegsX86_64\<close>, their construction from the data of \<open>ptrace\<close> (\<open>User.h\<close>) and from a signal context
  (\<open>Ucontext.h\<close>), and the step out of a signal handler. A C structure in memory is the list of its
  bytes; a structure whose members have one size is described by the list of their names. A new object has
  arbitrary values in \<open>pc_\<close> and \<open>sp_\<close>, which are arguments.
\<close>

section \<open>The part of Elf the registers use\<close>

record elf_base =
  elf_valid :: bool
  elf_load_bias :: u64
  elf_memory :: "memory option"

text \<open>The members of \<open>elf.h\<close>.\<close>

definition EM_386 :: u32 where "EM_386 = 3"
definition EM_ARM :: u32 where "EM_ARM = 40"
definition EM_X86_64 :: u32 where "EM_X86_64 = 62"
definition EM_AARCH64 :: u32 where "EM_AARCH64 = 183"

section \<open>Raw data\<close>

text \<open>The bytes of the vector \<open>regs_\<close>, and a copy into them.\<close>

definition raw_of_regs :: "'a::len word list \<Rightarrow> u8 list" where
  "raw_of_regs ws = concat (map (le_bytes (sizeof TYPE('a))) ws)"

definition words_of_raw :: "nat \<Rightarrow> u8 list \<Rightarrow> 'a::len word list" where
  "words_of_raw n bs = map (\<lambda>i. le_word (take (sizeof TYPE('a)) (drop (sizeof TYPE('a) * i) bs))) [0..<n]"

definition raw_copy :: "u8 list \<Rightarrow> ('a::len regs, unit) op" where
  "raw_copy bs r =
     (let raw = raw_of_regs (regs_data r) in
      if length raw < length bs then (Undef, r)
      else (Ret (), r\<lparr>regs_data := words_of_raw (length (regs_data r)) (bs @ drop (length bs) raw)\<rparr>))"

text \<open>A read into the vector leaves there what it stored before it failed.\<close>

definition raw_read :: "memory \<Rightarrow> u64 \<Rightarrow> nat \<Rightarrow> ('a::len regs, unit) op" where
  "raw_read m addr sz r =
     (case mem_Read m addr sz of
        Ret bs \<Rightarrow> raw_copy bs r
      | Fail \<Rightarrow> rbind (raw_copy (mem_stored m addr sz)) (\<lambda>_. rfail) r
      | Abort \<Rightarrow> (Abort, r)
      | Undef \<Rightarrow> (Undef, r))"

text \<open>Other reads go to local variables.\<close>

definition read_mem :: "memory \<Rightarrow> u64 \<Rightarrow> nat \<Rightarrow> ('s, u8 list) op" where
  "read_mem m addr sz s = (mem_Read m addr sz, s)"

definition read_elf :: "'z elf_base_scheme \<Rightarrow> u64 \<Rightarrow> nat \<Rightarrow> ('s, u8 list) op" where
  "read_elf elf addr sz = (case elf_memory elf of None \<Rightarrow> rundef | Some m \<Rightarrow> read_mem m addr sz)"

definition get_reg :: "nat \<Rightarrow> ('a::len regs, 'a word) op" where
  "get_reg i r = (regs_at r i, r)"

text \<open>\<open>sp()\<close>.\<close>

definition get_sp :: "('a::len regs, u64) op" where
  "get_sp r = (Ret (ucast (regs_sp r)), r)"

fun put_regs :: "(nat \<times> 'a::len word) list \<Rightarrow> ('a regs, unit) op" where
  "put_regs [] = rret ()"
| "put_regs ((i, v) # ps) = rbind (regs_put i v) (\<lambda>_. put_regs ps)"

section \<open>RegsArm\<close>

definition new_RegsArm :: "u32 \<Rightarrow> u32 \<Rightarrow> 32 regs" where
  "new_RegsArm pc sp = new_RegsImpl (of_nat (arm_reg ARM_REG_LAST)) (of_nat (arm_reg ARM_REG_SP))
     \<lparr>loc_type = LOCATION_REGISTER, loc_value = of_nat (arm_reg ARM_REG_LR)\<rparr> pc sp"

definition RegsArm_GetAdjustedPc :: "u64 \<Rightarrow> 'z elf_base_scheme \<Rightarrow> u64 res" where
  "RegsArm_GetAdjustedPc rel_pc elf =
     (if \<not> elf_valid elf then Ret rel_pc
      else if rel_pc < elf_load_bias elf then Ret rel_pc
      else
        let adjusted_rel_pc = rel_pc - elf_load_bias elf in
        if adjusted_rel_pc < 5 then Ret rel_pc
        else if adjusted_rel_pc AND 1 \<noteq> 0 then
          (if rel_pc < 5 then Ret (rel_pc - 2)
           else case fst (read_elf elf (adjusted_rel_pc - 5) 4 ()) of
             Ret bs \<Rightarrow> if (le_word bs :: u32) AND 0xe000f000 \<noteq> 0xe000f000 then Ret (rel_pc - 2) else Ret (rel_pc - 4)
           | Fail \<Rightarrow> Ret (rel_pc - 2)
           | Abort \<Rightarrow> Abort
           | Undef \<Rightarrow> Undef)
        else Ret (rel_pc - 4))"

text \<open>The body of \<open>SetFromRaw\<close>, the same in the four classes but for the register numbers.\<close>

definition set_from_raw :: "nat \<Rightarrow> nat \<Rightarrow> ('a::len regs, unit) op" where
  "set_from_raw pcr spr =
     rbind (get_reg pcr) (\<lambda>pc. rbind (modify (set_pc pc)) (\<lambda>_.
     rbind (get_reg spr) (\<lambda>sp. modify (set_sp sp))))"

definition RegsArm_SetFromRaw :: "(32 regs, unit) op" where
  "RegsArm_SetFromRaw = set_from_raw (arm_reg ARM_REG_PC) (arm_reg ARM_REG_SP)"

text \<open>\<open>SetPcFromReturnAddress\<close> with a link register.\<close>

definition set_pc_from_lr :: "nat \<Rightarrow> ('a::len regs, unit) op" where
  "set_pc_from_lr lr =
     rbind (get_reg lr) (\<lambda>v. \<lambda>r. if regs_pc r = v then (Fail, r) else (Ret (), set_pc v r))"

definition RegsArm_SetPcFromReturnAddress :: "(32 regs, unit) op" where
  "RegsArm_SetPcFromReturnAddress = set_pc_from_lr (arm_reg ARM_REG_LR)"

text \<open>\<open>IterateRegisters\<close>: the arguments of the calls of \<open>fn\<close>.\<close>

fun iterate_registers :: "(string \<times> nat) list \<Rightarrow> 'a::len regs \<Rightarrow> (string \<times> u64) list res" where
  "iterate_registers [] r = Ret []"
| "iterate_registers ((nm, i) # ns) r =
     (case regs_at r i of
        Ret v \<Rightarrow> map_res ((#) (nm, ucast v)) (iterate_registers ns r)
      | Fail \<Rightarrow> Fail | Abort \<Rightarrow> Abort | Undef \<Rightarrow> Undef)"

definition RegsImpl_IterateRegisters :: "'a::len regs \<Rightarrow> (string \<times> u64) list res" where
  "RegsImpl_IterateRegisters r = iterate_registers (map (\<lambda>i. (dec i, i)) [0..<length (regs_data r)]) r"

definition RegsArm_IterateRegisters :: "32 regs \<Rightarrow> (string \<times> u64) list res" where
  "RegsArm_IterateRegisters = iterate_registers
     [(''r0'', arm_reg ARM_REG_R0), (''r1'', arm_reg ARM_REG_R1), (''r2'', arm_reg ARM_REG_R2),
      (''r3'', arm_reg ARM_REG_R3), (''r4'', arm_reg ARM_REG_R4), (''r5'', arm_reg ARM_REG_R5),
      (''r6'', arm_reg ARM_REG_R6), (''r7'', arm_reg ARM_REG_R7), (''r8'', arm_reg ARM_REG_R8),
      (''r9'', arm_reg ARM_REG_R9), (''r10'', arm_reg ARM_REG_R10), (''r11'', arm_reg ARM_REG_R11),
      (''ip'', arm_reg ARM_REG_R12), (''sp'', arm_reg ARM_REG_SP), (''lr'', arm_reg ARM_REG_LR),
      (''pc'', arm_reg ARM_REG_PC)]"

section \<open>RegsArm64\<close>

definition new_RegsArm64 :: "u64 \<Rightarrow> u64 \<Rightarrow> 64 regs" where
  "new_RegsArm64 pc sp = new_RegsImpl (of_nat (arm64_reg ARM64_REG_LAST)) (of_nat (arm64_reg ARM64_REG_SP))
     \<lparr>loc_type = LOCATION_REGISTER, loc_value = of_nat (arm64_reg ARM64_REG_LR)\<rparr> pc sp"

definition RegsArm64_GetAdjustedPc :: "u64 \<Rightarrow> 'z elf_base_scheme \<Rightarrow> u64 res" where
  "RegsArm64_GetAdjustedPc rel_pc elf =
     (if \<not> elf_valid elf then Ret rel_pc else if rel_pc < 4 then Ret rel_pc else Ret (rel_pc - 4))"

definition RegsArm64_SetFromRaw :: "(64 regs, unit) op" where
  "RegsArm64_SetFromRaw = set_from_raw (arm64_reg ARM64_REG_PC) (arm64_reg ARM64_REG_SP)"

definition RegsArm64_SetPcFromReturnAddress :: "(64 regs, unit) op" where
  "RegsArm64_SetPcFromReturnAddress = set_pc_from_lr (arm64_reg ARM64_REG_LR)"

definition RegsArm64_IterateRegisters :: "64 regs \<Rightarrow> (string \<times> u64) list res" where
  "RegsArm64_IterateRegisters = iterate_registers
     [(''x0'', arm64_reg ARM64_REG_R0), (''x1'', arm64_reg ARM64_REG_R1), (''x2'', arm64_reg ARM64_REG_R2),
      (''x3'', arm64_reg ARM64_REG_R3), (''x4'', arm64_reg ARM64_REG_R4), (''x5'', arm64_reg ARM64_REG_R5),
      (''x6'', arm64_reg ARM64_REG_R6), (''x7'', arm64_reg ARM64_REG_R7), (''x8'', arm64_reg ARM64_REG_R8),
      (''x9'', arm64_reg ARM64_REG_R9), (''x10'', arm64_reg ARM64_REG_R10), (''x11'', arm64_reg ARM64_REG_R11),
      (''x12'', arm64_reg ARM64_REG_R12), (''x13'', arm64_reg ARM64_REG_R13), (''x14'', arm64_reg ARM64_REG_R14),
      (''x15'', arm64_reg ARM64_REG_R15), (''x16'', arm64_reg ARM64_REG_R16), (''x17'', arm64_reg ARM64_REG_R17),
      (''x18'', arm64_reg ARM64_REG_R18), (''x19'', arm64_reg ARM64_REG_R19), (''x20'', arm64_reg ARM64_REG_R20),
      (''x21'', arm64_reg ARM64_REG_R21), (''x22'', arm64_reg ARM64_REG_R22), (''x23'', arm64_reg ARM64_REG_R23),
      (''x24'', arm64_reg ARM64_REG_R24), (''x25'', arm64_reg ARM64_REG_R25), (''x26'', arm64_reg ARM64_REG_R26),
      (''x27'', arm64_reg ARM64_REG_R27), (''x28'', arm64_reg ARM64_REG_R28), (''x29'', arm64_reg ARM64_REG_R29),
      (''sp'', arm64_reg ARM64_REG_SP), (''lr'', arm64_reg ARM64_REG_LR), (''pc'', arm64_reg ARM64_REG_PC)]"

section \<open>RegsX86\<close>

definition new_RegsX86 :: "u32 \<Rightarrow> u32 \<Rightarrow> 32 regs" where
  "new_RegsX86 pc sp = new_RegsImpl (of_nat (x86_reg X86_REG_LAST)) (of_nat (x86_reg X86_REG_SP))
     \<lparr>loc_type = LOCATION_SP_OFFSET, loc_value = -4\<rparr> pc sp"

definition RegsX86_GetAdjustedPc :: "u64 \<Rightarrow> 'z elf_base_scheme \<Rightarrow> u64 res" where
  "RegsX86_GetAdjustedPc rel_pc elf =
     (if \<not> elf_valid elf then Ret rel_pc else if rel_pc = 0 then Ret 0 else Ret (rel_pc - 1))"

definition RegsX86_SetFromRaw :: "(32 regs, unit) op" where
  "RegsX86_SetFromRaw = set_from_raw (x86_reg X86_REG_PC) (x86_reg X86_REG_SP)"

text \<open>\<open>SetPcFromReturnAddress\<close> with the return address on top of the stack.\<close>

definition set_pc_from_stack :: "memory \<Rightarrow> ('a::len regs, unit) op" where
  "set_pc_from_stack process_memory r =
     rbind (read_mem process_memory (ucast (regs_sp r)) (sizeof TYPE('a))) (\<lambda>bs. \<lambda>r.
       let new_pc = le_word bs in
       if new_pc = regs_pc r then (Fail, r) else (Ret (), set_pc new_pc r)) r"

definition RegsX86_SetPcFromReturnAddress :: "memory \<Rightarrow> (32 regs, unit) op" where
  "RegsX86_SetPcFromReturnAddress = set_pc_from_stack"

definition RegsX86_IterateRegisters :: "32 regs \<Rightarrow> (string \<times> u64) list res" where
  "RegsX86_IterateRegisters = iterate_registers
     [(''eax'', x86_reg X86_REG_EAX), (''ebx'', x86_reg X86_REG_EBX), (''ecx'', x86_reg X86_REG_ECX),
      (''edx'', x86_reg X86_REG_EDX), (''ebp'', x86_reg X86_REG_EBP), (''edi'', x86_reg X86_REG_EDI),
      (''esi'', x86_reg X86_REG_ESI), (''esp'', x86_reg X86_REG_ESP), (''eip'', x86_reg X86_REG_EIP)]"

section \<open>RegsX86_64\<close>

definition new_RegsX86_64 :: "u64 \<Rightarrow> u64 \<Rightarrow> 64 regs" where
  "new_RegsX86_64 pc sp = new_RegsImpl (of_nat (x86_64_reg X86_64_REG_LAST)) (of_nat (x86_64_reg X86_64_REG_SP))
     \<lparr>loc_type = LOCATION_SP_OFFSET, loc_value = -8\<rparr> pc sp"

definition RegsX86_64_GetAdjustedPc :: "u64 \<Rightarrow> 'z elf_base_scheme \<Rightarrow> u64 res" where
  "RegsX86_64_GetAdjustedPc rel_pc elf =
     (if \<not> elf_valid elf then Ret rel_pc else if rel_pc = 0 then Ret 0 else Ret (rel_pc - 1))"

definition RegsX86_64_SetFromRaw :: "(64 regs, unit) op" where
  "RegsX86_64_SetFromRaw = set_from_raw (x86_64_reg X86_64_REG_PC) (x86_64_reg X86_64_REG_SP)"

definition RegsX86_64_SetPcFromReturnAddress :: "memory \<Rightarrow> (64 regs, unit) op" where
  "RegsX86_64_SetPcFromReturnAddress = set_pc_from_stack"

definition RegsX86_64_IterateRegisters :: "64 regs \<Rightarrow> (string \<times> u64) list res" where
  "RegsX86_64_IterateRegisters = iterate_registers
     [(''rax'', x86_64_reg X86_64_REG_RAX), (''rbx'', x86_64_reg X86_64_REG_RBX), (''rcx'', x86_64_reg X86_64_REG_RCX),
      (''rdx'', x86_64_reg X86_64_REG_RDX), (''r8'', x86_64_reg X86_64_REG_R8), (''r9'', x86_64_reg X86_64_REG_R9),
      (''r10'', x86_64_reg X86_64_REG_R10), (''r11'', x86_64_reg X86_64_REG_R11), (''r12'', x86_64_reg X86_64_REG_R12),
      (''r13'', x86_64_reg X86_64_REG_R13), (''r14'', x86_64_reg X86_64_REG_R14), (''r15'', x86_64_reg X86_64_REG_R15),
      (''rdi'', x86_64_reg X86_64_REG_RDI), (''rsi'', x86_64_reg X86_64_REG_RSI), (''rbp'', x86_64_reg X86_64_REG_RBP),
      (''rsp'', x86_64_reg X86_64_REG_RSP), (''rip'', x86_64_reg X86_64_REG_RIP)]"

section \<open>Registers from ptrace\<close>

text \<open>The structures of \<open>User.h\<close>, by the names of their members.\<close>

definition x86_user_regs :: "string list" where
  "x86_user_regs = [''ebx'', ''ecx'', ''edx'', ''esi'', ''edi'', ''ebp'', ''eax'', ''xds'', ''xes'', ''xfs'', ''xgs'',
     ''orig_eax'', ''eip'', ''xcs'', ''eflags'', ''esp'', ''xss'']"

definition x86_64_user_regs :: "string list" where
  "x86_64_user_regs = [''r15'', ''r14'', ''r13'', ''r12'', ''rbp'', ''rbx'', ''r11'', ''r10'', ''r9'', ''r8'', ''rax'',
     ''rcx'', ''rdx'', ''rsi'', ''rdi'', ''orig_rax'', ''rip'', ''cs'', ''eflags'', ''rsp'', ''ss'', ''fs_base'',
     ''gs_base'', ''ds'', ''es'', ''fs'', ''gs'']"

definition sizeof_arm_user_regs :: nat where "sizeof_arm_user_regs = 4 * 18"
definition sizeof_arm64_user_regs :: nat where "sizeof_arm64_user_regs = 8 * (31 + 3)"

definition MAX_USER_REGS_SIZE :: nat where "MAX_USER_REGS_SIZE = sizeof_arm64_user_regs + 10"

text \<open>The member of a structure: its position is that of its name.\<close>

definition member :: "string list \<Rightarrow> string \<Rightarrow> u8 list \<Rightarrow> 'a::len word" where
  "member struct nm bs =
     le_word (take (sizeof TYPE('a)) (drop (sizeof TYPE('a) * length (takeWhile (\<lambda>x. x \<noteq> nm) struct)) bs))"

definition put_members :: "string list \<Rightarrow> (nat \<times> string) list \<Rightarrow> u8 list \<Rightarrow> ('a::len regs, unit) op" where
  "put_members struct ps bs = put_regs (map (\<lambda>(i, nm). (i, member struct nm bs)) ps)"

definition ReadArm :: "u8 list \<Rightarrow> (32 regs, unit) op" where
  "ReadArm remote_data =
     rbind (raw_copy (take (4 * arm_reg ARM_REG_LAST) remote_data)) (\<lambda>_. RegsArm_SetFromRaw)"

text \<open>The copy takes one element more than the array \<open>regs\<close> has, the \<open>sp\<close> behind it.\<close>

definition ReadArm64 :: "u8 list \<Rightarrow> (64 regs, unit) op" where
  "ReadArm64 remote_data =
     rbind (raw_copy (take (8 * (arm64_reg ARM64_REG_R31 + 1)) remote_data)) (\<lambda>_.
     rbind (put_regs [(arm64_reg ARM64_REG_PC, le_word (take 8 (drop (8 * 32) remote_data))),
                      (arm64_reg ARM64_REG_SP, le_word (take 8 (drop (8 * 31) remote_data)))]) (\<lambda>_.
     RegsArm64_SetFromRaw))"

definition ReadX86 :: "u8 list \<Rightarrow> (32 regs, unit) op" where
  "ReadX86 remote_data =
     rbind (put_members x86_user_regs
       [(x86_reg X86_REG_EAX, ''eax''), (x86_reg X86_REG_EBX, ''ebx''), (x86_reg X86_REG_ECX, ''ecx''),
        (x86_reg X86_REG_EDX, ''edx''), (x86_reg X86_REG_EBP, ''ebp''), (x86_reg X86_REG_EDI, ''edi''),
        (x86_reg X86_REG_ESI, ''esi''), (x86_reg X86_REG_ESP, ''esp''), (x86_reg X86_REG_EIP, ''eip'')] remote_data)
       (\<lambda>_. RegsX86_SetFromRaw)"

definition ReadX86_64 :: "u8 list \<Rightarrow> (64 regs, unit) op" where
  "ReadX86_64 remote_data =
     rbind (put_members x86_64_user_regs
       [(x86_64_reg X86_64_REG_RAX, ''rax''), (x86_64_reg X86_64_REG_RBX, ''rbx''), (x86_64_reg X86_64_REG_RCX, ''rcx''),
        (x86_64_reg X86_64_REG_RDX, ''rdx''), (x86_64_reg X86_64_REG_R8, ''r8''), (x86_64_reg X86_64_REG_R9, ''r9''),
        (x86_64_reg X86_64_REG_R10, ''r10''), (x86_64_reg X86_64_REG_R11, ''r11''), (x86_64_reg X86_64_REG_R12, ''r12''),
        (x86_64_reg X86_64_REG_R13, ''r13''), (x86_64_reg X86_64_REG_R14, ''r14''), (x86_64_reg X86_64_REG_R15, ''r15''),
        (x86_64_reg X86_64_REG_RDI, ''rdi''), (x86_64_reg X86_64_REG_RSI, ''rsi''), (x86_64_reg X86_64_REG_RBP, ''rbp''),
        (x86_64_reg X86_64_REG_RSP, ''rsp''), (x86_64_reg X86_64_REG_RIP, ''rip'')] remote_data)
       (\<lambda>_. RegsX86_64_SetFromRaw)"

text \<open>An object of one of the four classes behind a pointer \<open>Regs*\<close>.\<close>

datatype machine_regs =
    RegsArm "32 regs"
  | RegsArm64 "64 regs"
  | RegsX86 "32 regs"
  | RegsX86_64 "64 regs"

definition built :: "('r \<Rightarrow> machine_regs) \<Rightarrow> unit res \<times> 'r \<Rightarrow> machine_regs option res" where
  "built C p = (case p of (Ret _, r) \<Rightarrow> Ret (Some (C r)) | (Fail, r) \<Rightarrow> Fail | (Abort, r) \<Rightarrow> Abort | (Undef, r) \<Rightarrow> Undef)"

text \<open>\<open>RemoteGet\<close>. The argument is what \<open>ptrace\<close> answers: the bytes it writes to the buffer, as many as fit, or an error.\<close>

definition RemoteGet :: "u8 list option \<Rightarrow> u64 \<Rightarrow> u64 \<Rightarrow> machine_regs option res" where
  "RemoteGet ptrace_getregset pc sp =
     (case ptrace_getregset of
        None \<Rightarrow> Ret None
      | Some regset \<Rightarrow>
          let buffer = take (8 * (MAX_USER_REGS_SIZE div 8)) regset; iov_len = length buffer in
          if iov_len = 4 * length x86_user_regs then built RegsX86 (ReadX86 buffer (new_RegsX86 (ucast pc) (ucast sp)))
          else if iov_len = 8 * length x86_64_user_regs then built RegsX86_64 (ReadX86_64 buffer (new_RegsX86_64 pc sp))
          else if iov_len = sizeof_arm_user_regs then built RegsArm (ReadArm buffer (new_RegsArm (ucast pc) (ucast sp)))
          else if iov_len = sizeof_arm64_user_regs then built RegsArm64 (ReadArm64 buffer (new_RegsArm64 pc sp))
          else Ret None)"

section \<open>Registers from a signal context\<close>

text \<open>Offsets in the structures of \<open>Ucontext.h\<close>, with the padding that alignment adds.\<close>

definition arm_uc_mcontext :: nat where "arm_uc_mcontext = 4 + 4 + 3 * 4"
definition arm_mcontext_regs :: nat where "arm_mcontext_regs = 3 * 4"
definition arm64_uc_mcontext :: nat where "arm64_uc_mcontext = 8 + 8 + 3 * 8 + 128 + 8"
definition arm64_mcontext_regs :: nat where "arm64_mcontext_regs = 8"
definition x86_uc_mcontext :: nat where "x86_uc_mcontext = 4 + 4 + 3 * 4"
definition x86_64_uc_mcontext :: nat where "x86_64_uc_mcontext = 8 + 8 + 3 * 8"

definition x86_mcontext :: "string list" where
  "x86_mcontext = [''gs'', ''fs'', ''es'', ''ds'', ''edi'', ''esi'', ''ebp'', ''esp'', ''ebx'', ''edx'', ''ecx'', ''eax'',
     ''trapno'', ''err'', ''eip'', ''cs'', ''efl'', ''uesp'', ''ss'']"

definition x86_64_mcontext :: "string list" where
  "x86_64_mcontext = [''r8'', ''r9'', ''r10'', ''r11'', ''r12'', ''r13'', ''r14'', ''r15'', ''rdi'', ''rsi'', ''rbp'',
     ''rbx'', ''rdx'', ''rax'', ''rcx'', ''rsp'', ''rip'', ''efl'', ''csgsfs'', ''err'', ''trapno'', ''oldmask'', ''cr2'']"

definition CreateFromArmUcontext :: "u8 list \<Rightarrow> (32 regs, unit) op" where
  "CreateFromArmUcontext ucontext =
     rbind (raw_copy (take (4 * arm_reg ARM_REG_LAST) (drop (arm_uc_mcontext + arm_mcontext_regs) ucontext)))
       (\<lambda>_. RegsArm_SetFromRaw)"

definition CreateFromArm64Ucontext :: "u8 list \<Rightarrow> (64 regs, unit) op" where
  "CreateFromArm64Ucontext ucontext =
     rbind (raw_copy (take (8 * arm64_reg ARM64_REG_LAST) (drop (arm64_uc_mcontext + arm64_mcontext_regs) ucontext)))
       (\<lambda>_. RegsArm64_SetFromRaw)"

text \<open>The members of the context that become registers. The argument is the \<open>uc_mcontext\<close> of the structure.\<close>

definition RegsX86_SetFromUcontext :: "u8 list \<Rightarrow> (32 regs, unit) op" where
  "RegsX86_SetFromUcontext uc_mcontext =
     rbind (put_members x86_mcontext
       [(x86_reg X86_REG_EDI, ''edi''), (x86_reg X86_REG_ESI, ''esi''), (x86_reg X86_REG_EBP, ''ebp''),
        (x86_reg X86_REG_ESP, ''esp''), (x86_reg X86_REG_EBX, ''ebx''), (x86_reg X86_REG_EDX, ''edx''),
        (x86_reg X86_REG_ECX, ''ecx''), (x86_reg X86_REG_EAX, ''eax''), (x86_reg X86_REG_EIP, ''eip'')] uc_mcontext)
       (\<lambda>_. RegsX86_SetFromRaw)"

text \<open>The copy of eight registers at once stores the members from \<open>r8\<close> to \<open>r15\<close>.\<close>

definition RegsX86_64_SetFromUcontext :: "u8 list \<Rightarrow> (64 regs, unit) op" where
  "RegsX86_64_SetFromUcontext uc_mcontext =
     rbind (put_regs (map (\<lambda>k. (x86_64_reg X86_64_REG_R8 + k, le_word (take 8 (drop (8 * k) uc_mcontext)))) [0..<8])) (\<lambda>_.
     rbind (put_members x86_64_mcontext
       [(x86_64_reg X86_64_REG_RDI, ''rdi''), (x86_64_reg X86_64_REG_RSI, ''rsi''), (x86_64_reg X86_64_REG_RBP, ''rbp''),
        (x86_64_reg X86_64_REG_RBX, ''rbx''), (x86_64_reg X86_64_REG_RDX, ''rdx''), (x86_64_reg X86_64_REG_RAX, ''rax''),
        (x86_64_reg X86_64_REG_RCX, ''rcx''), (x86_64_reg X86_64_REG_RSP, ''rsp''), (x86_64_reg X86_64_REG_RIP, ''rip'')]
       uc_mcontext) (\<lambda>_. RegsX86_64_SetFromRaw))"

definition CreateFromX86Ucontext :: "u8 list \<Rightarrow> (32 regs, unit) op" where
  "CreateFromX86Ucontext ucontext = RegsX86_SetFromUcontext (drop x86_uc_mcontext ucontext)"

definition CreateFromX86_64Ucontext :: "u8 list \<Rightarrow> (64 regs, unit) op" where
  "CreateFromX86_64Ucontext ucontext = RegsX86_64_SetFromUcontext (drop x86_64_uc_mcontext ucontext)"

definition CreateFromUcontext :: "u32 \<Rightarrow> u8 list \<Rightarrow> u64 \<Rightarrow> u64 \<Rightarrow> machine_regs option res" where
  "CreateFromUcontext machine_type ucontext pc sp =
     (if machine_type = EM_386 then built RegsX86 (CreateFromX86Ucontext ucontext (new_RegsX86 (ucast pc) (ucast sp)))
      else if machine_type = EM_X86_64 then built RegsX86_64 (CreateFromX86_64Ucontext ucontext (new_RegsX86_64 pc sp))
      else if machine_type = EM_ARM then built RegsArm (CreateFromArmUcontext ucontext (new_RegsArm (ucast pc) (ucast sp)))
      else if machine_type = EM_AARCH64 then built RegsArm64 (CreateFromArm64Ucontext ucontext (new_RegsArm64 pc sp))
      else Ret None)"

section \<open>Stepping out of a signal handler\<close>

text \<open>The address of the saved registers, from the instruction at the pc and the first word on the stack; 0 if the
  instruction is no return from a signal.\<close>

definition arm_signal_offset :: "u32 \<Rightarrow> u64 \<Rightarrow> memory \<Rightarrow> ('s, u64) op" where
  "arm_signal_offset data sp process_memory =
     (if data = 0xe3a07077 \<or> data = 0xef900077 \<or> data = 0xdf002777 then
        rbind (read_mem process_memory sp 4) (\<lambda>bs.
          if (le_word bs :: u32) = 0x5ac3c35a then rret (sp + 0x14 + 0xc) else rret (sp + 0xc))
      else if data = 0xe3a070ad \<or> data = 0xef9000ad \<or> data = 0xdf0027ad then
        rbind (read_mem process_memory sp 4) (\<lambda>bs.
          if ucast (le_word bs :: u32) = sp + 8 then rret (sp + 8 + 0x80 + 0x14 + 0xc)
          else rret (sp + 0x80 + 0x14 + 0xc))
      else rret 0)"

definition RegsArm_StepIfSignalHandler :: "u64 \<Rightarrow> 'z elf_base_scheme \<Rightarrow> memory \<Rightarrow> (32 regs, unit) op" where
  "RegsArm_StepIfSignalHandler rel_pc elf process_memory =
     rbind (read_elf elf rel_pc 4) (\<lambda>bs. rbind get_sp (\<lambda>sp.
     rbind (arm_signal_offset (le_word bs) sp process_memory) (\<lambda>offset.
       if offset = 0 then rfail
       else rbind (raw_read process_memory offset (4 * arm_reg ARM_REG_LAST)) (\<lambda>_. RegsArm_SetFromRaw))))"

definition RegsArm64_StepIfSignalHandler :: "u64 \<Rightarrow> 'z elf_base_scheme \<Rightarrow> memory \<Rightarrow> (64 regs, unit) op" where
  "RegsArm64_StepIfSignalHandler rel_pc elf process_memory =
     rbind (read_elf elf rel_pc 8) (\<lambda>bs.
       if (le_word bs :: u64) \<noteq> 0xd4000001d2801168 then rfail
       else rbind get_sp (\<lambda>sp. rbind (raw_read process_memory (sp + 0x80 + 0xb0 + 0x08) (8 * arm64_reg ARM64_REG_LAST))
              (\<lambda>_. RegsArm64_SetFromRaw)))"

definition RegsX86_StepIfSignalHandler :: "u64 \<Rightarrow> 'z elf_base_scheme \<Rightarrow> memory \<Rightarrow> (32 regs, unit) op" where
  "RegsX86_StepIfSignalHandler rel_pc elf process_memory =
     rbind (read_elf elf rel_pc 8) (\<lambda>bs. rbind get_sp (\<lambda>sp.
       let data = le_word bs :: u64 in
       if data = 0x80cd00000077b858 then
         rbind (read_mem process_memory (sp + 4) (4 * length x86_mcontext)) (\<lambda>context.
         rbind (put_members x86_mcontext
           [(x86_reg X86_REG_EBP, ''ebp''), (x86_reg X86_REG_ESP, ''esp''), (x86_reg X86_REG_EBX, ''ebx''),
            (x86_reg X86_REG_EDX, ''edx''), (x86_reg X86_REG_ECX, ''ecx''), (x86_reg X86_REG_EAX, ''eax''),
            (x86_reg X86_REG_EIP, ''eip'')] context) (\<lambda>_. RegsX86_SetFromRaw))
       else if data AND 0x00ffffffffffffff = 0x0080cd000000adb8 then
         rbind (read_mem process_memory (sp + 8) 4) (\<lambda>bs.
         let ptr = le_word bs :: u32 in
         rbind (read_mem process_memory (ucast (ptr + 0x14)) (4 * length x86_mcontext)) RegsX86_SetFromUcontext)
       else rfail))"

definition RegsX86_64_StepIfSignalHandler :: "u64 \<Rightarrow> 'z elf_base_scheme \<Rightarrow> memory \<Rightarrow> (64 regs, unit) op" where
  "RegsX86_64_StepIfSignalHandler rel_pc elf process_memory =
     rbind (read_elf elf rel_pc 8) (\<lambda>bs.
       if (le_word bs :: u64) \<noteq> 0x0f0000000fc0c748 then rfail
       else rbind (read_elf elf (rel_pc + 8) 2) (\<lambda>bs.
         if (le_word bs :: u16) \<noteq> 0x0f05 then rfail
         else rbind get_sp (\<lambda>sp.
           rbind (read_mem process_memory (sp + 0x28) (8 * length x86_64_mcontext)) RegsX86_64_SetFromUcontext)))"

section \<open>Virtual calls\<close>

primrec MachineType :: "machine_regs \<Rightarrow> u32" where
  "MachineType (RegsArm r) = EM_ARM"
| "MachineType (RegsArm64 r) = EM_AARCH64"
| "MachineType (RegsX86 r) = EM_386"
| "MachineType (RegsX86_64 r) = EM_X86_64"

primrec pc_of :: "machine_regs \<Rightarrow> u64" where
  "pc_of (RegsArm r) = ucast (regs_pc r)"
| "pc_of (RegsArm64 r) = regs_pc r"
| "pc_of (RegsX86 r) = ucast (regs_pc r)"
| "pc_of (RegsX86_64 r) = regs_pc r"

primrec sp_of :: "machine_regs \<Rightarrow> u64" where
  "sp_of (RegsArm r) = ucast (regs_sp r)"
| "sp_of (RegsArm64 r) = regs_sp r"
| "sp_of (RegsX86 r) = ucast (regs_sp r)"
| "sp_of (RegsX86_64 r) = regs_sp r"

primrec GetAdjustedPc :: "machine_regs \<Rightarrow> u64 \<Rightarrow> 'z elf_base_scheme \<Rightarrow> u64 res" where
  "GetAdjustedPc (RegsArm r) rel_pc elf = RegsArm_GetAdjustedPc rel_pc elf"
| "GetAdjustedPc (RegsArm64 r) rel_pc elf = RegsArm64_GetAdjustedPc rel_pc elf"
| "GetAdjustedPc (RegsX86 r) rel_pc elf = RegsX86_GetAdjustedPc rel_pc elf"
| "GetAdjustedPc (RegsX86_64 r) rel_pc elf = RegsX86_64_GetAdjustedPc rel_pc elf"

primrec SetPcFromReturnAddress :: "memory \<Rightarrow> (machine_regs, unit) op" where
  "SetPcFromReturnAddress m (RegsArm r) = map_prod id RegsArm (RegsArm_SetPcFromReturnAddress r)"
| "SetPcFromReturnAddress m (RegsArm64 r) = map_prod id RegsArm64 (RegsArm64_SetPcFromReturnAddress r)"
| "SetPcFromReturnAddress m (RegsX86 r) = map_prod id RegsX86 (RegsX86_SetPcFromReturnAddress m r)"
| "SetPcFromReturnAddress m (RegsX86_64 r) = map_prod id RegsX86_64 (RegsX86_64_SetPcFromReturnAddress m r)"

primrec StepIfSignalHandler :: "u64 \<Rightarrow> 'z elf_base_scheme \<Rightarrow> memory \<Rightarrow> (machine_regs, unit) op" where
  "StepIfSignalHandler rel_pc elf m (RegsArm r) = map_prod id RegsArm (RegsArm_StepIfSignalHandler rel_pc elf m r)"
| "StepIfSignalHandler rel_pc elf m (RegsArm64 r) = map_prod id RegsArm64 (RegsArm64_StepIfSignalHandler rel_pc elf m r)"
| "StepIfSignalHandler rel_pc elf m (RegsX86 r) = map_prod id RegsX86 (RegsX86_StepIfSignalHandler rel_pc elf m r)"
| "StepIfSignalHandler rel_pc elf m (RegsX86_64 r) = map_prod id RegsX86_64 (RegsX86_64_StepIfSignalHandler rel_pc elf m r)"

end
