(* ===== verification/Regs_Signal.thy ===== *)
theory Regs_Signal
  imports Regs_Arch
begin

text \<open>
  What the register classes compute: the registers that a signal frame holds, the agreement of the data of \<open>ptrace\<close> with
  a signal context, and what a failed step leaves behind.
\<close>

section \<open>Words and their bytes\<close>

lemma length_raw_of_regs [simp]: "length (raw_of_regs (ws :: 'a::len word list)) = sizeof TYPE('a) * length ws"
  by (induction ws) (simp_all add: raw_of_regs_def)

lemma raw_of_regs_simps [simp]:
  "raw_of_regs [] = []"
  "raw_of_regs (ws @ vs) = raw_of_regs ws @ raw_of_regs vs"
  by (simp_all add: raw_of_regs_def)

lemma raw_of_regs_Cons: "raw_of_regs (w # ws) = le_bytes (sizeof TYPE('a)) (w :: 'a::len word) @ raw_of_regs ws"
  by (simp add: raw_of_regs_def)

lemma drop_raw_of_regs: "drop (sizeof TYPE('a) * k) (raw_of_regs (ws :: 'a::len word list)) = raw_of_regs (drop k ws)"
proof (cases "k \<le> length ws")
  case True
  have "raw_of_regs ws = raw_of_regs (take k ws) @ raw_of_regs (drop k ws)"
    unfolding raw_of_regs_simps(2) [symmetric] by simp
  then show ?thesis using True by simp
qed simp

text \<open>A word in the bytes of a list of words.\<close>

lemma nth_raw_of_regs:
  assumes "k < length ws" and "8 dvd LENGTH('a)"
  shows "le_word (take (sizeof TYPE('a)) (drop (sizeof TYPE('a) * k) (raw_of_regs (ws :: 'a::len word list) @ bs))) = ws ! k"
proof -
  have "drop k ws = ws ! k # drop (Suc k) ws" using assms(1) by (rule Cons_nth_drop_Suc [symmetric])
  moreover have "8 * sizeof TYPE('a) = LENGTH('a)" using assms(2) by (simp add: sizeof_def)
  ultimately show ?thesis
    using assms(1) by (simp add: drop_raw_of_regs raw_of_regs_Cons)
qed

lemma words_of_raw_of_regs:
  assumes "8 dvd LENGTH('a)" and "length ws = n"
  shows "words_of_raw n (raw_of_regs (ws :: 'a::len word list) @ bs) = ws"
  using assms nth_raw_of_regs [OF _ assms(1), of _ ws bs] by (auto simp: words_of_raw_def intro: nth_equalityI)

text \<open>A copy of whole words replaces the first registers.\<close>

lemma raw_copy_words:
  assumes "length ws \<le> length (regs_data r)" and "8 dvd LENGTH('a)"
  shows "raw_copy (raw_of_regs (ws :: 'a::len word list)) r = (Ret (), r\<lparr>regs_data := ws @ drop (length ws) (regs_data r)\<rparr>)"
proof -
  have "raw_of_regs ws @ drop (sizeof TYPE('a) * length ws) (raw_of_regs (regs_data r)) = raw_of_regs (ws @ drop (length ws) (regs_data r)) @ []"
    by (simp add: drop_raw_of_regs)
  then show ?thesis
    using assms words_of_raw_of_regs [OF assms(2), of "ws @ drop (length ws) (regs_data r)" "length (regs_data r)" "[]"]
    by (simp add: raw_copy_def Let_def)
qed

text \<open>The members of a structure whose bytes are the values of its members.\<close>

lemma member_raw:
  assumes "nm \<in> set struct" and "8 dvd LENGTH('a)"
  shows "member struct nm (raw_of_regs (map f struct) @ bs) = (f nm :: 'a::len word)"
proof -
  let ?k = "length (takeWhile (\<lambda>x. x \<noteq> nm) struct)"
  have "takeWhile (\<lambda>x. x \<noteq> nm) struct \<noteq> struct" using assms(1) by (auto simp: takeWhile_eq_all_conv)
  then have "?k \<noteq> length struct" using takeWhile_eq_take [of "\<lambda>x. x \<noteq> nm" struct] by auto
  then have k: "?k < length struct" using length_takeWhile_le [of "\<lambda>x. x \<noteq> nm" struct] by linarith
  then have "struct ! ?k = nm" using nth_length_takeWhile [of "\<lambda>x. x \<noteq> nm" struct] by simp
  then show ?thesis using nth_raw_of_regs [of ?k "map f struct" bs] k assms(2) by (simp add: member_def)
qed

text \<open>Assignments to registers of the object.\<close>

lemma put_regs_Cons:
  assumes "i < length (regs_data r)"
  shows "put_regs ((i, v) # ps) r = put_regs ps (r\<lparr>regs_data := (regs_data r)[i := v]\<rparr>)"
  using assms by (simp add: regs_put_def rbind_def)

section \<open>Signal frames\<close>

text \<open>
  The frames that the ARM kernels push, as words from the stack pointer on: a \<open>sigcontext\<close> (three words, then the
  registers), inside a \<open>ucontext\<close> (five words before it) since Linux 2.6.18, and behind a \<open>siginfo\<close>
  (32 words) for a handler with \<open>SA_SIGINFO\<close>, where older kernels put two pointers in front.
\<close>

datatype arm_sigframe =
    OldSigframe u32 u32 u32
  | Sigframe "u32 list" "u32 list"
  | RtSigframe "u32 list" "u32 list" "u32 list"
  | OldRtSigframe u32 "u32 list" "u32 list" "u32 list"

fun sigframe_words :: "u32 \<Rightarrow> arm_sigframe \<Rightarrow> u32 list" where
  "sigframe_words sp (OldSigframe t e m) = [t, e, m]"
| "sigframe_words sp (Sigframe uc sc) = 0x5ac3c35a # uc @ sc"
| "sigframe_words sp (RtSigframe si uc sc) = si @ uc @ sc"
| "sigframe_words sp (OldRtSigframe puc si uc sc) = (sp + 8) # puc # si @ uc @ sc"

fun arm_frame_ok :: "u32 \<Rightarrow> arm_sigframe \<Rightarrow> bool" where
  "arm_frame_ok sp (OldSigframe t e m) \<longleftrightarrow> t \<noteq> 0x5ac3c35a"
| "arm_frame_ok sp (Sigframe uc sc) \<longleftrightarrow> length uc = 4 \<and> length sc = 3"
| "arm_frame_ok sp (RtSigframe si uc sc) \<longleftrightarrow> length si = 32 \<and> length uc = 5 \<and> length sc = 3 \<and> hd si \<noteq> sp + 8"
| "arm_frame_ok sp (OldRtSigframe puc si uc sc) \<longleftrightarrow> length si = 32 \<and> length uc = 5 \<and> length sc = 3"

fun arm_sigreturn :: "arm_sigframe \<Rightarrow> u32 set" where
  "arm_sigreturn (OldSigframe t e m) = {0xe3a07077, 0xef900077, 0xdf002777}"
| "arm_sigreturn (Sigframe uc sc) = {0xe3a07077, 0xef900077, 0xdf002777}"
| "arm_sigreturn (RtSigframe si uc sc) = {0xe3a070ad, 0xef9000ad, 0xdf0027ad}"
| "arm_sigreturn (OldRtSigframe puc si uc sc) = {0xe3a070ad, 0xef9000ad, 0xdf0027ad}"

lemma le_word_bytes [simp]:
  "le_word (le_bytes 4 (w :: u32)) = w" "le_word (le_bytes 8 (v :: u64)) = v" "le_word (le_bytes 2 (u :: u16)) = u"
  by simp_all

lemma read_elf_holds:
  assumes "elf_memory elf = Some m" and "mem_holds m a bs" and "0 < n" and "n \<le> length bs"
  shows "read_elf elf a n s = (Ret (take n bs), s)"
  using assms mem_holds_read [of m a bs n] by (simp add: read_elf_def read_mem_def)

lemma raw_read_holds:
  assumes "mem_holds m a (raw_of_regs ws)" and "length ws = length (regs_data r)" and "ws \<noteq> []"
  shows "raw_read m a (4 * length ws) r = (Ret (), r\<lparr>regs_data := (ws :: u32 list)\<rparr>)"
proof -
  have "mem_Read m a (4 * length ws) = Ret (raw_of_regs ws)"
    using mem_holds_read [OF assms(1), of "4 * length ws"] assms(3) by simp
  then show ?thesis using raw_copy_words [of ws r] assms(2) by (simp add: raw_read_def)
qed

lemma unat_ucast_u32 [simp]: "unat (ucast (w :: u32) :: u64) = unat w"
proof -
  have "unat w < 2 ^ 32" using unsigned_less [of w, where ?'a = nat] by simp
  then have "unat w < 2 ^ 64" by simp
  then show ?thesis by (simp add: unsigned_ucast_eq take_bit_nat_eq_self)
qed

lemma set_from_raw_eq:
  assumes "pcr < length (regs_data r)" and "spr < length (regs_data r)"
  shows "set_from_raw pcr spr r = (Ret (), r\<lparr>regs_pc := regs_data r ! pcr, regs_sp := regs_data r ! spr\<rparr>)"
  using assms by (simp add: set_from_raw_def rbind_def get_reg_def regs_at_def modify_def set_pc_def set_sp_def)

text \<open>Where the code looks for the registers.\<close>

lemma arm_frame_length:
  "arm_frame_ok sp fr \<Longrightarrow> 4 * length (sigframe_words sp fr) =
     (case fr of OldSigframe _ _ _ \<Rightarrow> 0xc | Sigframe _ _ \<Rightarrow> 0x14 + 0xc | RtSigframe _ _ _ \<Rightarrow> 0x80 + 0x14 + 0xc
      | OldRtSigframe _ _ _ _ \<Rightarrow> 8 + 0x80 + 0x14 + 0xc)"
  by (cases fr) auto

lemma arm_frame_first:
  assumes "mem_holds m a (raw_of_regs (sigframe_words sp fr @ ws))" and "arm_frame_ok sp fr"
  shows "mem_Read m a 4 = Ret (le_bytes 4 (hd (sigframe_words sp fr)))"
proof -
  have "sigframe_words sp fr \<noteq> []" using assms(2) by (cases fr) auto
  then have "raw_of_regs (sigframe_words sp fr @ ws) = le_bytes 4 (hd (sigframe_words sp fr)) @ raw_of_regs (tl (sigframe_words sp fr) @ ws)"
    by (cases "sigframe_words sp fr") (simp_all add: raw_of_regs_Cons)
  then show ?thesis using mem_holds_read [OF assms(1), of 4] by simp
qed

text \<open>The code finds the end of the frame.\<close>

lemma arm_signal_offset_frame:
  fixes w :: u32
  assumes "mem_Read pm sp 4 = Ret (le_bytes 4 w)" and "ucast w = sp + 8 \<longleftrightarrow> w = sp32 + 8"
  shows "code \<in> {0xe3a07077, 0xef900077, 0xdf002777} \<Longrightarrow>
      arm_signal_offset code sp pm r = (Ret (sp + (if w = 0x5ac3c35a then 0x20 else 0xc)), r)"
    and "code \<in> {0xe3a070ad, 0xef9000ad, 0xdf0027ad} \<Longrightarrow>
      arm_signal_offset code sp pm r = (Ret (sp + (if w = sp32 + 8 then 0xa8 else 0xa0)), r)"
proof -
  have rm: "rbind (read_mem pm sp 4) g r = g (le_bytes 4 w) r" for g using assms(1) by (simp add: rbind_def read_mem_def)
  show "code \<in> {0xe3a07077, 0xef900077, 0xdf002777} \<Longrightarrow>
      arm_signal_offset code sp pm r = (Ret (sp + (if w = 0x5ac3c35a then 0x20 else 0xc)), r)"
    unfolding arm_signal_offset_def by (simp add: rm rret_def)
  show "code \<in> {0xe3a070ad, 0xef9000ad, 0xdf0027ad} \<Longrightarrow>
      arm_signal_offset code sp pm r = (Ret (sp + (if w = sp32 + 8 then 0xa8 else 0xa0)), r)"
    unfolding arm_signal_offset_def by (elim insertE) (simp_all add: rm rret_def assms(2))
qed

lemma RegsArm_StepIfSignalHandler_frame:
  fixes r :: "32 regs"
  defines "sp \<equiv> regs_sp r"
  assumes "elf_memory elf = Some m" and "mem_holds m rel_pc (le_bytes 4 code)" and "code \<in> arm_sigreturn fr"
    and "mem_holds pm (ucast sp) (raw_of_regs (sigframe_words sp fr @ ws))" and "arm_frame_ok sp fr" and "unat sp + 8 < 2 ^ 32"
    and "length ws = 16" and "length (regs_data r) = 16"
  shows "RegsArm_StepIfSignalHandler rel_pc elf pm r = (Ret (), r\<lparr>regs_data := ws, regs_pc := ws ! 15, regs_sp := ws ! 13\<rparr>)"
proof -
  let ?n = "4 * length (sigframe_words sp fr)"
  have ws: "mem_holds pm (ucast sp + of_nat ?n) (raw_of_regs ws)"
    using mem_holds_append(2) [of pm "ucast sp" "raw_of_regs (sigframe_words sp fr)" "raw_of_regs ws"] assms(5) by simp
  have rr: "rbind (raw_read pm (ucast sp + of_nat ?n) 64) (\<lambda>_. RegsArm_SetFromRaw) r =
      (Ret (), r\<lparr>regs_data := ws, regs_pc := ws ! 15, regs_sp := ws ! 13\<rparr>)"
  proof -
    have "ws \<noteq> []" using assms(8) by auto
    then have "raw_read pm (ucast sp + of_nat ?n) 64 r = (Ret (), r\<lparr>regs_data := ws\<rparr>)"
      using raw_read_holds [OF ws, of r] assms(8,9) by simp
    then show ?thesis using assms(8) by (simp add: rbind_def RegsArm_SetFromRaw_def set_from_raw_eq)
  qed
  have "unat (ucast sp + of_nat ?n :: u64) \<noteq> 0"
  proof -
    have "0 < ?n \<and> ?n \<le> 168" using arm_frame_length [OF assms(6)] by (cases fr) auto
    moreover have "unat (ucast sp :: u64) < 2 ^ 32" using unsigned_less [of sp, where ?'a = nat] by simp
    ultimately show ?thesis by (simp add: unat_word_ariths unat_of_nat)
  qed
  then have nz: "ucast sp + of_nat ?n \<noteq> (0 :: u64)" by (metis unat_0)
  have e: "read_elf elf rel_pc 4 r = (Ret (le_bytes 4 code), r)" using read_elf_holds [OF assms(2,3), of 4] by simp
  note f = arm_frame_first [OF assms(5,6)]
  have sp8: "ucast w = (ucast sp + 8 :: u64) \<longleftrightarrow> w = sp + 8" for w :: u32
  proof -
    have "unat (ucast sp + 8 :: u64) = unat sp + 8" "unat (sp + 8) = unat sp + 8"
      using assms(7) by (simp_all add: unat_word_ariths)
    moreover have "ucast w = v \<longleftrightarrow> unat w = unat v" for v :: u64 by (metis unat_ucast_u32 unsigned_word_eqI)
    moreover have "w = v \<longleftrightarrow> unat w = unat v" for v by (metis unsigned_word_eqI)
    ultimately show ?thesis by simp
  qed
  have "arm_signal_offset code (ucast sp) pm r = (Ret (ucast sp + of_nat ?n), r)"
    using arm_signal_offset_frame [OF f sp8, of code r] assms(4,6) unfolding arm_frame_length [OF assms(6)]
    by (cases fr) (simp_all only: sigframe_words.simps arm_frame_ok.simps arm_sigreturn.simps list.sel arm_sigframe.case, auto simp: hd_append)
  then show ?thesis
    using nz rr e by (simp add: RegsArm_StepIfSignalHandler_def get_sp_def sp_def)
qed

section \<open>One machine state, two ways to read it\<close>

text \<open>
  A machine state gives a value to the name of each register. The images are the bytes of the state in the
  structure that \<open>ptrace\<close> fills and in the \<open>uc_mcontext\<close> of a signal context, and \<open>arch_regs\<close> is the object that stands for it.
\<close>

datatype arch = Arm | Arm64 | X86 | X86_64

definition arm_names :: "string list" where
  "arm_names = [''r0'', ''r1'', ''r2'', ''r3'', ''r4'', ''r5'', ''r6'', ''r7'', ''r8'', ''r9'', ''r10'', ''r11'', ''r12'', ''sp'', ''lr'', ''pc'']"

definition arm64_names :: "string list" where
  "arm64_names = [''x0'', ''x1'', ''x2'', ''x3'', ''x4'', ''x5'', ''x6'', ''x7'', ''x8'', ''x9'', ''x10'', ''x11'', ''x12'', ''x13'',
     ''x14'', ''x15'', ''x16'', ''x17'', ''x18'', ''x19'', ''x20'', ''x21'', ''x22'', ''x23'', ''x24'', ''x25'', ''x26'', ''x27'',
     ''x28'', ''x29'', ''x30'', ''sp'', ''pc'']"

abbreviation image32 :: "(string \<Rightarrow> u64) \<Rightarrow> string list \<Rightarrow> u8 list" where
  "image32 f nms \<equiv> raw_of_regs (map (\<lambda>nm. ucast (f nm) :: u32) nms)"

abbreviation image64 :: "(string \<Rightarrow> u64) \<Rightarrow> string list \<Rightarrow> u8 list" where
  "image64 f nms \<equiv> raw_of_regs (map f nms)"

fun user_image :: "arch \<Rightarrow> (string \<Rightarrow> u64) \<Rightarrow> u8 list" where
  "user_image Arm f = image32 f (arm_names @ [''cpsr'', ''orig_r0''])"
| "user_image Arm64 f = image64 f (arm64_names @ [''pstate''])"
| "user_image X86 f = image32 f x86_user_regs"
| "user_image X86_64 f = image64 f x86_64_user_regs"

fun context_image :: "arch \<Rightarrow> (string \<Rightarrow> u64) \<Rightarrow> u8 list" where
  "context_image Arm f = image32 f ([''trap_no'', ''error_code'', ''oldmask''] @ arm_names @ [''cpsr'', ''fault_address''])"
| "context_image Arm64 f = image64 f ([''fault_address''] @ arm64_names @ [''pstate''])"
| "context_image X86 f = image32 f x86_mcontext"
| "context_image X86_64 f = image64 f x86_64_mcontext"

fun context_offset :: "arch \<Rightarrow> nat" where
  "context_offset Arm = 0x14"
| "context_offset Arm64 = 0xb0"
| "context_offset X86 = 0x14"
| "context_offset X86_64 = 0x28"

fun arch_machine :: "arch \<Rightarrow> u32" where
  "arch_machine Arm = EM_ARM"
| "arch_machine Arm64 = EM_AARCH64"
| "arch_machine X86 = EM_386"
| "arch_machine X86_64 = EM_X86_64"

fun arch_regs :: "arch \<Rightarrow> (string \<Rightarrow> u64) \<Rightarrow> machine_regs" where
  "arch_regs Arm f = RegsArm ((new_RegsArm (ucast (f ''pc'')) (ucast (f ''sp'')))
     \<lparr>regs_data := map (\<lambda>nm. ucast (f nm)) arm_names\<rparr>)"
| "arch_regs Arm64 f = RegsArm64 ((new_RegsArm64 (f ''pc'') (f ''sp''))\<lparr>regs_data := map f arm64_names\<rparr>)"
| "arch_regs X86 f = RegsX86 ((new_RegsX86 (ucast (f ''eip'')) (ucast (f ''esp'')))
     \<lparr>regs_data := map (\<lambda>nm. ucast (f nm)) [''eax'', ''ecx'', ''edx'', ''ebx'', ''esp'', ''ebp'', ''esi'', ''edi'', ''eip''] @ replicate 7 0\<rparr>)"
| "arch_regs X86_64 f = RegsX86_64 ((new_RegsX86_64 (f ''rip'') (f ''rsp''))
     \<lparr>regs_data := map f [''rax'', ''rdx'', ''rcx'', ''rbx'', ''rsi'', ''rdi'', ''rbp'', ''rsp'', ''r8'', ''r9'', ''r10'', ''r11'', ''r12'',
        ''r13'', ''r14'', ''r15'', ''rip'']\<rparr>)"

text \<open>A sequence of assignments.\<close>

lemma put_regs_fold:
  assumes "\<forall>(i, v) \<in> set ps. i < length (regs_data r)"
  shows "put_regs ps r = (Ret (), r\<lparr>regs_data := fold (\<lambda>(i, v) xs. xs[i := v]) ps (regs_data r)\<rparr>)"
  using assms
proof (induction ps arbitrary: r)
  case (Cons p ps)
  then show ?case by (cases p) (simp add: put_regs_Cons del: put_regs.simps)
qed (simp add: rret_def)

lemma put_members_fold:
  assumes "\<forall>(i, nm) \<in> set ps. i < length (regs_data r) \<and> nm \<in> set struct" and "8 dvd LENGTH('a)"
  shows "put_members struct ps (raw_of_regs (map f struct) @ bs) r =
      (Ret (), r\<lparr>regs_data := fold (\<lambda>(i, nm) xs. xs[i := f nm]) ps (regs_data r :: 'a::len word list)\<rparr>)"
proof -
  have e: "map (\<lambda>(i, nm). (i, member struct nm (raw_of_regs (map f struct) @ bs))) ps = map (\<lambda>(i, nm). (i, f nm :: 'a word)) ps"
    using assms member_raw [where 'a = 'a, of _ struct f bs] by auto
  have "\<forall>(i, v) \<in> set (map (\<lambda>(i, nm). (i, f nm)) ps). i < length (regs_data r)" using assms(1) by auto
  then show ?thesis
    using put_regs_fold [of "map (\<lambda>(i, nm). (i, f nm)) ps" r] unfolding put_members_def e
    by (simp add: fold_map comp_def case_prod_unfold)
qed

text \<open>The register numbers of the two Intel architectures in the order of the assignments.\<close>

lemma x86_assignments:
  assumes "length xs = 16"
  shows "xs[0 := a, 3 := b, 1 := c, 2 := d, 5 := bp, 7 := di, 6 := si, 4 := sp, 8 := ip] = [a, c, d, b, sp, bp, si, di, ip] @ drop 9 xs"
    and "xs[7 := di, 6 := si, 5 := bp, 4 := sp, 3 := b, 2 := d, 1 := c, 0 := a, 8 := ip] = [a, c, d, b, sp, bp, si, di, ip] @ drop 9 xs"
    and "xs[5 := bp, 4 := sp, 3 := b, 2 := d, 1 := c, 0 := a, 8 := ip] = [a, c, d, b, sp, bp, xs ! 6, xs ! 7, ip] @ drop 9 xs"
  using assms by (auto simp: numeral_eq_Suc length_Suc_conv)

lemma x86_64_assignments:
  assumes "length xs = 17"
  shows "xs[0 := a, 3 := b, 2 := c, 1 := d, 8 := r8, 9 := r9, 10 := r10, 11 := r11, 12 := r12, 13 := r13, 14 := r14, 15 := r15,
      5 := di, 4 := si, 6 := bp, 7 := sp, 16 := ip] = [a, d, c, b, si, di, bp, sp, r8, r9, r10, r11, r12, r13, r14, r15, ip]"
    and "xs[8 := r8, 9 := r9, 10 := r10, 11 := r11, 12 := r12, 13 := r13, 14 := r14, 15 := r15, 5 := di, 4 := si, 6 := bp, 3 := b, 1 := d,
      0 := a, 2 := c, 7 := sp, 16 := ip] = [a, d, c, b, si, di, bp, sp, r8, r9, r10, r11, r12, r13, r14, r15, ip]"
  using assms by (auto simp: numeral_eq_Suc length_Suc_conv)

text \<open>The object after each of the eight ways to fill it.\<close>

lemma ReadX86_image:
  assumes "length (regs_data r) = 16"
  shows "ReadX86 (image32 f x86_user_regs) r = (Ret (), r\<lparr>regs_pc := ucast (f ''eip''), regs_sp := ucast (f ''esp''),
      regs_data := map (\<lambda>nm. ucast (f nm)) [''eax'', ''ecx'', ''edx'', ''ebx'', ''esp'', ''ebp'', ''esi'', ''edi'', ''eip''] @ drop 9 (regs_data r)\<rparr>)"
proof -
  have "put_members x86_user_regs [(0, ''eax''), (3, ''ebx''), (1, ''ecx''), (2, ''edx''), (5, ''ebp''), (7, ''edi''), (6, ''esi''), (4, ''esp''), (8, ''eip'')]
      (image32 f x86_user_regs @ []) r = (Ret (), r\<lparr>regs_data :=
        map (\<lambda>nm. ucast (f nm)) [''eax'', ''ecx'', ''edx'', ''ebx'', ''esp'', ''ebp'', ''esi'', ''edi'', ''eip''] @ drop 9 (regs_data r)\<rparr>)"
    using assms by (subst put_members_fold) (simp_all add: x86_user_regs_def x86_assignments [unfolded One_nat_def])
  then show ?thesis
    using assms by (simp add: ReadX86_def RegsX86_SetFromRaw_def set_from_raw_eq)
qed

lemma RegsX86_SetFromUcontext_image:
  assumes "length (regs_data r) = 16"
  shows "RegsX86_SetFromUcontext (image32 f x86_mcontext) r = (Ret (), r\<lparr>regs_pc := ucast (f ''eip''), regs_sp := ucast (f ''esp''),
      regs_data := map (\<lambda>nm. ucast (f nm)) [''eax'', ''ecx'', ''edx'', ''ebx'', ''esp'', ''ebp'', ''esi'', ''edi'', ''eip''] @ drop 9 (regs_data r)\<rparr>)"
proof -
  have "put_members x86_mcontext [(7, ''edi''), (6, ''esi''), (5, ''ebp''), (4, ''esp''), (3, ''ebx''), (2, ''edx''), (1, ''ecx''), (0, ''eax''), (8, ''eip'')]
      (image32 f x86_mcontext @ []) r = (Ret (), r\<lparr>regs_data :=
        map (\<lambda>nm. ucast (f nm)) [''eax'', ''ecx'', ''edx'', ''ebx'', ''esp'', ''ebp'', ''esi'', ''edi'', ''eip''] @ drop 9 (regs_data r)\<rparr>)"
    using assms by (subst put_members_fold) (simp_all add: x86_mcontext_def x86_assignments [unfolded One_nat_def])
  then show ?thesis
    using assms by (simp add: RegsX86_SetFromUcontext_def RegsX86_SetFromRaw_def set_from_raw_eq)
qed

abbreviation "x86_64_dwarf_order \<equiv> [''rax'', ''rdx'', ''rcx'', ''rbx'', ''rsi'', ''rdi'', ''rbp'', ''rsp'', ''r8'', ''r9'', ''r10'', ''r11'', ''r12'',
        ''r13'', ''r14'', ''r15'', ''rip'']"

lemma ReadX86_64_image:
  assumes "length (regs_data r) = 17"
  shows "ReadX86_64 (image64 f x86_64_user_regs) r =
      (Ret (), r\<lparr>regs_pc := f ''rip'', regs_sp := f ''rsp'', regs_data := map f x86_64_dwarf_order\<rparr>)"
proof -
  have "put_members x86_64_user_regs [(0, ''rax''), (3, ''rbx''), (2, ''rcx''), (1, ''rdx''), (8, ''r8''), (9, ''r9''), (10, ''r10''), (11, ''r11''),
      (12, ''r12''), (13, ''r13''), (14, ''r14''), (15, ''r15''), (5, ''rdi''), (4, ''rsi''), (6, ''rbp''), (7, ''rsp''), (16, ''rip'')]
      (image64 f x86_64_user_regs @ []) r = (Ret (), r\<lparr>regs_data := map f x86_64_dwarf_order\<rparr>)"
    using assms by (subst put_members_fold) (simp_all add: x86_64_user_regs_def x86_64_assignments [unfolded One_nat_def])
  then show ?thesis
    by (simp add: ReadX86_64_def RegsX86_64_SetFromRaw_def set_from_raw_eq)
qed

lemma RegsX86_64_SetFromUcontext_image:
  assumes "length (regs_data r) = 17"
  shows "RegsX86_64_SetFromUcontext (image64 f x86_64_mcontext) r =
      (Ret (), r\<lparr>regs_pc := f ''rip'', regs_sp := f ''rsp'', regs_data := map f x86_64_dwarf_order\<rparr>)"
proof -
  define r8 where "r8 = r\<lparr>regs_data := (regs_data r)[8 := f ''r8'', 9 := f ''r9'', 10 := f ''r10'', 11 := f ''r11'', 12 := f ''r12'',
    13 := f ''r13'', 14 := f ''r14'', 15 := f ''r15'']\<rparr>"
  have up: "[0..<8] = [0, 1, 2, 3, 4, 5, 6, 7]" by (simp add: upt_rec)
  have w: "le_word (take 8 (drop (8 * k) (image64 f x86_64_mcontext))) = f (x86_64_mcontext ! k)" if "k < length x86_64_mcontext" for k
    using nth_raw_of_regs [of k "map f x86_64_mcontext" "[]"] that by simp
  have n: "k < 8 \<Longrightarrow> k < length x86_64_mcontext" for k by (simp add: x86_64_mcontext_def)
  have "map (\<lambda>k. (8 + k, le_word (take 8 (drop (8 * k) (image64 f x86_64_mcontext))) :: u64)) [0..<8] =
      map (\<lambda>k. (8 + k, f (x86_64_mcontext ! k))) [0..<8]" by (rule map_cong [OF refl]) (simp add: w n)
  also have "\<dots> = [(8, f ''r8''), (9, f ''r9''), (10, f ''r10''), (11, f ''r11''), (12, f ''r12''), (13, f ''r13''), (14, f ''r14''), (15, f ''r15'')]"
    unfolding up by (simp add: x86_64_mcontext_def)
  finally have p: "put_regs (map (\<lambda>k. (8 + k, le_word (take 8 (drop (8 * k) (image64 f x86_64_mcontext))))) [0..<8]) r = (Ret (), r8)"
    using assms by (simp add: put_regs_fold r8_def del: put_regs.simps)
  have "put_members x86_64_mcontext [(5, ''rdi''), (4, ''rsi''), (6, ''rbp''), (3, ''rbx''), (1, ''rdx''), (0, ''rax''), (2, ''rcx''), (7, ''rsp''), (16, ''rip'')]
      (image64 f x86_64_mcontext @ []) r8 = (Ret (), r8\<lparr>regs_data := map f x86_64_dwarf_order\<rparr>)"
    using assms by (subst put_members_fold) (simp_all add: r8_def x86_64_mcontext_def x86_64_assignments [unfolded One_nat_def])
  with p show ?thesis
    by (simp add: RegsX86_64_SetFromUcontext_def RegsX86_64_SetFromRaw_def set_from_raw_eq r8_def)
qed

lemma ReadArm_image:
  assumes "length (regs_data r) = 16" and "length nms = 16"
  shows "ReadArm (image32 f (nms @ extra)) r =
      (Ret (), r\<lparr>regs_pc := ucast (f (nms ! 15)), regs_sp := ucast (f (nms ! 13)), regs_data := map (\<lambda>nm. ucast (f nm)) nms\<rparr>)"
  using raw_copy_words [of "map (\<lambda>nm. ucast (f nm) :: u32) nms" r] assms
  by (simp add: ReadArm_def RegsArm_SetFromRaw_def set_from_raw_eq)

lemma ReadArm64_image:
  assumes "length (regs_data r) = 33" and "length nms = 33"
  shows "ReadArm64 (image64 f (nms @ extra)) r =
      (Ret (), r\<lparr>regs_pc := f (nms ! 32), regs_sp := f (nms ! 31), regs_data := map f nms\<rparr>)"
proof -
  let ?b = "image64 f (nms @ extra)"
  have b: "?b = raw_of_regs (map f (take 32 nms)) @ raw_of_regs (map f (drop 32 nms @ extra))"
    by (metis append_take_drop_id append.assoc map_append raw_of_regs_simps(2))
  have "take 256 ?b = raw_of_regs (map f (take 32 nms))" unfolding b using assms(2) by simp
  then have c: "raw_copy (take 256 ?b) r = (Ret (), r\<lparr>regs_data := map f (take 32 nms) @ drop 32 (regs_data r)\<rparr>)"
    using raw_copy_words [of "map f (take 32 nms)" r] assms by simp
  have w: "le_word (take 8 (drop (8 * k) ?b)) = f (nms ! k)" if "k < 33" for k
    using nth_raw_of_regs [of k "map f (nms @ extra)" "[]"] that assms(2) by (simp add: nth_append)
  have l: "(map f (take 32 nms) @ drop 32 (regs_data r))[32 := f (nms ! 32), 31 := f (nms ! 31)] = map f nms"
    using assms by (intro nth_equalityI) (auto simp: nth_list_update nth_append less_Suc_eq)
  show ?thesis
    using c w [of 31] w [of 32] l assms
    by (simp add: ReadArm64_def put_regs_fold RegsArm64_SetFromRaw_def set_from_raw_eq del: put_regs.simps)
qed

lemma CreateFromArmUcontext_image:
  assumes "length (regs_data r) = 16" and "length nms = 16" and "length pre = 32"
  shows "CreateFromArmUcontext (pre @ image32 f (nms @ extra)) r = ReadArm (image32 f (nms @ extra)) r"
  using assms by (simp add: CreateFromArmUcontext_def ReadArm_def arm_uc_mcontext_def arm_mcontext_regs_def)

lemma CreateFromArm64Ucontext_image:
  assumes "length (regs_data r) = 33" and "length nms = 33" and "length pre = 184"
  shows "CreateFromArm64Ucontext (pre @ image64 f (nms @ extra)) r =
      (Ret (), r\<lparr>regs_pc := f (nms ! 32), regs_sp := f (nms ! 31), regs_data := map f nms\<rparr>)"
  using raw_copy_words [of "map f nms" r] assms
  by (simp add: CreateFromArm64Ucontext_def arm64_uc_mcontext_def arm64_mcontext_regs_def RegsArm64_SetFromRaw_def set_from_raw_eq)

lemma new_regs_data [simp]:
  "length (regs_data (new_RegsArm pc32 sp32)) = 16" "length (regs_data (new_RegsArm64 pc sp)) = 33"
  "length (regs_data (new_RegsX86 pc32 sp32)) = 16" "length (regs_data (new_RegsX86_64 pc sp)) = 17"
  by (simp_all add: new_RegsArm_def new_RegsArm64_def new_RegsX86_def new_RegsX86_64_def new_RegsImpl_def)

lemma new_regs_update [simp]:
  "(new_RegsArm p q)\<lparr>regs_pc := pc32, regs_sp := sp32\<rparr> = new_RegsArm pc32 sp32"
  "(new_RegsArm64 p2 q2)\<lparr>regs_pc := pc, regs_sp := sp\<rparr> = new_RegsArm64 pc sp"
  "(new_RegsX86 p q)\<lparr>regs_pc := pc32, regs_sp := sp32\<rparr> = new_RegsX86 pc32 sp32"
  "(new_RegsX86_64 p2 q2)\<lparr>regs_pc := pc, regs_sp := sp\<rparr> = new_RegsX86_64 pc sp"
  by (simp_all add: new_RegsArm_def new_RegsArm64_def new_RegsX86_def new_RegsX86_64_def new_RegsImpl_def)

lemma drop_new_RegsX86: "drop 9 (regs_data (new_RegsX86 p q)) = replicate 7 0"
  by (simp add: new_RegsX86_def new_RegsImpl_def)

lemma RemoteGet_image: "RemoteGet (Some (user_image a f)) pc sp = Ret (Some (arch_regs a f))"
proof (cases a)
  case Arm
  have "length arm_names = 16" "arm_names ! 15 = ''pc''" "arm_names ! 13 = ''sp''" by (simp_all add: arm_names_def)
  then show ?thesis
    using ReadArm_image [of "new_RegsArm (ucast pc) (ucast sp)" arm_names f "[''cpsr'', ''orig_r0'']"] Arm
    by (simp add: RemoteGet_def built_def MAX_USER_REGS_SIZE_def sizeof_arm_user_regs_def sizeof_arm64_user_regs_def
        x86_user_regs_def x86_64_user_regs_def)
next
  case Arm64
  have "length arm64_names = 33" "arm64_names ! 32 = ''pc''" "arm64_names ! 31 = ''sp''" by (simp_all add: arm64_names_def)
  then show ?thesis
    using ReadArm64_image [of "new_RegsArm64 pc sp" arm64_names f "[''pstate'']"] Arm64
    by (simp add: RemoteGet_def built_def MAX_USER_REGS_SIZE_def sizeof_arm_user_regs_def sizeof_arm64_user_regs_def
        x86_user_regs_def x86_64_user_regs_def)
next
  case X86
  then show ?thesis
    using ReadX86_image [of "new_RegsX86 (ucast pc) (ucast sp)" f]
    by (simp add: RemoteGet_def built_def MAX_USER_REGS_SIZE_def sizeof_arm64_user_regs_def drop_new_RegsX86 x86_user_regs_def)
next
  case X86_64
  then show ?thesis
    using ReadX86_64_image [of "new_RegsX86_64 pc sp" f]
    by (simp add: RemoteGet_def built_def MAX_USER_REGS_SIZE_def sizeof_arm64_user_regs_def x86_user_regs_def x86_64_user_regs_def)
qed

lemma CreateFromUcontext_image:
  assumes "length pre = context_offset a"
  shows "CreateFromUcontext (arch_machine a) (pre @ context_image a f) pc sp = Ret (Some (arch_regs a f))"
proof (cases a)
  case Arm
  have "length arm_names = 16" "arm_names ! 15 = ''pc''" "arm_names ! 13 = ''sp''" by (simp_all add: arm_names_def)
  then show ?thesis
    using CreateFromArmUcontext_image [of "new_RegsArm (ucast pc) (ucast sp)" arm_names
        "pre @ image32 f [''trap_no'', ''error_code'', ''oldmask'']" f "[''cpsr'', ''fault_address'']"]
      ReadArm_image [of "new_RegsArm (ucast pc) (ucast sp)" arm_names f "[''cpsr'', ''fault_address'']"] Arm assms
    by (simp add: CreateFromUcontext_def built_def EM_386_def EM_X86_64_def EM_ARM_def flip: raw_of_regs_simps(2))
next
  case Arm64
  have "length arm64_names = 33" "arm64_names ! 32 = ''pc''" "arm64_names ! 31 = ''sp''" by (simp_all add: arm64_names_def)
  then show ?thesis
    using CreateFromArm64Ucontext_image [of "new_RegsArm64 pc sp" arm64_names "pre @ image64 f [''fault_address'']" f "[''pstate'']"] Arm64 assms
    by (simp add: CreateFromUcontext_def built_def EM_386_def EM_X86_64_def EM_ARM_def EM_AARCH64_def flip: raw_of_regs_simps(2))
next
  case X86
  then show ?thesis
    using RegsX86_SetFromUcontext_image [of "new_RegsX86 (ucast pc) (ucast sp)" f] assms
    by (simp add: CreateFromUcontext_def CreateFromX86Ucontext_def x86_uc_mcontext_def built_def drop_new_RegsX86)
next
  case X86_64
  then show ?thesis
    using RegsX86_64_SetFromUcontext_image [of "new_RegsX86_64 pc sp" f] assms
    by (simp add: CreateFromUcontext_def CreateFromX86_64Ucontext_def x86_64_uc_mcontext_def built_def EM_386_def EM_X86_64_def)
qed

section \<open>Failed steps\<close>

text \<open>An operation that leaves the object alone, one that never fails, and one that leaves the object alone when it fails.\<close>

definition pure_op :: "('s, 'a) op \<Rightarrow> bool" where
  "pure_op f \<longleftrightarrow> (\<forall>s. snd (f s) = s)"

definition never_fails :: "('s, 'a) op \<Rightarrow> bool" where
  "never_fails f \<longleftrightarrow> (\<forall>s. fst (f s) \<noteq> Fail)"

definition fail_keeps :: "('s, 'a) op \<Rightarrow> bool" where
  "fail_keeps f \<longleftrightarrow> (\<forall>s s'. f s = (Fail, s') \<longrightarrow> s' = s)"

lemma fail_keeps_bind_pure: "pure_op f \<Longrightarrow> (\<And>v. fail_keeps (g v)) \<Longrightarrow> fail_keeps (rbind f g)"
  by (auto simp: pure_op_def fail_keeps_def rbind_eq_Fail) (metis snd_conv)+

lemma fail_keeps_bind_last: "fail_keeps f \<Longrightarrow> (\<And>v. never_fails (g v)) \<Longrightarrow> fail_keeps (rbind f g)"
  by (auto simp: never_fails_def fail_keeps_def rbind_eq_Fail) (metis fst_conv)+

lemma never_fails_bind: "never_fails f \<Longrightarrow> (\<And>v. never_fails (g v)) \<Longrightarrow> never_fails (rbind f g)"
  by (auto simp: never_fails_def rbind_def split: prod.split res.split) (metis fst_conv)

lemma never_fails_fail_keeps: "never_fails f \<Longrightarrow> fail_keeps f"
  by (auto simp: never_fails_def fail_keeps_def) (metis fst_conv)

lemma fail_keeps_basic: "fail_keeps rfail"
  by (simp add: fail_keeps_def rfail_def)

lemma pure_op_reads: "pure_op (read_mem m a n)" "pure_op (read_elf elf a n)" "pure_op (arm_signal_offset d sp pm)" "pure_op get_sp"
proof -
  show "pure_op get_sp" by (simp add: pure_op_def get_sp_def)
  show m: "pure_op (read_mem m a n)" for m a n by (simp add: pure_op_def read_mem_def)
  show "pure_op (read_elf elf a n)" by (cases "elf_memory elf") (simp_all add: read_elf_def m, simp add: pure_op_def rundef_def)
  show "pure_op (arm_signal_offset d sp pm)"
    by (auto simp: pure_op_def arm_signal_offset_def rbind_def read_mem_def rret_def split: res.split)
qed

lemma never_fails_put_regs: "never_fails (put_regs ps)"
  by (induction ps) (auto simp: never_fails_def rret_def rbind_def regs_put_def split: if_splits)

lemma never_fails_set_from_raw: "never_fails (set_from_raw p q)"
  by (simp add: never_fails_def set_from_raw_def rbind_def get_reg_def regs_at_def modify_def)

lemma never_fails_put_members: "never_fails (put_members struct ps bs)"
  unfolding put_members_def by (rule never_fails_put_regs)

lemmas never_fails_put = never_fails_put_regs never_fails_put_members never_fails_set_from_raw

lemma fail_keeps_raw_read:
  assumes "all_or_nothing m" and "8 dvd LENGTH('a)"
  shows "fail_keeps (raw_read m a n :: ('a::len regs, unit) op)"
proof -
  have "raw_copy [] (r :: 'a regs) = (Ret (), r)" for r using raw_copy_words [of "[]" r] assms(2) by simp
  moreover have "raw_copy bs (r :: 'a regs) \<noteq> (Fail, r')" for bs r r' by (simp add: raw_copy_def Let_def)
  ultimately show ?thesis
    using assms(1) by (auto simp: fail_keeps_def raw_read_def all_or_nothing_stored rfail_def split: res.splits)
qed

lemma fail_keeps_if: "fail_keeps f \<Longrightarrow> fail_keeps g \<Longrightarrow> fail_keeps (if b then f else g)"
  by simp

lemmas fail_keeps_rules = fail_keeps_basic fail_keeps_if pure_op_reads [THEN fail_keeps_bind_pure]
  never_fails_put [THEN never_fails_fail_keeps] never_fails_put [THEN never_fails_bind, THEN never_fails_fail_keeps]
  never_fails_put never_fails_put [THEN never_fails_bind]

lemma StepIfSignalHandler_fail_keeps:
  assumes "all_or_nothing pm"
  shows "fail_keeps (StepIfSignalHandler rel_pc elf pm)"
proof -
  note raw = fail_keeps_raw_read [OF assms, THEN fail_keeps_bind_last]
  have "fail_keeps (RegsArm_StepIfSignalHandler rel_pc elf pm)"
    unfolding RegsArm_StepIfSignalHandler_def RegsArm_SetFromRaw_def by (intro fail_keeps_rules raw) simp
  moreover have "fail_keeps (RegsArm64_StepIfSignalHandler rel_pc elf pm)"
    unfolding RegsArm64_StepIfSignalHandler_def RegsArm64_SetFromRaw_def by (intro fail_keeps_rules raw) simp
  moreover have "fail_keeps (RegsX86_StepIfSignalHandler rel_pc elf pm)"
    unfolding RegsX86_StepIfSignalHandler_def RegsX86_SetFromUcontext_def RegsX86_SetFromRaw_def Let_def
    by (intro fail_keeps_rules)
  moreover have "fail_keeps (RegsX86_64_StepIfSignalHandler rel_pc elf pm)"
    unfolding RegsX86_64_StepIfSignalHandler_def RegsX86_64_SetFromUcontext_def RegsX86_64_SetFromRaw_def
    by (intro fail_keeps_rules)
  moreover have "StepIfSignalHandler rel_pc elf pm r = (Fail, r') \<Longrightarrow> fail_keeps (RegsArm_StepIfSignalHandler rel_pc elf pm) \<Longrightarrow>
      fail_keeps (RegsArm64_StepIfSignalHandler rel_pc elf pm) \<Longrightarrow> fail_keeps (RegsX86_StepIfSignalHandler rel_pc elf pm) \<Longrightarrow>
      fail_keeps (RegsX86_64_StepIfSignalHandler rel_pc elf pm) \<Longrightarrow> r' = r" for r r'
    unfolding fail_keeps_def by (cases r) (auto simp: map_prod_def split: prod.splits)
  ultimately show ?thesis unfolding fail_keeps_def [of "StepIfSignalHandler rel_pc elf pm"] by blast
qed

section \<open>Properties\<close>

text \<open>C20. Stepping out of an ARM signal handler restores exactly the registers that the kernel saved: for frames with and
  without \<open>SA_SIGINFO\<close>, of old and of newer kernels, and for each of the three forms of the return
  instruction.\<close>

theorem arm_signal_frame_restored:
  assumes "elf_memory elf = Some m" and "mem_holds m rel_pc (le_bytes 4 code)" and "code \<in> arm_sigreturn fr"
    and "mem_holds pm (ucast (regs_sp r)) (raw_of_regs (sigframe_words (regs_sp r) fr @ ws))" and "arm_frame_ok (regs_sp r) fr"
    and "unat (regs_sp r) + 8 < 2 ^ 32" and "length ws = 16" and "length (regs_data r) = 16"
  shows "StepIfSignalHandler rel_pc elf pm (RegsArm r) =
      (Ret (), RegsArm (r\<lparr>regs_data := ws, regs_pc := ws ! 15, regs_sp := ws ! 13\<rparr>))"
  using RegsArm_StepIfSignalHandler_frame [OF assms] by simp

text \<open>The frames of 32-bit x86: a handler with \<open>SA_SIGINFO\<close> has a pointer to the context on the stack, one without has the
  \<open>sigcontext\<close> itself.\<close>

fun x86_frame :: "bool \<Rightarrow> memory \<Rightarrow> u32 \<Rightarrow> (string \<Rightarrow> u64) \<Rightarrow> bool" where
  "x86_frame False pm sp f \<longleftrightarrow> mem_holds pm (ucast sp + 4) (image32 f x86_mcontext)"
| "x86_frame True pm sp f \<longleftrightarrow> (\<exists>ptr :: u32. mem_holds pm (ucast sp + 8) (le_bytes 4 ptr) \<and>
     mem_holds pm (ucast (ptr + 0x14)) (image32 f x86_mcontext))"

fun x86_sigreturn :: "bool \<Rightarrow> u64 \<Rightarrow> bool" where
  "x86_sigreturn False code \<longleftrightarrow> code = 0x80cd00000077b858"
| "x86_sigreturn True code \<longleftrightarrow> code AND 0x00ffffffffffffff = 0x0080cd000000adb8"

lemma read_image32:
  assumes "mem_holds pm a (image32 f x86_mcontext)"
  shows "read_mem pm a (4 * length x86_mcontext) s = (Ret (image32 f x86_mcontext), s)"
  using mem_holds_read [OF assms, of "4 * length x86_mcontext"] by (simp add: read_mem_def x86_mcontext_def)

lemma x86_code_distinct: "x86_sigreturn True code \<Longrightarrow> code \<noteq> 0x80cd00000077b858"
  by auto

text \<open>C21. Stepping out of a signal handler on 32-bit x86 sets the registers to the saved ones, except that for a handler
  without \<open>SA_SIGINFO\<close> the registers ESI and EDI keep the values of the handler.\<close>

theorem x86_signal_frame_restored:
  assumes "elf_memory elf = Some m" and "mem_holds m rel_pc (le_bytes 8 code)" and "x86_sigreturn siginfo code"
    and "x86_frame siginfo pm (regs_sp r) f" and "length (regs_data r) = 16"
  shows "StepIfSignalHandler rel_pc elf pm (RegsX86 r) = (Ret (), RegsX86 (r\<lparr>regs_pc := ucast (f ''eip''), regs_sp := ucast (f ''esp''),
      regs_data := [ucast (f ''eax''), ucast (f ''ecx''), ucast (f ''edx''), ucast (f ''ebx''), ucast (f ''esp''), ucast (f ''ebp''),
        if siginfo then ucast (f ''esi'') else regs_data r ! 6, if siginfo then ucast (f ''edi'') else regs_data r ! 7, ucast (f ''eip'')]
        @ drop 9 (regs_data r)\<rparr>))"
proof -
  have e: "read_elf elf rel_pc 8 r = (Ret (le_bytes 8 code), r)" using read_elf_holds [OF assms(1,2), of 8] by simp
  show ?thesis
  proof (cases siginfo)
    case False
    have "put_members x86_mcontext [(5, ''ebp''), (4, ''esp''), (3, ''ebx''), (2, ''edx''), (1, ''ecx''), (0, ''eax''), (8, ''eip'')]
      (image32 f x86_mcontext @ []) r = (Ret (), r\<lparr>regs_data := [ucast (f ''eax''), ucast (f ''ecx''), ucast (f ''edx''), ucast (f ''ebx''),
        ucast (f ''esp''), ucast (f ''ebp''), regs_data r ! 6, regs_data r ! 7, ucast (f ''eip'')] @ drop 9 (regs_data r)\<rparr>)"
      using assms(5) by (subst put_members_fold) (simp_all add: x86_mcontext_def x86_assignments [unfolded One_nat_def])
    then show ?thesis
      using False e assms(3-5) read_image32 [of pm "ucast (regs_sp r) + 4" f r]
      by (simp add: RegsX86_StepIfSignalHandler_def get_sp_def RegsX86_SetFromRaw_def set_from_raw_eq)
  next
    case True
    obtain ptr :: u32 where p: "mem_holds pm (ucast (regs_sp r) + 8) (le_bytes 4 ptr)"
        "mem_holds pm (ucast (ptr + 0x14)) (image32 f x86_mcontext)" using True assms(4) by auto
    have "read_mem pm (ucast (regs_sp r) + 8) 4 r = (Ret (le_bytes 4 ptr), r)"
      using mem_holds_read [OF p(1), of 4] by (simp add: read_mem_def)
    then show ?thesis
      using True e assms(3,5) x86_code_distinct [of code] read_image32 [OF p(2), of r]
      by (simp add: RegsX86_StepIfSignalHandler_def get_sp_def Let_def RegsX86_SetFromUcontext_image)
  qed
qed

text \<open>C22. The registers of a thread that \<open>RemoteGet\<close> builds from \<open>ptrace\<close> are those that \<open>CreateFromUcontext\<close> builds from a signal
  context of the same machine state, on each of the four architectures: every register has the value of its name.\<close>

theorem RemoteGet_agrees_with_Ucontext:
  assumes "length pre = context_offset a"
  shows "RemoteGet (Some (user_image a f)) pc sp = Ret (Some (arch_regs a f)) \<and>
    CreateFromUcontext (arch_machine a) (pre @ context_image a f) pc' sp' = Ret (Some (arch_regs a f))"
  using RemoteGet_image CreateFromUcontext_image [OF assms] by blast

text \<open>A step out of a signal handler that fails leaves the registers as they were, when failed reads of the memory of the
  process store nothing.\<close>

theorem StepIfSignalHandler_failed_keeps:
  assumes "all_or_nothing pm" and "StepIfSignalHandler rel_pc elf pm r = (Fail, r')"
  shows "r' = r"
  using StepIfSignalHandler_fail_keeps [OF assms(1), of rel_pc elf] assms(2) unfolding fail_keeps_def by blast

text \<open>A frame whose last words cannot be read.\<close>

definition torn_peek :: ptrace_peek where
  "torn_peek a = (if a = 0x1000 then Some 0x1111111111111111 else if a = 0x1008 then Some 0x2222222233333333
     else if a = 0x1010 then Some 0x4444444455555555 else None)"

definition sigreturn_elf :: elf_base where
  "sigreturn_elf = \<lparr>elf_valid = True, elf_load_bias = 0, elf_memory = Some (MemoryBuffer [0x77, 0x70, 0xa0, 0xe3])\<rparr>"

lemma torn_reads:
  "read_elf sigreturn_elf 0 4 s = (Ret (le_bytes 4 (0xe3a07077 :: u32)), s)"
  "mem_Read (MemoryRemote torn_peek) 0x1000 4 = Ret (le_bytes 4 (0x11111111 :: u32))"
  "mem_Read (MemoryRemote torn_peek) 0x100c 64 = Fail"
  "mem_stored (MemoryRemote torn_peek) 0x100c 64 = raw_of_regs [0x22222222, 0x55555555, 0x44444444 :: u32]"
proof -
  have b4: "le_bytes 4 w = [ucast w, ucast (drop_bit 8 w), ucast (drop_bit 16 w), ucast (drop_bit 24 w)]" for w :: "'w::len word"
    by (simp add: numeral_eq_Suc drop_bit_drop_bit)
  have b8: "le_bytes 8 w = le_bytes 4 w @ le_bytes 4 (drop_bit 32 w)" for w :: "'w::len word"
    by (simp add: numeral_eq_Suc drop_bit_drop_bit)
  have w: "remote_words torn_peek 0x1010 7 = None" "remote_words_stored torn_peek 0x1010 7 = le_bytes 8 (0x4444444455555555 :: u64)"
    using remote_words.simps(2) [of torn_peek "0x1010" 6] remote_words.simps(2) [of torn_peek "0x1018" 5]
      remote_words_stored.simps(2) [of torn_peek "0x1010" 6] remote_words_stored.simps(2) [of torn_peek "0x1018" 5]
    by (simp_all add: torn_peek_def)
  show "read_elf sigreturn_elf 0 4 s = (Ret (le_bytes 4 (0xe3a07077 :: u32)), s)"
    by (simp add: read_elf_def sigreturn_elf_def read_mem_def MemoryBuffer_Read_def add_overflow_def b4)
  show "mem_Read (MemoryRemote torn_peek) 0x1000 4 = Ret (le_bytes 4 (0x11111111 :: u32))"
    by (simp add: MemoryRemote_Read_def remote_aligned_def add_overflow_def torn_peek_def b8 b4)
  show "mem_Read (MemoryRemote torn_peek) 0x100c 64 = Fail"
    by (simp add: MemoryRemote_Read_def remote_aligned_def add_overflow_def w torn_peek_def)
  show "mem_stored (MemoryRemote torn_peek) 0x100c 64 = raw_of_regs [0x22222222, 0x55555555, 0x44444444 :: u32]"
    by (simp add: MemoryRemote_stored_def add_overflow_def w torn_peek_def raw_of_regs_def b8 b4)
qed

text \<open>Through \<open>ptrace\<close> a failed step out of a signal handler can overwrite registers: here the last words of the frame
  cannot be read, \<open>StepIfSignalHandler\<close> returns false, and the first three registers have changed.\<close>

theorem StepIfSignalHandler_failed_overwrites:
  "StepIfSignalHandler 0 sigreturn_elf (MemoryRemote torn_peek) (RegsArm (new_RegsArm 0 0x1000)) =
     (Fail, RegsArm ((new_RegsArm 0 0x1000)\<lparr>regs_data := [0x22222222, 0x55555555, 0x44444444] @ replicate 13 0\<rparr>))"
proof -
  let ?r = "new_RegsArm 0 0x1000" and ?pm = "MemoryRemote torn_peek"
  have "arm_signal_offset 0xe3a07077 0x1000 ?pm ?r = (Ret 0x100c, ?r)"
    using arm_signal_offset_frame(1) [OF torn_reads(2), of "0x11110000" "0xe3a07077" ?r] by simp
  moreover have "regs_data ?r = replicate 16 0" by (simp add: new_RegsArm_def new_RegsImpl_def)
  then have "raw_read ?pm 0x100c 64 ?r = (Fail, ?r\<lparr>regs_data := [0x22222222, 0x55555555, 0x44444444] @ replicate 13 0\<rparr>)"
    using raw_copy_words [of "[0x22222222, 0x55555555, 0x44444444]" ?r]
    by (simp add: raw_read_def torn_reads rfail_def del: mem_Read.simps mem_stored.simps)
  moreover have "get_sp ?r = (Ret 0x1000, ?r)" by (simp add: get_sp_def new_RegsArm_def new_RegsImpl_def)
  ultimately show ?thesis
    by (simp add: RegsArm_StepIfSignalHandler_def torn_reads rbind_not_Ret)
qed

section \<open>Witnesses\<close>

definition code_elf :: "u8 list \<Rightarrow> elf_base" where
  "code_elf bs = \<lparr>elf_valid = True, elf_load_bias = 0, elf_memory = Some (MemoryBuffer bs)\<rparr>"

lemma code_elf_memory: "elf_memory (code_elf bs) = Some (MemoryBuffer bs)" by (simp add: code_elf_def)

theorem arm_signal_frame_restored_witness:
  "StepIfSignalHandler 0 (code_elf (le_bytes 4 (0xe3a07077 :: u32)))
     (MemoryBuffer (replicate 4 0 @ raw_of_regs (sigframe_words 4 (OldSigframe 1 2 3) @ [10, 11, 12, 13, 14, 15, 16, 17, 18, 19, 20, 21, 22, 23, 24, 25])))
     (RegsArm (new_RegsArm 0 4)) =
   (Ret (), RegsArm ((new_RegsArm 25 23)\<lparr>regs_data := [10, 11, 12, 13, 14, 15, 16, 17, 18, 19, 20, 21, 22, 23, 24, 25]\<rparr>))"
proof -
  let ?ws = "[10, 11, 12, 13, 14, 15, 16, 17, 18, 19, 20, 21, 22, 23, 24, 25] :: u32 list"
  let ?f = "raw_of_regs (sigframe_words 4 (OldSigframe 1 2 3) @ ?ws)" and ?c = "le_bytes 4 (0xe3a07077 :: u32)"
  have 1: "mem_holds (MemoryBuffer ?c) 0 ?c" using mem_holds_MemoryBuffer [of "[]" ?c "[]"] by simp
  have 2: "mem_holds (MemoryBuffer (replicate 4 0 @ ?f)) 4 ?f"
    using mem_holds_MemoryBuffer [of "replicate 4 0" ?f "[]"] by (simp del: raw_of_regs_simps)
  have sp: "regs_sp (new_RegsArm 0 4) = 4" by (simp add: new_RegsArm_def new_RegsImpl_def)
  show ?thesis
    using arm_signal_frame_restored [OF code_elf_memory 1, of "OldSigframe 1 2 3" "MemoryBuffer (replicate 4 0 @ ?f)" "new_RegsArm 0 4" ?ws] 2
    by (simp add: sp del: raw_of_regs_simps) (simp add: new_RegsArm_def new_RegsImpl_def)
qed

theorem x86_signal_frame_restored_witness:
  "StepIfSignalHandler 0 (code_elf (le_bytes 8 (0x80cd00000077b858 :: u64)))
     (MemoryBuffer (replicate 4 0 @ image32 (\<lambda>nm. of_nat (length nm)) x86_mcontext)) (RegsX86 (new_RegsX86 0 0)) =
   (Ret (), RegsX86 ((new_RegsX86 3 3)\<lparr>regs_data := [3, 3, 3, 3, 3, 3, 0, 0, 3, 0, 0, 0, 0, 0, 0, 0]\<rparr>))"
proof -
  let ?f = "image32 (\<lambda>nm. of_nat (length nm)) x86_mcontext" and ?c = "le_bytes 8 (0x80cd00000077b858 :: u64)"
  have 1: "mem_holds (MemoryBuffer ?c) 0 ?c" using mem_holds_MemoryBuffer [of "[]" ?c "[]"] by simp
  have 2: "mem_holds (MemoryBuffer (replicate 4 0 @ ?f)) 4 ?f"
    using mem_holds_MemoryBuffer [of "replicate 4 0" ?f "[]"] by (simp add: x86_mcontext_def del: raw_of_regs_simps)
  have rep: "replicate 16 z = [z, z, z, z, z, z, z, z, z, z, z, z, z, z, z, z]" for z :: u32 by (simp add: numeral_eq_Suc)
  have sp: "regs_sp (new_RegsX86 0 0) = 0" "regs_data (new_RegsX86 0 0) = [0, 0, 0, 0, 0, 0, 0, 0, 0, 0, 0, 0, 0, 0, 0, 0]"
    by (simp_all add: new_RegsX86_def new_RegsImpl_def rep)
  show ?thesis
    using x86_signal_frame_restored [OF code_elf_memory 1, of False "MemoryBuffer (replicate 4 0 @ ?f)" "new_RegsX86 0 0" "\<lambda>nm. of_nat (length nm)"] 2
    by (simp add: sp del: raw_of_regs_simps)
qed

theorem RemoteGet_agrees_with_Ucontext_witness:
  "RemoteGet (Some (user_image X86_64 (\<lambda>nm. of_nat (length nm)))) 1 2 =
   CreateFromUcontext EM_X86_64 (replicate 40 7 @ context_image X86_64 (\<lambda>nm. of_nat (length nm))) 3 4"
  using RemoteGet_agrees_with_Ucontext [of "replicate 40 7" X86_64 "\<lambda>nm. of_nat (length nm)" 1 2 3 4] by simp

theorem StepIfSignalHandler_failed_keeps_witness:
  "StepIfSignalHandler 0 (code_elf []) (MemoryBuffer []) (RegsArm (new_RegsArm 0 4)) = (Fail, RegsArm (new_RegsArm 0 4))"
proof -
  have "fst (StepIfSignalHandler 0 (code_elf []) (MemoryBuffer []) (RegsArm (new_RegsArm 0 4))) = Fail"
    by (simp add: RegsArm_StepIfSignalHandler_def rbind_def read_elf_def code_elf_def read_mem_def MemoryBuffer_Read_def add_overflow_def)
  then show ?thesis
    using StepIfSignalHandler_failed_keeps [of "MemoryBuffer []" 0 "code_elf []" "RegsArm (new_RegsArm 0 4)"]
    by (cases "StepIfSignalHandler 0 (code_elf []) (MemoryBuffer []) (RegsArm (new_RegsArm 0 4))") (simp del: StepIfSignalHandler.simps)
qed

end
