(* ===== verification/Diverge.thy ===== *)
theory Diverge
  imports Unwind_Prelude
begin

text \<open>
  Operations that may run for ever: \<open>None\<close> stands for a call that does not return. \<open>total\<close> embeds the operations
  that always return.
\<close>

named_theorems dkeeps_rules

type_synonym ('s, 'a) dop = "'s \<Rightarrow> ('a res \<times> 's) option"

definition total :: "('s, 'a) op \<Rightarrow> ('s, 'a) dop" where
  "total f s = Some (f s)"

definition dbind :: "('s, 'a) dop \<Rightarrow> ('a \<Rightarrow> ('s, 'b) dop) \<Rightarrow> ('s, 'b) dop" where
  "dbind m f s =
     (case m s of
        None \<Rightarrow> None
      | Some (r, s') \<Rightarrow> (case r of Ret v \<Rightarrow> f v s' | Fail \<Rightarrow> Some (Fail, s') | Abort \<Rightarrow> Some (Abort, s') | Undef \<Rightarrow> Some (Undef, s')))"

text \<open>\<open>a() || b()\<close>: the second operation runs when the first returns \<open>false\<close>.\<close>

definition dor :: "('s, 'a) dop \<Rightarrow> ('s, 'a) dop \<Rightarrow> ('s, 'a) dop" where
  "dor m f s = (case m s of None \<Rightarrow> None | Some (r, s') \<Rightarrow> (case r of Fail \<Rightarrow> f s' | _ \<Rightarrow> Some (r, s')))"

text \<open>An operation on a component of the object.\<close>

definition on_dpart :: "('s \<Rightarrow> 't) \<Rightarrow> ('t \<Rightarrow> 's \<Rightarrow> 's) \<Rightarrow> ('t, 'a) dop \<Rightarrow> ('s, 'a) dop" where
  "on_dpart get put m s = map_option (\<lambda>(r, t). (r, put t s)) (m (get s))"

text \<open>The result of an operation that returns a truth value: \<open>Fail\<close> is \<open>false\<close>.\<close>

definition dtry :: "('s, 'a) dop \<Rightarrow> ('s, 'a option) dop" where
  "dtry m s = (case m s of None \<Rightarrow> None | Some (r, s') \<Rightarrow>
     Some (case r of Ret v \<Rightarrow> Ret (Some v) | Fail \<Rightarrow> Ret None | Abort \<Rightarrow> Abort | Undef \<Rightarrow> Undef, s'))"

text \<open>A call through a pointer that is a component of the object; the third argument is the result for the null pointer. With
  \<open>get_beside\<close> and \<open>put_beside\<close> the call works on a second object too.\<close>

definition on_pointer :: "('s \<Rightarrow> 't option) \<Rightarrow> ('t \<Rightarrow> 's \<Rightarrow> 's) \<Rightarrow> 'a res \<Rightarrow> ('t, 'a) dop \<Rightarrow> ('s, 'a) dop" where
  "on_pointer get put absent m s =
     (case get s of None \<Rightarrow> Some (absent, s) | Some t \<Rightarrow> map_option (\<lambda>(r, t). (r, put t s)) (m t))"

definition get_beside :: "('s \<Rightarrow> 't option) \<Rightarrow> 's \<times> 'r \<Rightarrow> ('t \<times> 'r) option" where
  "get_beside get p = map_option (\<lambda>t. (t, snd p)) (get (fst p))"

definition put_beside :: "('t \<Rightarrow> 's \<Rightarrow> 's) \<Rightarrow> 't \<times> 'r \<Rightarrow> 's \<times> 'r \<Rightarrow> 's \<times> 'r" where
  "put_beside put q p = (put (fst q) (fst p), snd q)"

lemma dbind_total [simp]: "dbind (total m) f s = (case m s of (r, s') \<Rightarrow>
    case r of Ret v \<Rightarrow> f v s' | Fail \<Rightarrow> Some (Fail, s') | Abort \<Rightarrow> Some (Abort, s') | Undef \<Rightarrow> Some (Undef, s'))"
  by (simp add: dbind_def total_def)

lemma dbind_Ret: "m s = Some (Ret v, s') \<Longrightarrow> dbind m f s = f v s'"
  by (simp add: dbind_def)

lemma dbind_eq_Ret: "dbind m f s = Some (Ret w, s'') \<longleftrightarrow> (\<exists>v s'. m s = Some (Ret v, s') \<and> f v s' = Some (Ret w, s''))"
  by (auto simp: dbind_def split: option.splits prod.splits res.splits)

section \<open>What an operation leaves alone\<close>

text \<open>\<open>dkeeps p f\<close>: when \<open>f\<close> returns it has not changed the part \<open>p\<close> of the object.\<close>

definition dkeeps :: "('s \<Rightarrow> 'p) \<Rightarrow> ('s, 'a) dop \<Rightarrow> bool" where
  "dkeeps p f \<longleftrightarrow> (\<forall>s r s'. f s = Some (r, s') \<longrightarrow> p s' = p s)"

lemma dkeepsI: "(\<And>s r s'. f s = Some (r, s') \<Longrightarrow> p s' = p s) \<Longrightarrow> dkeeps p f"
  by (simp add: dkeeps_def)

lemma dkeepsD: "dkeeps p f \<Longrightarrow> f s = Some (r, s') \<Longrightarrow> p s' = p s"
  by (simp add: dkeeps_def)

lemma dkeeps_total [dkeeps_rules]: "keeps p f \<Longrightarrow> dkeeps p (total f)"
  by (intro dkeepsI) (auto simp: total_def dest: keepsD)

lemma dkeeps_dbind [dkeeps_rules]:
  assumes "dkeeps p m" and "\<And>v. dkeeps p (f v)"
  shows "dkeeps p (dbind m f)"
proof (rule dkeepsI)
  fix s r s'
  assume e: "dbind m f s = Some (r, s')"
  then obtain q s1 where q: "m s = Some (q, s1)" by (auto simp: dbind_def split: option.splits)
  then have "p s1 = p s" by (rule dkeepsD [OF assms(1)])
  then show "p s' = p s" using e q dkeepsD [OF assms(2)] by (cases q) (auto simp: dbind_def)
qed

lemma dkeeps_dor [dkeeps_rules]:
  assumes "dkeeps p m" and "dkeeps p f"
  shows "dkeeps p (dor m f)"
proof (rule dkeepsI)
  fix s r s'
  assume e: "dor m f s = Some (r, s')"
  then obtain q s1 where q: "m s = Some (q, s1)" by (auto simp: dor_def split: option.splits)
  then have "p s1 = p s" by (rule dkeepsD [OF assms(1)])
  then show "p s' = p s" using e q dkeepsD [OF assms(2)] by (cases q) (auto simp: dor_def)
qed

lemma dkeeps_dtry [dkeeps_rules]: "dkeeps p m \<Longrightarrow> dkeeps p (dtry m)"
  by (intro dkeepsI) (auto simp: dtry_def dest: dkeepsD split: option.splits)

lemma dkeeps_on_dpart:
  assumes "dkeeps q m" and "\<And>t s. q t = q (get s) \<Longrightarrow> p (put t s) = p s"
  shows "dkeeps p (on_dpart get put m)"
  using assms(2) by (intro dkeepsI) (auto simp: on_dpart_def dest: dkeepsD [OF assms(1)])

lemma dkeeps_on_pointer:
  assumes "dkeeps q m" and "\<And>t t' s. get s = Some t \<Longrightarrow> q t' = q t \<Longrightarrow> p (put t' s) = p s"
  shows "dkeeps p (on_pointer get put absent m)"
  using assms(2) by (intro dkeepsI) (auto simp: on_pointer_def dest: dkeepsD [OF assms(1)] split: option.splits)

end
