(* ===== verification/DwarfSection.thy ===== *)
theory DwarfSection
  imports DwarfOp DwarfCfa Regs_Arch Diverge
begin

text \<open>
  The sections with call frame information: \<open>DwarfSection\<close> and \<open>DwarfSectionImpl<AddressType>\<close> (\<open>DwarfSection.h\<close>,
  \<open>DwarfSection.cpp\<close>). The record has the members of the base class and, in \<open>ds_impl\<close>, those of the two derived
  classes, \<open>DwarfDebugFrame\<close> and \<open>DwarfEhFrame\<close>; a virtual call is a case distinction on it. An \<open>unordered_map\<close> is a map;
  where the code iterates over one, the order is a parameter. A pointer into the caches is a copy of the entry,
  which the code does not change after it is filled in.
\<close>

section \<open>Data\<close>

text \<open>\<open>FdeInfo\<close> of the two derived classes. Their members of type \<open>AddressType\<close> are kept as 64-bit numbers. The map
  \<open>fde_info_\<close>, whose size the code uses, is an association list.\<close>

record debug_fde_info =
  dfi_offset :: u64
  dfi_start :: u64
  dfi_end :: u64

record debug_frame =
  df_offset :: u64
  df_end_offset :: u64
  df_fdes :: "debug_fde_info list"

record eh_fde_info =
  efi_pc :: u64
  efi_offset :: u64

record eh_frame =
  eh_version :: u8
  eh_ptr_encoding :: u8
  eh_table_encoding :: u8
  eh_table_entry_size :: nat
  eh_ptr_offset :: u64
  eh_entries_offset :: u64
  eh_entries_end :: u64
  eh_entries_data_offset :: u64
  eh_cur_entries_offset :: u64
  eh_fde_info :: "(u64 \<times> eh_fde_info) list"

datatype section_impl = DebugFrame (df: debug_frame) | EhFrame (eh: eh_frame)

record dwarf_section =
  ds_memory :: dwarf_memory
  ds_last_error :: dwarf_error
  ds_fde_count :: u64
  ds_fde_entries :: "u64 \<rightharpoonup> dwarf_fde"
  ds_cie_entries :: "u64 \<rightharpoonup> dwarf_cie"
  ds_cie_loc_regs :: "u64 \<rightharpoonup> dwarf_loc_regs"
  ds_impl :: section_impl

definition new_DwarfSection :: "memory \<Rightarrow> section_impl \<Rightarrow> dwarf_section" where
  "new_DwarfSection m impl = \<lparr>ds_memory = new_DwarfMemory m, ds_last_error = DWARF_ERROR_NONE, ds_fde_count = 0,
     ds_fde_entries = Map.empty, ds_cie_entries = Map.empty, ds_cie_loc_regs = Map.empty, ds_impl = impl\<rparr>"

section \<open>Virtual functions\<close>

definition IsCie32 :: "section_impl \<Rightarrow> u32 \<Rightarrow> bool" where
  "IsCie32 impl value32 = (case impl of DebugFrame d \<Rightarrow> value32 = -1 | EhFrame e \<Rightarrow> value32 = 0)"

definition IsCie64 :: "section_impl \<Rightarrow> u64 \<Rightarrow> bool" where
  "IsCie64 impl value64 = (case impl of DebugFrame d \<Rightarrow> value64 = -1 | EhFrame e \<Rightarrow> value64 = 0)"

definition GetCieOffsetFromFde32 :: "u32 \<Rightarrow> dwarf_section \<Rightarrow> u64" where
  "GetCieOffsetFromFde32 pointer s =
     (case ds_impl s of DebugFrame d \<Rightarrow> df_offset d + ucast pointer | EhFrame e \<Rightarrow> cur_offset (ds_memory s) - ucast pointer - 4)"

definition GetCieOffsetFromFde64 :: "u64 \<Rightarrow> dwarf_section \<Rightarrow> u64" where
  "GetCieOffsetFromFde64 pointer s =
     (case ds_impl s of DebugFrame d \<Rightarrow> df_offset d + pointer | EhFrame e \<Rightarrow> cur_offset (ds_memory s) - pointer - 8)"

definition AdjustPcFromFde :: "u64 \<Rightarrow> dwarf_section \<Rightarrow> u64" where
  "AdjustPcFromFde pc s = (case ds_impl s of DebugFrame d \<Rightarrow> pc | EhFrame e \<Rightarrow> pc + cur_offset (ds_memory s))"

section \<open>Access to the memory of the section\<close>

definition ds_fail :: "dwarf_error \<Rightarrow> (dwarf_section, 'b) op" where
  "ds_fail e s = (Fail, s\<lparr>ds_last_error := e\<rparr>)"

text \<open>A failed read sets the error.\<close>

definition on_ds_memory :: "(dwarf_memory, 'b) op \<Rightarrow> (dwarf_section, 'b) op" where
  "on_ds_memory f = on_fail (\<lambda>s. s\<lparr>ds_last_error := DWARF_ERROR_MEMORY_INVALID\<rparr>)
     (on_part ds_memory (\<lambda>dm s. s\<lparr>ds_memory := dm\<rparr>) f)"

definition ds_cur_offset :: "(dwarf_section, u64) op" where
  "ds_cur_offset s = (Ret (cur_offset (ds_memory s)), s)"

definition ds_set_cur_offset :: "u64 \<Rightarrow> (dwarf_section, unit) op" where
  "ds_set_cur_offset off = modify (\<lambda>s. s\<lparr>ds_memory := set_cur_offset off (ds_memory s)\<rparr>)"

definition ds_query :: "(dwarf_section \<Rightarrow> 'b) \<Rightarrow> (dwarf_section, 'b) op" where
  "ds_query f s = (Ret (f s), s)"

definition ds_read8 :: "(dwarf_section, u8) op" where
  "ds_read8 = rbind (on_ds_memory (dm_ReadBytes 1)) (\<lambda>bs. rret (le_word bs))"

definition ds_read32 :: "(dwarf_section, u32) op" where
  "ds_read32 = rbind (on_ds_memory (dm_ReadBytes 4)) (\<lambda>bs. rret (le_word bs))"

definition ds_read64 :: "(dwarf_section, u64) op" where
  "ds_read64 = rbind (on_ds_memory (dm_ReadBytes 8)) (\<lambda>bs. rret (le_word bs))"

section \<open>FillInCie and GetCie\<close>

text \<open>The loop that reads the augmentation string, the terminating zero included. It ends because a read never wraps around.\<close>

lemma dm_ReadBytes_advances:
  assumes "dm_ReadBytes n dm = (Ret bs, dm')" and "0 < n"
  shows "cur_offset dm < cur_offset dm'"
  using assms mem.read_advances_less [of "dm_memory dm" "cur_offset dm" n]
  by (auto simp: dm_ReadBytes_def split: res.splits)

lemma dm_ReadBytes_measure:
  assumes "dm_ReadBytes n dm = (Ret bs, dm')" and "0 < n"
  shows "2 ^ 64 - unat (cur_offset dm') < 2 ^ 64 - unat (cur_offset dm)"
  using dm_ReadBytes_advances [OF assms] unsigned_less [of "cur_offset dm'", where ?'a = nat]
  by (simp add: word_less_nat_alt)

function read_augmentation :: "u8 list \<Rightarrow> (dwarf_memory, u8 list) op" where
  "read_augmentation aug dm =
     (case dm_ReadBytes 1 dm of
        (Ret bs, dm') \<Rightarrow>
          if hd bs = 0 then (Ret (aug @ [hd bs]), dm') else read_augmentation (aug @ [hd bs]) dm'
      | (Fail, dm') \<Rightarrow> (Fail, dm')
      | (Abort, dm') \<Rightarrow> (Abort, dm')
      | (Undef, dm') \<Rightarrow> (Undef, dm'))"
  by pat_completeness auto
termination
  by (relation "measure (\<lambda>(aug, dm). 2 ^ 64 - unat (cur_offset dm))") (use dm_ReadBytes_measure [OF sym] in force)+

declare read_augmentation.simps [simp del]

text \<open>The length, the id and with them the end of the instructions and the default encoding of addresses.\<close>

definition cie_header :: "(dwarf_section, u64 \<times> u8) op" where
  "cie_header =
     rbind ds_read32 (\<lambda>length32.
     if length32 = -1 then
       rbind ds_read64 (\<lambda>length64. rbind ds_cur_offset (\<lambda>cur.
       rbind ds_read64 (\<lambda>cie_id. rbind (ds_query ds_impl) (\<lambda>impl.
       if \<not> IsCie64 impl cie_id then ds_fail DWARF_ERROR_ILLEGAL_VALUE
       else rret (cur + length64, DW_EH_PE_sdata8)))))
     else
       rbind ds_cur_offset (\<lambda>cur.
       rbind ds_read32 (\<lambda>cie_id. rbind (ds_query ds_impl) (\<lambda>impl.
       if \<not> IsCie32 impl cie_id then ds_fail DWARF_ERROR_ILLEGAL_VALUE
       else rret (cur + ucast length32, DW_EH_PE_sdata4)))))"

text \<open>The loop over the characters of the augmentation string after the first.\<close>

fun cie_augmentation :: "'a::len itself \<Rightarrow> u8 list \<Rightarrow> dwarf_cie \<Rightarrow> (dwarf_section, dwarf_cie) op" where
  "cie_augmentation T [] cie = rret cie"
| "cie_augmentation T (c # cs) cie =
     rbind (if c = of_char (CHR ''L'') then rbind ds_read8 (\<lambda>e. rret (cie\<lparr>lsda_encoding := e\<rparr>))
            else if c = of_char (CHR ''P'') then
              rbind ds_read8 (\<lambda>e. rbind (on_ds_memory (dm_ReadEncodedValue T e)) (\<lambda>v. rret (cie\<lparr>personality_handler := v\<rparr>)))
            else if c = of_char (CHR ''R'') then rbind ds_read8 (\<lambda>e. rret (cie\<lparr>fde_address_encoding := e\<rparr>))
            else rret cie)
       (cie_augmentation T cs)"

text \<open>Everything behind the header.\<close>

definition cie_body :: "'a::len itself \<Rightarrow> dwarf_cie \<Rightarrow> (dwarf_section, dwarf_cie) op" where
  "cie_body T cie =
     rbind ds_read8 (\<lambda>version.
     if version \<noteq> 1 \<and> version \<noteq> 3 \<and> version \<noteq> 4 then ds_fail DWARF_ERROR_UNSUPPORTED_VERSION
     else
     rbind (on_ds_memory (read_augmentation [])) (\<lambda>aug.
     rbind (if version = 4 then
              rbind ds_cur_offset (\<lambda>cur. rbind (ds_set_cur_offset (cur + 1)) (\<lambda>_. ds_read8))
            else rret (segment_size cie)) (\<lambda>seg.
     rbind (on_ds_memory dm_ReadULEB128) (\<lambda>code_align.
     rbind (on_ds_memory dm_ReadSLEB128) (\<lambda>data_align.
     rbind (if version = 1 then rbind ds_read8 (\<lambda>r. rret (ucast r)) else on_ds_memory dm_ReadULEB128) (\<lambda>ra.
     let cie = cie\<lparr>cie_version := version, augmentation_string := aug, segment_size := seg,
       code_alignment_factor := code_align, data_alignment_factor := data_align, return_address_register := ra\<rparr> in
     if hd aug \<noteq> of_char (CHR ''z'') then
       rbind ds_cur_offset (\<lambda>cur. rret (cie\<lparr>cie_cfa_instructions_offset := cur\<rparr>))
     else
       rbind (on_ds_memory dm_ReadULEB128) (\<lambda>aug_length. rbind ds_cur_offset (\<lambda>cur.
       cie_augmentation T (tl aug) (cie\<lparr>cie_cfa_instructions_offset := cur + aug_length\<rparr>)))))))))"

definition FillInCie :: "'a::len itself \<Rightarrow> (dwarf_section, dwarf_cie) op" where
  "FillInCie T =
     rbind cie_header (\<lambda>(fin, enc).
       cie_body T (new_DwarfCie\<lparr>lsda_encoding := DW_EH_PE_omit, cie_cfa_instructions_end := fin, fde_address_encoding := enc\<rparr>))"

definition GetCie :: "'a::len itself \<Rightarrow> u64 \<Rightarrow> (dwarf_section, dwarf_cie) op" where
  "GetCie T offset s =
     (case ds_cie_entries s offset of
        Some cie \<Rightarrow> (Ret cie, s)
      | None \<Rightarrow>
          rbind (ds_set_cur_offset offset) (\<lambda>_. rbind (FillInCie T) (\<lambda>cie.
          rbind (modify (\<lambda>s. s\<lparr>ds_cie_entries := (ds_cie_entries s)(offset \<mapsto> cie)\<rparr>)) (\<lambda>_. rret cie))) s)"

section \<open>FillInFde and GetFdeFromOffset\<close>

text \<open>The end of the instructions and the offset of the CIE.\<close>

definition fde_header :: "(dwarf_section, u64 \<times> u64) op" where
  "fde_header =
     rbind ds_read32 (\<lambda>length32.
     if length32 = -1 then
       rbind ds_read64 (\<lambda>length64. rbind ds_cur_offset (\<lambda>cur.
       rbind ds_read64 (\<lambda>value64. rbind (ds_query ds_impl) (\<lambda>impl.
       if IsCie64 impl value64 then ds_fail DWARF_ERROR_ILLEGAL_VALUE
       else rbind (ds_query (GetCieOffsetFromFde64 value64)) (\<lambda>off. rret (cur + length64, off))))))
     else
       rbind ds_cur_offset (\<lambda>cur.
       rbind ds_read32 (\<lambda>value32. rbind (ds_query ds_impl) (\<lambda>impl.
       if IsCie32 impl value32 then ds_fail DWARF_ERROR_ILLEGAL_VALUE
       else rbind (ds_query (GetCieOffsetFromFde32 value32)) (\<lambda>off. rret (cur + ucast length32, off))))))"

definition FillInFde :: "'a::len itself \<Rightarrow> (dwarf_section, dwarf_fde) op" where
  "FillInFde T =
     rbind fde_header (\<lambda>(fin, cie_off).
     rbind ds_cur_offset (\<lambda>cur.
     rbind (GetCie T cie_off) (\<lambda>cie.
     rbind (ds_set_cur_offset (if segment_size cie \<noteq> 0 then cur + ucast (segment_size cie) else cur)) (\<lambda>_.
     rbind (on_ds_memory (dm_ReadEncodedValue T (fde_address_encoding cie AND 0xf))) (\<lambda>start.
     rbind (ds_query (AdjustPcFromFde start)) (\<lambda>start.
     rbind (on_ds_memory (dm_ReadEncodedValue T (fde_address_encoding cie AND 0xf))) (\<lambda>len.
     rbind (if augmentation_string cie \<noteq> [] \<and> hd (augmentation_string cie) = of_char (CHR ''z'') then
              rbind (on_ds_memory dm_ReadULEB128) (\<lambda>aug_length. rbind ds_cur_offset (\<lambda>cur.
              rbind (on_ds_memory (dm_ReadEncodedValue T (lsda_encoding cie))) (\<lambda>lsda.
              rbind (ds_set_cur_offset (cur + aug_length)) (\<lambda>_. rret lsda))))
            else rret (lsda_address new_DwarfFde)) (\<lambda>lsda.
     rbind ds_cur_offset (\<lambda>instr.
     rret (new_DwarfFde\<lparr>cie_offset := cie_off, fde_cfa_instructions_end := fin, fde_cfa_instructions_offset := instr,
       pc_start := start, pc_end := len + start, lsda_address := lsda, fde_cie := Some cie\<rparr>))))))))))"

definition GetFdeFromOffset :: "'a::len itself \<Rightarrow> u64 \<Rightarrow> (dwarf_section, dwarf_fde) op" where
  "GetFdeFromOffset T offset s =
     (case ds_fde_entries s offset of
        Some f \<Rightarrow> (Ret f, s)
      | None \<Rightarrow>
          rbind (ds_set_cur_offset offset) (\<lambda>_. rbind (FillInFde T) (\<lambda>f.
          rbind (modify (\<lambda>s. s\<lparr>ds_fde_entries := (ds_fde_entries s)(offset \<mapsto> f)\<rparr>)) (\<lambda>_. rret f))) s)"

section \<open>EvalExpression and Eval\<close>

text \<open>The evaluator works on the cursor of the section. Its registers are never set.\<close>

definition EvalExpression :: "dwarf_location \<Rightarrow> u8 \<Rightarrow> memory \<Rightarrow> (dwarf_section, 'a::len word) op" where
  "EvalExpression loc version rm s =
     (let start = value1 loc;
          (r, op) = Eval start (start + value0 loc) version (new_DwarfOp (ds_memory s) (Some rm) :: 'a dwarf_op);
          s = s\<lparr>ds_memory := op_memory op\<rparr> in
      case r of
        Ret _ \<Rightarrow>
          if StackSize op = 0 then ds_fail DWARF_ERROR_ILLEGAL_STATE s
          else if is_register op then ds_fail DWARF_ERROR_NOT_IMPLEMENTED s
          else (fst (StackAt 0 op), s)
      | Fail \<Rightarrow> ds_fail (last_error op) s
      | Abort \<Rightarrow> (Abort, s)
      | Undef \<Rightarrow> (Undef, s))"

text \<open>\<open>Eval\<close> changes the section and the registers.\<close>

definition on_section :: "(dwarf_section, 'b) op \<Rightarrow> (dwarf_section \<times> 'r, 'b) op" where
  "on_section = on_part fst (\<lambda>s p. (s, snd p))"

definition on_regs :: "('r, 'b) op \<Rightarrow> (dwarf_section \<times> 'r, 'b) op" where
  "on_regs = on_part snd (\<lambda>r p. (fst p, r))"

text \<open>A read into a register. What a failed read stored stays in it.\<close>

definition reg_read :: "memory \<Rightarrow> u64 \<Rightarrow> nat \<Rightarrow> ('a::len regs, unit) op" where
  "reg_read m addr i r =
     (case mem_Read m addr (sizeof TYPE('a)) of
        Ret bs \<Rightarrow> regs_put i (le_word bs) r
      | Fail \<Rightarrow>
          rbind (get_reg i) (\<lambda>old.
          let stored = mem_stored m addr (sizeof TYPE('a)) in
          rbind (regs_put i (le_word (stored @ drop (length stored) (le_bytes (sizeof TYPE('a)) old)))) (\<lambda>_. rfail)) r
      | Abort \<Rightarrow> (Abort, r)
      | Undef \<Rightarrow> (Undef, r))"

definition eval_memory :: "(dwarf_section \<times> 'r, 'b) op \<Rightarrow> (dwarf_section \<times> 'r, 'b) op" where
  "eval_memory = on_fail (\<lambda>(s, r). (s\<lparr>ds_last_error := DWARF_ERROR_MEMORY_INVALID\<rparr>, r))"

text \<open>The value of the CFA.\<close>

definition eval_cfa :: "dwarf_cie \<Rightarrow> memory \<Rightarrow> dwarf_loc_regs \<Rightarrow> (dwarf_section \<times> 'a::len regs, 'a word) op" where
  "eval_cfa cie rm locs =
     (case locs CFA_REG of
        None \<Rightarrow> on_section (ds_fail DWARF_ERROR_CFA_NOT_DEFINED)
      | Some loc \<Rightarrow>
          (case dl_type loc of
             DWARF_LOCATION_REGISTER \<Rightarrow>
               rbind (\<lambda>p. (Ret (snd p), p)) (\<lambda>r.
               if value0 loc \<ge> ucast (total_regs r) then on_section (ds_fail DWARF_ERROR_ILLEGAL_VALUE)
               else
                 rbind (if ucast (sp_reg r) = value0 loc \<and> locs (sp_reg r) = None then rret (regs_sp r)
                        else on_regs (get_reg (unat (value0 loc)))) (\<lambda>cfa.
                 rret (cfa + ucast (value1 loc))))
           | DWARF_LOCATION_EXPRESSION \<Rightarrow>
               rbind (on_section (EvalExpression loc (cie_version cie) rm :: (dwarf_section, 'a word) op)) (\<lambda>v.
               rbind (eval_memory (read_mem rm (ucast v) (sizeof TYPE('a)))) (\<lambda>bs. rret (le_word bs)))
           | DWARF_LOCATION_VAL_EXPRESSION \<Rightarrow> on_section (EvalExpression loc (cie_version cie) rm)
           | _ \<Rightarrow> on_section (ds_fail DWARF_ERROR_ILLEGAL_VALUE)))"

text \<open>The body of the loop for one register. The result is the new value of \<open>return_address_undefined\<close>.\<close>

definition eval_reg ::
  "dwarf_cie \<Rightarrow> memory \<Rightarrow> dwarf_loc_regs \<Rightarrow> 'a::len word \<Rightarrow> u16 \<Rightarrow> bool \<Rightarrow> (dwarf_section \<times> 'a regs, bool) op" where
  "eval_reg cie rm locs cfa reg undefined_ra =
     rbind (\<lambda>p. (Ret (snd p), p)) (\<lambda>r.
     case locs reg of
       None \<Rightarrow> rret undefined_ra
     | Some loc \<Rightarrow>
         if reg = CFA_REG \<or> reg \<ge> total_regs r then rret undefined_ra
         else
           (case dl_type loc of
              DWARF_LOCATION_OFFSET \<Rightarrow>
                rbind (eval_memory (on_regs (reg_read rm (ucast cfa + value0 loc) (unat reg)))) (\<lambda>_. rret undefined_ra)
            | DWARF_LOCATION_VAL_OFFSET \<Rightarrow>
                rbind (on_regs (regs_put (unat reg) (cfa + ucast (value0 loc)))) (\<lambda>_. rret undefined_ra)
            | DWARF_LOCATION_REGISTER \<Rightarrow>
                (let cur_reg = ucast (value0 loc) :: u16 in
                 if cur_reg \<ge> total_regs r then on_section (ds_fail DWARF_ERROR_ILLEGAL_VALUE)
                 else if locs cur_reg \<noteq> None then on_section (ds_fail DWARF_ERROR_ILLEGAL_STATE)
                 else
                   rbind (on_regs (get_reg (unat cur_reg))) (\<lambda>v.
                   rbind (on_regs (regs_put (unat reg) (v + ucast (value1 loc)))) (\<lambda>_. rret undefined_ra)))
            | DWARF_LOCATION_EXPRESSION \<Rightarrow>
                rbind (on_section (EvalExpression loc (cie_version cie) rm :: (dwarf_section, 'a word) op)) (\<lambda>v.
                rbind (eval_memory (on_regs (reg_read rm (ucast v) (unat reg)))) (\<lambda>_. rret undefined_ra))
            | DWARF_LOCATION_VAL_EXPRESSION \<Rightarrow>
                rbind (on_section (EvalExpression loc (cie_version cie) rm)) (\<lambda>v.
                rbind (on_regs (regs_put (unat reg) v)) (\<lambda>_. rret undefined_ra))
            | DWARF_LOCATION_UNDEFINED \<Rightarrow> rret (undefined_ra \<or> ucast reg = return_address_register cie)
            | DWARF_LOCATION_INVALID \<Rightarrow> rret undefined_ra))"

fun eval_regs ::
  "dwarf_cie \<Rightarrow> memory \<Rightarrow> dwarf_loc_regs \<Rightarrow> 'a::len word \<Rightarrow> u16 list \<Rightarrow> bool \<Rightarrow> (dwarf_section \<times> 'a regs, bool) op" where
  "eval_regs cie rm locs cfa [] undefined_ra = rret undefined_ra"
| "eval_regs cie rm locs cfa (reg # order) undefined_ra =
     rbind (eval_reg cie rm locs cfa reg undefined_ra) (eval_regs cie rm locs cfa order)"

text \<open>\<open>Eval\<close>; the result is \<open>*finished\<close>. The list has the keys of the map in the order of the iteration.\<close>

definition DwarfSection_Eval ::
  "u16 list \<Rightarrow> dwarf_cie \<Rightarrow> memory \<Rightarrow> dwarf_loc_regs \<Rightarrow> (dwarf_section \<times> 'a::len regs, bool) op" where
  "DwarfSection_Eval order cie rm locs =
     rbind (\<lambda>p. (Ret (snd p), p)) (\<lambda>r.
     if return_address_register cie \<ge> ucast (total_regs r) then on_section (ds_fail DWARF_ERROR_ILLEGAL_VALUE)
     else
       rbind (eval_cfa cie rm locs) (\<lambda>cfa.
       rbind (eval_regs cie rm locs cfa order False) (\<lambda>undefined_ra.
       rbind (if undefined_ra then rret 0 else on_regs (get_reg (unat (return_address_register cie)))) (\<lambda>pc.
       rbind (on_regs (modify (set_pc pc))) (\<lambda>_.
       rbind (on_regs (modify (set_sp cfa))) (\<lambda>_.
       rret (pc = 0)))))))"

section \<open>GetCfaLocationInfo\<close>

text \<open>One call of \<open>GetLocationInfo\<close> on the object \<open>cfa\<close>, which uses the cursor of the section.\<close>

definition run_cfa :: "u64 \<Rightarrow> u64 \<Rightarrow> u64 \<Rightarrow> 'a::len dwarf_cfa \<Rightarrow> (dwarf_section, 'a dwarf_cfa) dop" where
  "run_cfa pc start fin c s =
     map_option (\<lambda>(r, c).
       let s = s\<lparr>ds_memory := cfa_memory c\<rparr> in
       case r of
         Ret _ \<Rightarrow> (Ret c, s)
       | Fail \<Rightarrow> ds_fail (cfa_last_error c) s
       | Abort \<Rightarrow> (Abort, s)
       | Undef \<Rightarrow> (Undef, s))
     (GetLocationInfo pc start fin (c\<lparr>cfa_memory := ds_memory s\<rparr>))"

definition GetCfaLocationInfo :: "'a::len itself \<Rightarrow> u64 \<Rightarrow> dwarf_fde \<Rightarrow> (dwarf_section, dwarf_loc_regs) dop" where
  "GetCfaLocationInfo T pc f s =
     (case fde_cie f of
        None \<Rightarrow> Some (Undef, s)
      | Some cie \<Rightarrow>
          dbind (case ds_cie_loc_regs s (cie_offset f) of
                   Some locs \<Rightarrow> total (rret (new_DwarfCfa (ds_memory s) f Map.empty :: 'a dwarf_cfa))
                 | None \<Rightarrow>
                     dbind (run_cfa pc (cie_cfa_instructions_offset cie) (cie_cfa_instructions_end cie)
                              (new_DwarfCfa (ds_memory s) f Map.empty :: 'a dwarf_cfa)) (\<lambda>c.
                     dbind (total (modify (\<lambda>s. s\<lparr>ds_cie_loc_regs := (ds_cie_loc_regs s)(cie_offset f \<mapsto> loc_regs c)\<rparr>))) (\<lambda>_.
                     total (rret c)))) (\<lambda>c.
          dbind (total (ds_query ds_cie_loc_regs)) (\<lambda>cache.
          dbind (run_cfa pc (fde_cfa_instructions_offset f) (fde_cfa_instructions_end f)
                   (case cache (cie_offset f) of None \<Rightarrow> c | Some locs \<Rightarrow> set_cie_loc_regs locs c)) (\<lambda>c.
          total (rret (loc_regs c))))) s)"

end
