(* ===== verification/Section_Eval.thy ===== *)
theory Section_Eval
  imports DwarfSection
begin

text \<open>
  What \<open>DwarfSectionImpl::Eval\<close> computes: every register gets the value of its rule, taken on the registers before the step. The code
  changes the registers one after the other, in the order in which the unordered map happens to be
  iterated; the result does not depend on this order.
\<close>

section \<open>The cursor does not matter\<close>

abbreviation op_env :: "'a::len dwarf_op \<Rightarrow> memory \<times> u64 \<times> u64 \<times> u64 \<times> u64" where
  "op_env s \<equiv> dm_env (op_memory s)"

lemma op_env_run_handler [keeps_rules]: "keeps op_env (run_handler h :: ('a::len dwarf_op, unit) op)"
  using keeps_run_handler [of h] by (auto simp: keeps_def op_frame_def)

lemma read_operands_env [keeps_rules]: "moves_cursor (read_operands T encs n)"
  by (induction T encs n rule: read_operands.induct) (auto intro!: keeps_rules)

lemma op_env_on_op_memory [keeps_rules]: "moves_cursor f \<Longrightarrow> keeps op_env (on_op_memory f)"
  unfolding on_op_memory_def
  by (rule keeps_on_fail) (auto simp: keeps_def on_part_def split: prod.split, metis snd_conv)

lemma op_env_Decode: "keeps op_env (Decode ver :: ('a::len dwarf_op, unit) op)"
proof -
  let ?g = "\<lambda>bs (s1 :: 'a dwarf_op). let s = s1\<lparr>cur_op := hd bs\<rparr>; op = kCallbackTable ! unat (cur_op s) in
     case handle_func op of
       None \<Rightarrow> op_fail DWARF_ERROR_ILLEGAL_VALUE s
     | Some h \<Rightarrow>
         if ver < supported_version op then op_fail DWARF_ERROR_ILLEGAL_VALUE s
         else if length (stack s) < unat (num_required_stack_values op) then op_fail DWARF_ERROR_STACK_INDEX_NOT_VALID s
         else rbind (on_op_memory (read_operands TYPE('a) (operand_encodings op) (unat (num_operands op))))
           (\<lambda>vs s2. run_handler h (s2\<lparr>operands := map ucast vs\<rparr>)) (s\<lparr>operands := []\<rparr>)"
  have h: "keeps op_env (\<lambda>s2 :: 'a dwarf_op. run_handler h (s2\<lparr>operands := vs\<rparr>))" for h vs
    using op_env_run_handler [of h, where ?'a = 'a] by (simp add: keeps_def)
  have k: "keeps op_env (rbind (on_op_memory (read_operands TYPE('a) encs n)) (\<lambda>vs s2. run_handler h (s2\<lparr>operands := map ucast vs\<rparr>))
      :: ('a dwarf_op, unit) op)" for encs n h
    by (intro keeps_rules h)
  have "keeps op_env (?g bs)" for bs
    unfolding keeps_def by (simp add: Let_def op_fail_def keeps_at [OF k] split: option.split)
  then have "keeps op_env (rbind (on_op_memory (dm_ReadBytes 1)) ?g)" by (intro keeps_rules)
  then show ?thesis by (simp add: keeps_def Decode_def)
qed

lemma op_env_Eval_loop: "Eval_loop e ver n s = (r, s') \<Longrightarrow> op_env s' = op_env (s :: 'a::len dwarf_op)"
proof (induction e ver n s arbitrary: r s' rule: Eval_loop.induct)
  case (1 e ver n s)
  obtain q s1 where q: "Decode ver s = (q, s1)" by fastforce
  have "op_env s1 = op_env s" by (rule keepsD [OF op_env_Decode q])
  then show ?case using 1 q by (auto simp: Eval_loop.simps [of e ver n s] op_fail_def split: if_splits res.splits)
qed

lemma EvalExpression_env:
  assumes "EvalExpression loc ver rm s = (r :: 'a::len word res, s')"
  shows "dm_env (ds_memory s') = dm_env (ds_memory s)"
  using assms op_env_Eval_loop
  by (fastforce simp: EvalExpression_def Let_def Eval_def new_DwarfOp_def ds_fail_def set_cur_offset_def split: prod.splits res.splits if_splits)

lemma EvalExpression_cursor:
  assumes "dm_env (ds_memory s) = dm_env (ds_memory t)"
  shows "fst (EvalExpression loc ver rm s) = (fst (EvalExpression loc ver rm t) :: 'a::len word res)"
proof -
  have "set_cur_offset off (ds_memory s) = set_cur_offset off (ds_memory t)" for off
    using assms by (intro dm_env_eqI) (simp_all add: set_cur_offset_def)
  then show ?thesis
    by (simp add: EvalExpression_def Let_def Eval_def new_DwarfOp_def ds_fail_def split: prod.split res.split)
qed

section \<open>The meaning of the rules\<close>

text \<open>The value that a register has after the step, from the registers before it.\<close>

definition new_value ::
  "dwarf_section \<Rightarrow> dwarf_cie \<Rightarrow> memory \<Rightarrow> dwarf_loc_regs \<Rightarrow> 'a::len word \<Rightarrow> 'a regs \<Rightarrow> u16 \<Rightarrow> 'a word res" where
  "new_value s cie rm locs cfa r reg =
     (case locs reg of
        None \<Rightarrow> Ret (regs_data r ! unat reg)
      | Some loc \<Rightarrow>
          (case dl_type loc of
             DWARF_LOCATION_OFFSET \<Rightarrow> map_res le_word (mem_Read rm (ucast cfa + value0 loc) (sizeof TYPE('a)))
           | DWARF_LOCATION_VAL_OFFSET \<Rightarrow> Ret (cfa + ucast (value0 loc))
           | DWARF_LOCATION_REGISTER \<Rightarrow>
               (let cur_reg = ucast (value0 loc) :: u16 in
                if cur_reg \<ge> total_regs r \<or> locs cur_reg \<noteq> None then Fail else Ret (regs_data r ! unat cur_reg + ucast (value1 loc)))
           | DWARF_LOCATION_EXPRESSION \<Rightarrow>
               (case fst (EvalExpression loc (cie_version cie) rm s) of
                  Ret v \<Rightarrow> map_res le_word (mem_Read rm (ucast (v :: 'a word)) (sizeof TYPE('a)))
                | Fail \<Rightarrow> Fail | Abort \<Rightarrow> Abort | Undef \<Rightarrow> Undef)
           | DWARF_LOCATION_VAL_EXPRESSION \<Rightarrow> fst (EvalExpression loc (cie_version cie) rm s)
           | DWARF_LOCATION_UNDEFINED \<Rightarrow> Ret (regs_data r ! unat reg)
           | DWARF_LOCATION_INVALID \<Rightarrow> Ret (regs_data r ! unat reg)))"

definition undefined_rule :: "dwarf_cie \<Rightarrow> dwarf_loc_regs \<Rightarrow> u16 \<Rightarrow> bool" where
  "undefined_rule cie locs reg \<longleftrightarrow> (\<exists>loc. locs reg = Some loc \<and> dl_type loc = DWARF_LOCATION_UNDEFINED \<and> ucast reg = return_address_register cie)"

text \<open>The state of the loop when the registers in \<open>done\<close> have their new values.\<close>

definition loop_state ::
  "dwarf_section \<Rightarrow> dwarf_cie \<Rightarrow> memory \<Rightarrow> dwarf_loc_regs \<Rightarrow> 'a::len word \<Rightarrow> 'a regs \<Rightarrow> u16 set \<Rightarrow> dwarf_section \<times> 'a regs \<Rightarrow> bool" where
  "loop_state s cie rm locs cfa r D p \<longleftrightarrow> dm_env (ds_memory (fst p)) = dm_env (ds_memory s) \<and>
     (\<exists>ws. snd p = r\<lparr>regs_data := ws\<rparr> \<and> length ws = length (regs_data r) \<and>
       (\<forall>reg. unat reg < length ws \<longrightarrow>
          (if reg \<in> D then new_value s cie rm locs cfa r reg = Ret (ws ! unat reg) else ws ! unat reg = regs_data r ! unat reg)))"

text \<open>The parts of the state a rule changes.\<close>

lemma on_regs_put:
  assumes "i < length (regs_data r)"
  shows "on_regs (regs_put i v) (s, r) = (Ret (), s, r\<lparr>regs_data := (regs_data r)[i := v]\<rparr>)"
  using assms by (simp add: on_regs_def on_part_def regs_put_def)

lemma on_regs_get: "i < length (regs_data r) \<Longrightarrow> on_regs (get_reg i) (s, r) = (Ret (regs_data r ! i), s, r)"
  by (simp add: on_regs_def on_part_def get_reg_def regs_at_def)

lemma eval_memory_read:
  fixes r :: "'a::len regs"
  assumes "i < length (regs_data r)"
  shows "mem_Read rm a (sizeof TYPE('a)) = Ret bs \<Longrightarrow>
      eval_memory (on_regs (reg_read rm a i)) (s, r) = (Ret (), s, r\<lparr>regs_data := (regs_data r)[i := le_word bs]\<rparr>)"
    and "\<not> is_Ret (mem_Read rm a (sizeof TYPE('a))) \<Longrightarrow> \<not> is_Ret (fst (eval_memory (on_regs (reg_read rm a i)) (s, r)))"
proof -
  show "mem_Read rm a (sizeof TYPE('a)) = Ret bs \<Longrightarrow>
      eval_memory (on_regs (reg_read rm a i)) (s, r) = (Ret (), s, r\<lparr>regs_data := (regs_data r)[i := le_word bs]\<rparr>)"
    using assms by (simp add: eval_memory_def on_fail_def on_regs_def on_part_def reg_read_def regs_put_def)
  show "\<not> is_Ret (mem_Read rm a (sizeof TYPE('a))) \<Longrightarrow> \<not> is_Ret (fst (eval_memory (on_regs (reg_read rm a i)) (s, r)))"
    using assms
    by (auto simp: eval_memory_def on_fail_def on_regs_def on_part_def reg_read_def regs_put_def rbind_def get_reg_def regs_at_def
      Let_def op_defs split: res.splits)
qed

lemma on_section_EvalExpression:
  assumes "dm_env (ds_memory s1) = dm_env (ds_memory s)"
  obtains s2 where "on_section (EvalExpression loc ver rm) (s1, r) = (fst (EvalExpression loc ver rm s) :: 'a::len word res, s2, r)"
    and "dm_env (ds_memory s2) = dm_env (ds_memory s)"
proof -
  obtain q s2 where q: "EvalExpression loc ver rm s1 = (q :: 'a word res, s2)" by fastforce
  then have "dm_env (ds_memory s2) = dm_env (ds_memory s)" using EvalExpression_env [OF q] assms by simp
  moreover have "fst (EvalExpression loc ver rm s) = q" using EvalExpression_cursor [OF assms, of loc ver rm] q by (metis fst_conv)
  ultimately show ?thesis using that q by (simp add: on_section_def on_part_def)
qed

lemma rbind_not_is_Ret: "\<not> is_Ret (fst (m s)) \<Longrightarrow> \<not> is_Ret (fst (rbind m f s))"
  by (auto simp: rbind_def split: prod.splits res.splits)

lemma map_res_Ret [simp]: "is_Ret (map_res f r) = is_Ret r"
  by (cases r) simp_all

lemma map_res_eq_Ret: "map_res f r = Ret v \<longleftrightarrow> (\<exists>x. r = Ret x \<and> v = f x)"
  by (cases r) auto

text \<open>One register, at a state where it has its old value and the registers that rules refer to have theirs.\<close>

lemma eval_reg_value:
  fixes cfa :: "'a::len word"
  assumes loc: "locs reg = Some loc" and reg: "unat reg < length ws" and r: "unat (total_regs r) = length ws"
    and env: "dm_env (ds_memory s1) = dm_env (ds_memory s)" and old: "ws ! unat reg = regs_data r ! unat reg"
    and others: "\<And>cur. locs cur = None \<Longrightarrow> unat cur < length ws \<Longrightarrow> ws ! unat cur = regs_data r ! unat cur"
  shows "new_value s cie rm locs cfa r reg = Ret v \<Longrightarrow>
      \<exists>s2. eval_reg cie rm locs cfa reg b (s1, r\<lparr>regs_data := ws\<rparr>) =
        (Ret (b \<or> undefined_rule cie locs reg), s2, r\<lparr>regs_data := ws[unat reg := v]\<rparr>) \<and> dm_env (ds_memory s2) = dm_env (ds_memory s)" (is "?ret \<Longrightarrow> ?R")
    and "\<not> is_Ret (new_value s cie rm locs cfa r reg) \<Longrightarrow> \<not> is_Ret (fst (eval_reg cie rm locs cfa reg b (s1, r\<lparr>regs_data := ws\<rparr>)))"
proof -
  let ?r1 = "r\<lparr>regs_data := ws\<rparr>"
  have lt: "reg < total_regs r" using reg r by (simp add: word_less_nat_alt)
  then have act: "\<not> (reg = CFA_REG \<or> total_regs r \<le> reg)" by (auto simp: CFA_REG_def dest: leD)
  have i: "unat reg < length (regs_data ?r1)" using reg by simp
  note defs = eval_reg_def rbind_def [of "\<lambda>p. (Ret (snd p), p)"] loc act new_value_def undefined_rule_def
  obtain s2 where e: "on_section (EvalExpression loc (cie_version cie) rm) (s1, ?r1) =
      (fst (EvalExpression loc (cie_version cie) rm s) :: 'a word res, s2, ?r1)" "dm_env (ds_memory s2) = dm_env (ds_memory s)"
    using on_section_EvalExpression [OF env] by metis
  have cur: "unat c < length ws \<and> ws ! unat c = regs_data r ! unat c" if "\<not> total_regs r \<le> c" "locs c = None" for c
    using that others [of c] r by (simp add: word_less_nat_alt not_le)
  show ?R if ret: ?ret
  proof (cases "dl_type loc")
    case DWARF_LOCATION_OFFSET
    then obtain bs where "mem_Read rm (ucast cfa + value0 loc) (sizeof TYPE('a)) = Ret bs" "v = le_word bs"
      using ret by (auto simp: defs map_res_eq_Ret)
    then show ?thesis using eval_memory_read(1) [OF i] DWARF_LOCATION_OFFSET env by (simp add: defs op_defs)
  next
    case DWARF_LOCATION_EXPRESSION
    then obtain w bs where "fst (EvalExpression loc (cie_version cie) rm s) = Ret (w :: 'a word)"
        "mem_Read rm (ucast w) (sizeof TYPE('a)) = Ret bs" "v = le_word bs"
      using ret by (cases "fst (EvalExpression loc (cie_version cie) rm s) :: 'a word res") (auto simp: defs map_res_eq_Ret)
    then show ?thesis using eval_memory_read(1) [OF i] DWARF_LOCATION_EXPRESSION e by (simp add: defs op_defs)
  next
    case DWARF_LOCATION_VAL_EXPRESSION
    then show ?thesis using ret e on_regs_put [OF i] by (simp add: defs op_defs)
  next
    case DWARF_LOCATION_REGISTER
    then show ?thesis using ret env cur on_regs_put [OF i] on_regs_get [of _ ?r1] by (auto simp: defs op_defs Let_def split: if_splits)
  qed (use ret env old [symmetric] on_regs_put [OF i] in \<open>auto simp: defs op_defs\<close>)
  show "\<not> is_Ret (fst (eval_reg cie rm locs cfa reg b (s1, ?r1)))" if bad: "\<not> is_Ret (new_value s cie rm locs cfa r reg)"
  proof (cases "dl_type loc")
    case DWARF_LOCATION_OFFSET
    then show ?thesis using bad eval_memory_read(2) [OF i] by (auto simp: defs intro!: rbind_not_is_Ret)
  next
    case DWARF_LOCATION_EXPRESSION
    then show ?thesis
      using bad e eval_memory_read(2) [OF i]
      by (cases "fst (EvalExpression loc (cie_version cie) rm s) :: 'a word res")
         (auto simp: defs rbind_not_Ret intro!: rbind_not_is_Ret)
  next
    case DWARF_LOCATION_VAL_EXPRESSION
    then show ?thesis
      using bad e by (cases "fst (EvalExpression loc (cie_version cie) rm s) :: 'a word res") (simp_all add: defs rbind_not_Ret)
  next
    case DWARF_LOCATION_REGISTER
    then show ?thesis using bad by (auto simp: defs on_section_def on_part_def ds_fail_def Let_def split: if_splits)
  qed (use bad in \<open>auto simp: defs\<close>)
qed

lemma eval_reg_step:
  fixes r :: "'a::len regs"
  assumes st: "loop_state s cie rm locs cfa r D p" and D: "D \<subseteq> dom locs" "reg \<in> dom locs - D"
    and n: "length (regs_data r) = unat (total_regs r)"
  shows "reg < total_regs r \<longrightarrow> is_Ret (new_value s cie rm locs cfa r reg) \<Longrightarrow>
      \<exists>p'. eval_reg cie rm locs cfa reg b p = (Ret (b \<or> reg < total_regs r \<and> undefined_rule cie locs reg), p') \<and>
        loop_state s cie rm locs cfa r (insert reg D) p'" (is "?ret \<Longrightarrow> ?R")
    and "reg < total_regs r \<Longrightarrow> \<not> is_Ret (new_value s cie rm locs cfa r reg) \<Longrightarrow> \<not> is_Ret (fst (eval_reg cie rm locs cfa reg b p))"
proof -
  obtain s1 ws where p: "p = (s1, r\<lparr>regs_data := ws\<rparr>)" "length ws = length (regs_data r)" "dm_env (ds_memory s1) = dm_env (ds_memory s)"
    and ws: "\<And>c. unat c < length ws \<Longrightarrow>
      if c \<in> D then new_value s cie rm locs cfa r c = Ret (ws ! unat c) else ws ! unat c = regs_data r ! unat c"
    using st unfolding loop_state_def by (metis prod.collapse)
  obtain loc where loc: "locs reg = Some loc" using D by blast
  have others: "ws ! unat c = regs_data r ! unat c" if "locs c = None" "unat c < length ws" for c
    using ws [OF that(2)] that(1) D by (auto split: if_splits)
  have total: "unat (total_regs r) = length ws" using n p(2) by simp
  then have lt: "unat reg < length ws \<and> ws ! unat reg = regs_data r ! unat reg" if "reg < total_regs r"
    using that ws [of reg] D(2) by (auto simp: word_less_nat_alt)
  note rule_value = eval_reg_value [where locs = locs and reg = reg and ws = ws and r = r and s = s and cfa = cfa and cie = cie and rm = rm,
      OF loc _ _ p(3) _ others]
  show ?R if ret: ?ret
  proof (cases "reg < total_regs r")
    case True
    obtain v where v: "new_value s cie rm locs cfa r reg = Ret v" using ret True by (cases "new_value s cie rm locs cfa r reg") auto
    obtain s2 where "eval_reg cie rm locs cfa reg b p = (Ret (b \<or> undefined_rule cie locs reg), s2, r\<lparr>regs_data := ws[unat reg := v]\<rparr>)"
        "dm_env (ds_memory s2) = dm_env (ds_memory s)"
      using rule_value(1) [OF _ total _ _ _ v] lt [OF True] unfolding p(1) by blast
    moreover have "ws[unat reg := v] ! unat c = (if c = reg then v else ws ! unat c)" if "unat c < length ws" for c
      using that by (auto simp: nth_list_update word_unat_eq_iff)
    then have "loop_state s cie rm locs cfa r (insert reg D) (s2, r\<lparr>regs_data := ws[unat reg := v]\<rparr>)"
      unfolding loop_state_def
      by (intro conjI exI [of _ "ws[unat reg := v]"]) (use calculation(2) p(2) ws v in \<open>auto split: if_splits\<close>)
    ultimately show ?thesis using True by auto
  next
    case False
    then have "eval_reg cie rm locs cfa reg b p = (Ret b, p)" using p loc by (simp add: eval_reg_def rbind_def op_defs not_less)
    moreover have "loop_state s cie rm locs cfa r (insert reg D) p"
      using st False n p by (auto simp: loop_state_def word_less_nat_alt)
    ultimately show ?thesis using False by auto
  qed
  show "\<not> is_Ret (fst (eval_reg cie rm locs cfa reg b p))"
    if "reg < total_regs r" and bad: "\<not> is_Ret (new_value s cie rm locs cfa r reg)"
    using rule_value(2) [OF _ total _ _ _ bad] lt [OF that(1)] unfolding p(1) by blast
qed

lemma eval_regs_value:
  fixes r :: "'a::len regs"
  assumes "loop_state s cie rm locs cfa r D p" and "D \<union> set order \<subseteq> dom locs" and "D \<inter> set order = {}" and "distinct order"
    and "length (regs_data r) = unat (total_regs r)"
  shows "if \<forall>reg\<in>set order. reg < total_regs r \<longrightarrow> is_Ret (new_value s cie rm locs cfa r reg)
    then \<exists>p'. eval_regs cie rm locs cfa order b p = (Ret (b \<or> (\<exists>reg\<in>set order. reg < total_regs r \<and> undefined_rule cie locs reg)), p') \<and>
      loop_state s cie rm locs cfa r (D \<union> set order) p'
    else \<not> is_Ret (fst (eval_regs cie rm locs cfa order b p))"
  using assms
proof (induction order arbitrary: D b p)
  case Nil
  then show ?case by (simp add: op_defs)
next
  case (Cons reg order)
  note step = eval_reg_step [OF Cons.prems(1) _ _ Cons.prems(5), of reg b]
  have reg: "D \<subseteq> dom locs" "reg \<in> dom locs - D" using Cons.prems by auto
  show ?case
  proof (cases "reg < total_regs r \<longrightarrow> is_Ret (new_value s cie rm locs cfa r reg)")
    case True
    obtain p' where p': "eval_reg cie rm locs cfa reg b p = (Ret (b \<or> reg < total_regs r \<and> undefined_rule cie locs reg), p')"
        "loop_state s cie rm locs cfa r (insert reg D) p'"
      using step(1) [OF reg True] by blast
    have "insert reg D \<union> set order \<subseteq> dom locs" "insert reg D \<inter> set order = {}" "distinct order" using Cons.prems by auto
    note IH = Cons.IH [OF p'(2) this Cons.prems(5), of "b \<or> reg < total_regs r \<and> undefined_rule cie locs reg"]
    then show ?thesis
      using True p'(1)
      by (cases "\<forall>reg\<in>set order. reg < total_regs r \<longrightarrow> is_Ret (new_value s cie rm locs cfa r reg)") (auto simp: rbind_Ret disj_assoc)
  next
    case False
    then have "\<not> is_Ret (fst (eval_reg cie rm locs cfa reg b p))" using step(2) [OF reg] by blast
    then show ?thesis using False rbind_not_is_Ret [of "eval_reg cie rm locs cfa reg b" p "eval_regs cie rm locs cfa order"] by auto
  qed
qed

lemma eval_cfa_frame:
  assumes "eval_cfa cie rm locs (s, r) = (Ret cfa, p)"
  obtains s1 where "p = (s1, r)" and "dm_env (ds_memory s1) = dm_env (ds_memory s)"
proof -
  note defs = eval_cfa_def rbind_def [of "\<lambda>p. (Ret (snd p), p)"] rbind_eq_Ret on_section_def on_part_def ds_fail_def on_regs_def
    get_reg_def regs_at_def op_defs
  have read: "eval_memory (read_mem rm a n) q = (Ret bs, q') \<longleftrightarrow> mem_Read rm a n = Ret bs \<and> q = q'" for a n q q' bs
    by (auto simp: eval_memory_def read_mem_def on_fail_def split: res.split)
  have "snd p = r \<and> dm_env (ds_memory (fst p)) = dm_env (ds_memory s)"
    using assms
    by (auto simp: defs read split: option.splits DwarfLocationEnum.splits if_splits prod.splits res.splits dest!: EvalExpression_env)
  then show ?thesis using that by (metis prod.collapse)
qed

text \<open>The loop starts with no register done.\<close>

lemma loop_state_init: "dm_env (ds_memory s1) = dm_env (ds_memory s) \<Longrightarrow> loop_state s cie rm locs cfa r {} (s1, r)"
  unfolding loop_state_def by (intro conjI exI [of _ "regs_data r"]) simp_all

lemma unat_ucast_u16: "unat (ucast (w :: u16) :: u64) = unat w"
  using unsigned_less [of w, where ?'a = nat] by (simp add: unsigned_ucast_eq take_bit_nat_eq_self)

lemma undefined_return_address:
  assumes "return_address_register cie < ucast n" and "set order = dom locs"
  shows "(\<exists>reg\<in>set order. reg < n \<and> undefined_rule cie locs reg) \<longleftrightarrow> undefined_rule cie locs (ucast (return_address_register cie))"
proof -
  have reg: "ucast (return_address_register cie) = reg \<and> reg < n" if "ucast reg = return_address_register cie" for reg :: u16
    using that [symmetric] assms(1) by (auto simp: word_less_nat_alt unat_ucast_u16 intro: bit_word_eqI simp: bit_simps)
  have "ucast (return_address_register cie) = reg \<and> reg < n \<and> reg \<in> set order" if "undefined_rule cie locs reg" for reg
    using that reg [of reg] assms(2) unfolding undefined_rule_def by blast
  then show ?thesis by metis
qed

text \<open>C3. \<open>Eval\<close> gives every register the value of its rule on the registers before the step, in whatever order the map is
  iterated; the new \<open>pc\<close> is the value of the return address, or 0 where its rule is
  undefined, and the new \<open>sp\<close> is the CFA. It reports that the unwinding is finished exactly when the pc is 0. It returns false
  (or does not return) exactly when one of the rules has no value.
\<close>

theorem Eval_registers:
  fixes r :: "'a::len regs"
  assumes n: "length (regs_data r) = unat (total_regs r)"
    and order: "distinct order" "set order = dom locs"
    and ra: "return_address_register cie < ucast (total_regs r)"
    and cfa: "fst (eval_cfa cie rm locs (s, r)) = Ret cfa"
  shows "if \<forall>reg < total_regs r. is_Ret (new_value s cie rm locs cfa r reg)
    then \<exists>vs s'. length vs = unat (total_regs r) \<and> (\<forall>reg < total_regs r. new_value s cie rm locs cfa r reg = Ret (vs ! unat reg)) \<and>
      (let pc = if undefined_rule cie locs (ucast (return_address_register cie)) then 0 else vs ! unat (return_address_register cie) in
       DwarfSection_Eval order cie rm locs (s, r) = (Ret (pc = 0), s', r\<lparr>regs_data := vs, regs_pc := pc, regs_sp := cfa\<rparr>))
    else \<not> is_Ret (fst (DwarfSection_Eval order cie rm locs (s, r)))"
proof -
  obtain s1 where c: "eval_cfa cie rm locs (s, r) = (Ret cfa, s1, r)" "dm_env (ds_memory s1) = dm_env (ds_memory s)"
    using cfa eval_cfa_frame by (metis prod.collapse)
  have rest: "is_Ret (new_value s cie rm locs cfa r reg)" if "reg \<notin> set order" for reg
    using that order by (auto simp: new_value_def split: option.split)
  note regs = eval_regs_value [OF loop_state_init [OF c(2)], of order locs r cie rm cfa False, simplified, OF _ order(1) n]
  note defs = DwarfSection_Eval_def rbind_def [of "\<lambda>p. (Ret (snd p), p)"] rbind_Ret [of "eval_cfa cie rm locs", OF c(1)]
  show ?thesis
  proof (cases "\<forall>reg < total_regs r. is_Ret (new_value s cie rm locs cfa r reg)")
    case True
    then obtain s2 ws where e: "eval_regs cie rm locs cfa order False (s1, r) =
          (Ret (undefined_rule cie locs (ucast (return_address_register cie))), s2, r\<lparr>regs_data := ws\<rparr>)"
        and ws: "length ws = length (regs_data r)" "\<And>reg. unat reg < length ws \<Longrightarrow>
          if reg \<in> set order then new_value s cie rm locs cfa r reg = Ret (ws ! unat reg) else ws ! unat reg = regs_data r ! unat reg"
      using regs order undefined_return_address [OF ra order(2)] unfolding loop_state_def by auto
    have "new_value s cie rm locs cfa r reg = Ret (ws ! unat reg)" if "reg < total_regs r" for reg
      using ws(2) [of reg] ws(1) that n order by (auto simp: word_less_nat_alt new_value_def domIff split: if_splits)
    moreover have "unat (return_address_register cie) < length ws"
      using ra n ws(1) by (simp add: word_less_nat_alt unat_ucast_u16)
    ultimately show ?thesis
      using ra ws(1) n e unfolding if_P [OF True]
      by (intro exI [of _ ws] exI [of _ s2])
         (auto simp: defs rbind_Ret on_regs_def on_part_def get_reg_def regs_at_def set_pc_def set_sp_def Let_def op_defs not_le)
  next
    case False
    then have "\<not> (\<forall>reg\<in>set order. reg < total_regs r \<longrightarrow> is_Ret (new_value s cie rm locs cfa r reg))" using rest by blast
    then have "\<not> is_Ret (fst (eval_regs cie rm locs cfa order False (s1, r)))" using regs order by simp
    then show ?thesis using ra unfolding if_not_P [OF False] by (auto simp: defs rbind_not_is_Ret dest: leD)
  qed
qed

text \<open>Two registers: the CFA is the stack pointer plus 4, register 0, which is the return address, is register 1 plus 3.\<close>

definition sample_registers :: "32 regs" where
  "sample_registers = (new_RegsImpl 2 1 \<lparr>loc_type = LOCATION_UNKNOWN, loc_value = 0\<rparr> 0 100)\<lparr>regs_data := [10, 20]\<rparr>"

definition sample_rules :: dwarf_loc_regs where
  "sample_rules = [CFA_REG \<mapsto> \<lparr>dl_type = DWARF_LOCATION_REGISTER, value0 = 1, value1 = 4\<rparr>,
     0 \<mapsto> \<lparr>dl_type = DWARF_LOCATION_REGISTER, value0 = 1, value1 = 3\<rparr>]"

lemma Eval_registers_witness:
  "\<exists>s'. DwarfSection_Eval [0, CFA_REG] new_DwarfCie (MemoryBuffer []) sample_rules
       (new_DwarfSection (MemoryBuffer []) (DebugFrame \<lparr>df_offset = 0, df_end_offset = 0, df_fdes = []\<rparr>), sample_registers) =
     (Ret False, s', sample_registers\<lparr>regs_data := [23, 20], regs_pc := 23, regs_sp := 104\<rparr>)"
proof -
  let ?s = "new_DwarfSection (MemoryBuffer []) (DebugFrame \<lparr>df_offset = 0, df_end_offset = 0, df_fdes = []\<rparr>)"
  let ?new = "new_value ?s new_DwarfCie (MemoryBuffer []) sample_rules 104 sample_registers"
  have r: "total_regs sample_registers = 2" "regs_data sample_registers = [10, 20]" "sp_reg sample_registers = 1" "regs_sp sample_registers = 100"
    by (simp_all add: sample_registers_def new_RegsImpl_def)
  have two: "reg < 2 \<longleftrightarrow> reg = 0 \<or> reg = 1" for reg :: u16
    by (auto simp: word_less_nat_alt word_unat_eq_iff)
  have new: "?new 0 = Ret 23" "?new 1 = Ret 20"
    by (simp_all add: new_value_def sample_rules_def CFA_REG_def r word_le_nat_alt)
  have cfa: "fst (eval_cfa new_DwarfCie (MemoryBuffer []) sample_rules (?s, sample_registers)) = Ret 104"
    by (simp add: eval_cfa_def sample_rules_def CFA_REG_def rbind_def op_defs r word_le_nat_alt)
  note E = Eval_registers [of sample_registers "[0, CFA_REG]" sample_rules new_DwarfCie, OF _ _ _ _ cfa]
  have "\<forall>reg < total_regs sample_registers. is_Ret (?new reg)" using new by (simp add: r two)
  then obtain vs s' where vs: "length vs = 2" "vs ! 0 = 23" "vs ! 1 = 20"
      "let pc = if undefined_rule new_DwarfCie sample_rules (ucast (return_address_register new_DwarfCie)) then 0
         else vs ! unat (return_address_register new_DwarfCie) in
       DwarfSection_Eval [0, CFA_REG] new_DwarfCie (MemoryBuffer []) sample_rules (?s, sample_registers) =
         (Ret (pc = 0), s', sample_registers\<lparr>regs_data := vs, regs_pc := pc, regs_sp := 104\<rparr>)"
    using E new by (auto simp: r two sample_rules_def CFA_REG_def new_DwarfCie_def)
  moreover have "vs = [23, 20]" using vs(1-3) by (auto intro!: nth_equalityI simp: less_2_cases_iff)
  ultimately show ?thesis by (auto simp: Let_def undefined_rule_def sample_rules_def new_DwarfCie_def CFA_REG_def)
qed

end
