(* ===== verification/DwarfDebugFrame.thy ===== *)
theory DwarfDebugFrame
  imports DwarfSection
begin

text \<open>
  \<open>DwarfDebugFrame<AddressType>\<close> (\<open>DwarfDebugFrame.h\<close>, \<open>DwarfDebugFrame.cpp\<close>): the section is read once from end to
  end to build a sorted list of the address ranges, which is then searched. \<open>std::sort\<close> is a parameter.
\<close>

definition new_DwarfDebugFrame :: "memory \<Rightarrow> dwarf_section" where
  "new_DwarfDebugFrame m = new_DwarfSection m (DebugFrame \<lparr>df_offset = 0, df_end_offset = 0, df_fdes = []\<rparr>)"

definition modify_df :: "(debug_frame \<Rightarrow> debug_frame) \<Rightarrow> dwarf_section \<Rightarrow> dwarf_section" where
  "modify_df f s = s\<lparr>ds_impl := DebugFrame (f (df (ds_impl s)))\<rparr>"

section \<open>Reading the section\<close>

text \<open>\<open>do { ReadBytes(&value, 1) } while (value & 0x80)\<close>.\<close>

function skip_leb128 :: "(dwarf_memory, unit) op" where
  "skip_leb128 dm =
     (case dm_ReadBytes 1 dm of
        (Ret bs, dm') \<Rightarrow> if hd bs AND 0x80 \<noteq> 0 then skip_leb128 dm' else (Ret (), dm')
      | (Fail, dm') \<Rightarrow> (Fail, dm')
      | (Abort, dm') \<Rightarrow> (Abort, dm')
      | (Undef, dm') \<Rightarrow> (Undef, dm'))"
  by pat_completeness auto
termination
  by (relation "measure (\<lambda>dm. 2 ^ 64 - unat (cur_offset dm))") (use dm_ReadBytes_measure [OF sym] in force)+

declare skip_leb128.simps [simp del]

definition ds_skip :: "u64 \<Rightarrow> (dwarf_section, unit) op" where
  "ds_skip n = rbind ds_cur_offset (\<lambda>cur. ds_set_cur_offset (cur + n))"

text \<open>The search for the encoding in the augmentation data.\<close>

fun find_encoding :: "'a::len itself \<Rightarrow> u8 list \<Rightarrow> (dwarf_section, u8) op" where
  "find_encoding T [] = rabort"
| "find_encoding T (c # cs) =
     (if c = of_char (CHR ''R'') then ds_read8
      else if c = of_char (CHR ''L'') then rbind (ds_skip 1) (\<lambda>_. find_encoding T cs)
      else if c = of_char (CHR ''P'') then
        rbind ds_read8 (\<lambda>e. rbind (on_ds_memory (dm_ReadEncodedValue T e)) (\<lambda>_. find_encoding T cs))
      else find_encoding T cs)"

text \<open>\<open>GetCieInfo\<close>; the results are \<open>*segment_size\<close> and \<open>*encoding\<close>, whose value on entry is the argument.\<close>

definition GetCieInfo :: "'a::len itself \<Rightarrow> u8 \<Rightarrow> (dwarf_section, u8 \<times> u8) op" where
  "GetCieInfo T encoding =
     rbind ds_read8 (\<lambda>version.
     rbind (on_ds_memory (read_augmentation [])) (\<lambda>aug.
     rbind (if version = 4 then rbind (ds_skip 1) (\<lambda>_. ds_read8) else rret 0) (\<lambda>seg.
     if hd aug \<noteq> of_char (CHR ''z'') \<or> of_char (CHR ''R'') \<notin> set aug then rret (seg, encoding)
     else
       rbind (on_ds_memory skip_leb128) (\<lambda>_.
       rbind (on_ds_memory skip_leb128) (\<lambda>_.
       rbind (if version = 1 then ds_skip 1 else on_ds_memory skip_leb128) (\<lambda>_.
       rbind (on_ds_memory skip_leb128) (\<lambda>_.
       rbind (find_encoding T (tl aug)) (\<lambda>enc. rret (seg, enc)))))))))"

text \<open>The constructor of \<open>FdeInfo\<close> truncates to \<open>AddressType\<close>.\<close>

definition new_FdeInfo :: "'a::len itself \<Rightarrow> u64 \<Rightarrow> u64 \<Rightarrow> u64 \<Rightarrow> debug_fde_info" where
  "new_FdeInfo T offset start len =
     \<lparr>dfi_offset = offset, dfi_start = take_bit (8 * sizeof T) start, dfi_end = take_bit (8 * sizeof T) (start + len)\<rparr>"

definition AddFdeInfo :: "'a::len itself \<Rightarrow> u64 \<Rightarrow> u8 \<Rightarrow> u8 \<Rightarrow> (dwarf_section, unit) op" where
  "AddFdeInfo T entry_offset seg encoding =
     rbind (if seg \<noteq> 0 then ds_skip 1 else rret ()) (\<lambda>_.
     rbind (on_ds_memory (dm_ReadEncodedValue T (encoding AND 0xf))) (\<lambda>start.
     rbind (on_ds_memory (dm_ReadEncodedValue T (encoding AND 0xf))) (\<lambda>len.
     if len \<noteq> 0 then modify (modify_df (\<lambda>d. d\<lparr>df_fdes := df_fdes d @ [new_FdeInfo T entry_offset start len]\<rparr>)) else rret ())))"

text \<open>The local variables of the loop: \<open>cie_offset\<close>, and \<open>address_encoding\<close> and \<open>segment_size\<close>, which are uninitialised until the
  first CIE.\<close>

type_synonym fde_loop = "u64 \<times> (u8 \<times> u8) option"

text \<open>What follows the length of an entry: a CIE when the id is all ones, else an FDE of the CIE before it.\<close>

definition debug_frame_entry ::
  "'a::len itself \<Rightarrow> u64 \<Rightarrow> u8 \<Rightarrow> bool \<Rightarrow> u64 \<Rightarrow> fde_loop \<Rightarrow> (dwarf_section, fde_loop) op" where
  "debug_frame_entry T cur_entry_offset enc is_cie pointer l =
     (if is_cie then rbind (GetCieInfo T enc) (\<lambda>info. rret (cur_entry_offset, Some info))
      else
        rbind (ds_query (\<lambda>s. df_offset (df (ds_impl s)))) (\<lambda>offset.
        if offset + pointer \<noteq> fst l then ds_fail DWARF_ERROR_ILLEGAL_VALUE
        else
          case snd l of
            None \<Rightarrow> rundef
          | Some (seg, enc) \<Rightarrow> rbind (AddFdeInfo T cur_entry_offset seg enc) (\<lambda>_. rret l)))"

definition fde_list_step :: "'a::len itself \<Rightarrow> fde_loop \<Rightarrow> (dwarf_section, fde_loop) op" where
  "fde_list_step T l =
     rbind ds_cur_offset (\<lambda>cur_entry_offset.
     rbind ds_read32 (\<lambda>value32.
     rbind (if value32 = -1 then
              rbind ds_read64 (\<lambda>value64. rbind ds_cur_offset (\<lambda>cur.
              rbind ds_read64 (\<lambda>pointer.
              rbind (debug_frame_entry T cur_entry_offset DW_EH_PE_sdata8 (pointer = -1) pointer l) (\<lambda>l. rret (cur + value64, l)))))
            else
              rbind ds_cur_offset (\<lambda>cur.
              rbind ds_read32 (\<lambda>pointer.
              rbind (debug_frame_entry T cur_entry_offset DW_EH_PE_sdata4 (pointer = -1) (ucast pointer) l) (\<lambda>l.
              rret (cur + ucast value32, l))))) (\<lambda>(next_entry_offset, l).
     rbind ds_cur_offset (\<lambda>cur.
     if next_entry_offset < cur then ds_fail DWARF_ERROR_ILLEGAL_VALUE
     else rbind (ds_set_cur_offset next_entry_offset) (\<lambda>_. rret l)))))"

partial_function (option) fde_list_loop ::
  "'a::len itself \<Rightarrow> fde_loop \<Rightarrow> dwarf_section \<Rightarrow> (unit res \<times> dwarf_section) option" where
  "fde_list_loop T l s =
     (if cur_offset (ds_memory s) < df_end_offset (df (ds_impl s)) then
        (case fde_list_step T l s of
           (Ret l', s') \<Rightarrow> fde_list_loop T l' s'
         | (Fail, s') \<Rightarrow> Some (Fail, s')
         | (Abort, s') \<Rightarrow> Some (Abort, s')
         | (Undef, s') \<Rightarrow> Some (Undef, s'))
      else Some (Ret (), s))"

type_synonym fde_sort = "debug_fde_info list \<Rightarrow> debug_fde_info list"

definition CreateSortedFdeList :: "fde_sort \<Rightarrow> 'a::len itself \<Rightarrow> (dwarf_section, unit) dop" where
  "CreateSortedFdeList std_sort T =
     dbind (total (modify (\<lambda>s. s\<lparr>ds_memory := set_cur_offset (df_offset (df (ds_impl s))) (ds_memory s)\<rparr>))) (\<lambda>_.
     dbind (fde_list_loop T (0, None)) (\<lambda>_.
     dbind (total (modify (modify_df (\<lambda>d. d\<lparr>df_fdes := std_sort (df_fdes d)\<rparr>)))) (\<lambda>_.
     total (modify (\<lambda>s. s\<lparr>ds_fde_count := of_nat (length (df_fdes (df (ds_impl s))))\<rparr>)))))"

definition DwarfDebugFrame_Init :: "fde_sort \<Rightarrow> 'a::len itself \<Rightarrow> u64 \<Rightarrow> u64 \<Rightarrow> (dwarf_section, unit) dop" where
  "DwarfDebugFrame_Init std_sort T offset sz =
     dbind (total (modify (modify_df (\<lambda>d. d\<lparr>df_offset := offset, df_end_offset := offset + sz\<rparr>)))) (\<lambda>_.
     dbind (total (modify (\<lambda>s. s\<lparr>ds_memory :=
       set_cur_offset offset (set_data_offset offset (clear_text_offset (clear_func_offset (ds_memory s))))\<rparr>))) (\<lambda>_.
     CreateSortedFdeList std_sort T))"

section \<open>The search\<close>

function debug_fde_search :: "debug_fde_info list \<Rightarrow> u64 \<Rightarrow> nat \<Rightarrow> nat \<Rightarrow> debug_fde_info option" where
  "debug_fde_search fdes pc k n =
     (if k < n then
        (let current = (k + n) div 2; info = fdes ! current in
         if pc \<ge> dfi_start info \<and> pc \<le> dfi_end info then Some info
         else if pc < dfi_start info then debug_fde_search fdes pc k current
         else debug_fde_search fdes pc (current + 1) n)
      else None)"
  by pat_completeness auto
termination
  by (relation "measure (\<lambda>(fdes, pc, k, n). n - k)") auto

declare debug_fde_search.simps [simp del]

definition DwarfDebugFrame_GetFdeOffsetFromPc :: "u64 \<Rightarrow> (dwarf_section, u64) op" where
  "DwarfDebugFrame_GetFdeOffsetFromPc pc s =
     (if ds_fde_count s = 0 then (Fail, s)
      else case debug_fde_search (df_fdes (df (ds_impl s))) pc 0 (unat (ds_fde_count s)) of
        None \<Rightarrow> (Fail, s)
      | Some info \<Rightarrow> (Ret (dfi_offset info), s))"

definition DwarfDebugFrame_GetFdeFromIndex :: "'a::len itself \<Rightarrow> nat \<Rightarrow> (dwarf_section, dwarf_fde) op" where
  "DwarfDebugFrame_GetFdeFromIndex T index s =
     (let fdes = df_fdes (df (ds_impl s)) in
      if index \<ge> length fdes then (Fail, s) else GetFdeFromOffset T (dfi_offset (fdes ! index)) s)"

end
