(* ===== verification/DwarfEhFrame.thy ===== *)
theory DwarfEhFrame
  imports DwarfSection "HOL-Library.AList"
begin

text \<open>
  \<open>DwarfEhFrame<AddressType>\<close> (\<open>DwarfEhFrame.h\<close>, \<open>DwarfEhFrame.cpp\<close>): the binary search table of \<open>.eh_frame_hdr\<close>,
  whose entries are read when they are needed and kept in the map \<open>fde_info_\<close>. A null pointer that is
  dereferenced is undefined behaviour.
\<close>

text \<open>The members without initialiser are arbitrary in a new object; \<open>Init\<close> sets them.\<close>

definition new_DwarfEhFrame :: "memory \<Rightarrow> dwarf_section" where
  "new_DwarfEhFrame m = new_DwarfSection m (EhFrame \<lparr>eh_version = 0, eh_ptr_encoding = 0, eh_table_encoding = 0,
     eh_table_entry_size = 0, eh_ptr_offset = 0, eh_entries_offset = 0, eh_entries_end = 0, eh_entries_data_offset = 0,
     eh_cur_entries_offset = 0, eh_fde_info = []\<rparr>)"

definition modify_eh :: "(eh_frame \<Rightarrow> eh_frame) \<Rightarrow> dwarf_section \<Rightarrow> dwarf_section" where
  "modify_eh f s = s\<lparr>ds_impl := EhFrame (f (eh (ds_impl s)))\<rparr>"

definition eh_query :: "(eh_frame \<Rightarrow> 'b) \<Rightarrow> (dwarf_section, 'b) op" where
  "eh_query f = ds_query (\<lambda>s. f (eh (ds_impl s)))"

definition modify_memory :: "(dwarf_memory \<Rightarrow> dwarf_memory) \<Rightarrow> (dwarf_section, unit) op" where
  "modify_memory f = modify (\<lambda>s. s\<lparr>ds_memory := f (ds_memory s)\<rparr>)"

text \<open>\<open>memory_.set_pc_offset(memory_.cur_offset())\<close>.\<close>

definition pc_offset_here :: "(dwarf_section, unit) op" where
  "pc_offset_here = modify_memory (\<lambda>dm. set_pc_offset (cur_offset dm) dm)"

section \<open>Init\<close>

definition DwarfEhFrame_Init :: "'a::len itself \<Rightarrow> u64 \<Rightarrow> u64 \<Rightarrow> (dwarf_section, unit) op" where
  "DwarfEhFrame_Init T offset sz =
     rbind (modify_memory (\<lambda>dm. set_cur_offset offset (set_data_offset offset (clear_text_offset (clear_func_offset dm))))) (\<lambda>_.
     rbind (on_ds_memory (dm_ReadBytes 4)) (\<lambda>data.
     rbind (modify (modify_eh (\<lambda>e. e\<lparr>eh_version := data ! 0\<rparr>))) (\<lambda>_.
     if data ! 0 \<noteq> 1 then ds_fail DWARF_ERROR_UNSUPPORTED_VERSION
     else
       rbind (modify (modify_eh (\<lambda>e. e\<lparr>eh_ptr_encoding := data ! 1, eh_table_encoding := data ! 3,
         eh_table_entry_size := GetEncodedSize T (data ! 3)\<rparr>))) (\<lambda>_.
       rbind pc_offset_here (\<lambda>_.
       rbind (on_ds_memory (dm_ReadEncodedValue T (data ! 1))) (\<lambda>ptr.
       rbind (modify (modify_eh (\<lambda>e. e\<lparr>eh_ptr_offset := ptr\<rparr>))) (\<lambda>_.
       rbind pc_offset_here (\<lambda>_.
       rbind (on_ds_memory (dm_ReadEncodedValue T (data ! 2))) (\<lambda>count.
       rbind (modify (\<lambda>s. s\<lparr>ds_fde_count := count\<rparr>)) (\<lambda>_.
       rbind ds_cur_offset (\<lambda>cur.
       modify (modify_eh (\<lambda>e. e\<lparr>eh_entries_offset := cur, eh_entries_end := offset + sz, eh_entries_data_offset := offset,
         eh_cur_entries_offset := cur\<rparr>)))))))))))))"

section \<open>Entries\<close>

text \<open>An entry of the table: \<open>info->pc\<close> is an \<open>AddressType\<close>.\<close>

definition eh_info :: "'a::len itself \<Rightarrow> u64 \<Rightarrow> u64 \<Rightarrow> eh_fde_info" where
  "eh_info T v offset = \<lparr>efi_pc = take_bit (8 * sizeof T) (v + 4), efi_offset = offset\<rparr>"

text \<open>Reading two encoded values at the cursor as the entry with the given index. It is added to the map, and taken out again when the
  second value cannot be read.\<close>

definition read_eh_entry :: "'a::len itself \<Rightarrow> u64 \<Rightarrow> (dwarf_section, eh_fde_info) op" where
  "read_eh_entry T index =
     rbind pc_offset_here (\<lambda>_.
     rbind (eh_query eh_table_encoding) (\<lambda>enc.
     rbind (on_ds_memory (dm_ReadEncodedValue T enc)) (\<lambda>v.
     rbind (on_ds_memory (dm_ReadEncodedValue T enc)) (\<lambda>offset.
     rbind (modify (modify_eh (\<lambda>e. e\<lparr>eh_fde_info := AList.update index (eh_info T v offset) (eh_fde_info e)\<rparr>))) (\<lambda>_.
     rret (eh_info T v offset))))))"

definition GetFdeInfoFromIndex :: "'a::len itself \<Rightarrow> u64 \<Rightarrow> (dwarf_section, eh_fde_info) op" where
  "GetFdeInfoFromIndex T index =
     rbind (eh_query (\<lambda>e. e)) (\<lambda>e.
     case map_of (eh_fde_info e) index of
       Some info \<Rightarrow> rret info
     | None \<Rightarrow>
         rbind (modify_memory (\<lambda>dm. set_cur_offset (eh_entries_offset e + 2 * index * of_nat (eh_table_entry_size e))
           (set_data_offset (eh_entries_data_offset e) dm))) (\<lambda>_.
         read_eh_entry T index))"

definition DwarfEhFrame_GetFdeFromIndex :: "'a::len itself \<Rightarrow> u64 \<Rightarrow> (dwarf_section, dwarf_fde) op" where
  "DwarfEhFrame_GetFdeFromIndex T index =
     rbind (GetFdeInfoFromIndex T index) (\<lambda>info. GetFdeFromOffset T (efi_offset info))"

text \<open>The result of \<open>GetFdeInfoFromIndex\<close> used without a test for null.\<close>

definition deref_info :: "'a::len itself \<Rightarrow> u64 \<Rightarrow> (dwarf_section, eh_fde_info) op" where
  "deref_info T index s = (case GetFdeInfoFromIndex T index s of (Fail, s') \<Rightarrow> (Undef, s') | p \<Rightarrow> p)"

section \<open>Binary search\<close>

text \<open>The indices are natural numbers: the sum of two indices of a table of less than \<open>2 ^ 63\<close> entries does not wrap around.\<close>

function eh_binary_loop :: "'a::len itself \<Rightarrow> u64 \<Rightarrow> nat \<Rightarrow> nat \<Rightarrow> (dwarf_section, u64 + nat) op" where
  "eh_binary_loop T pc k n =
     (if k < n then
        (let current = (k + n) div 2 in
         rbind (deref_info T (of_nat current)) (\<lambda>info.
         if pc = efi_pc info then rret (Inl (efi_offset info))
         else if pc < efi_pc info then eh_binary_loop T pc k current
         else eh_binary_loop T pc (current + 1) n))
      else rret (Inr n))"
  by pat_completeness auto
termination
  by (relation "measure (\<lambda>(T, pc, k, n). n - k)") auto

declare eh_binary_loop.simps [simp del]

definition GetFdeOffsetBinary :: "'a::len itself \<Rightarrow> u64 \<Rightarrow> u64 \<Rightarrow> (dwarf_section, u64) op" where
  "GetFdeOffsetBinary T pc total_entries =
     rbind (ds_query ds_fde_count) (\<lambda>count.
     if \<not> count > 0 \<or> \<not> total_entries \<le> count then rabort
     else
       rbind (eh_binary_loop T pc 0 (unat total_entries)) (\<lambda>found.
       case found of
         Inl offset \<Rightarrow> rret offset
       | Inr n \<Rightarrow> if n \<noteq> 0 then rbind (deref_info T (of_nat (n - 1))) (\<lambda>info. rret (efi_offset info)) else rfail))"

section \<open>Sequential search\<close>

text \<open>The loop that reads entries; \<open>prev\<close> is \<open>prev_info\<close>. The result is the offset found, or \<open>prev_info\<close> after the loop.\<close>

function eh_sequential_loop ::
  "'a::len itself \<Rightarrow> u64 \<Rightarrow> u64 \<Rightarrow> eh_fde_info option \<Rightarrow> (dwarf_section, u64 + eh_fde_info option) op" where
  "eh_sequential_loop T pc current prev s =
     (if current < ds_fde_count s \<and> cur_offset (ds_memory s) < eh_entries_end (eh (ds_impl s)) then
        (case read_eh_entry T current s of
           (Ret info, s') \<Rightarrow>
             if pc < efi_pc info then
               (case prev of
                  None \<Rightarrow> (Fail, s')
                | Some p \<Rightarrow> (Ret (Inl (efi_offset p)), modify_eh (\<lambda>e. e\<lparr>eh_cur_entries_offset := cur_offset (ds_memory s')\<rparr>) s'))
             else eh_sequential_loop T pc (current + 1) (Some info) s'
         | (Fail, s') \<Rightarrow> (Fail, s')
         | (Abort, s') \<Rightarrow> (Abort, s')
         | (Undef, s') \<Rightarrow> (Undef, s'))
      else (Ret (Inr prev), s))"
  by pat_completeness auto
termination
proof (relation "measure (\<lambda>(T, pc, current, prev, s). 2 ^ 64 - unat current)")
  fix T :: "'a itself" and pc current :: u64 and prev s x s' info
  assume "current < ds_fde_count s \<and> cur_offset (ds_memory s) < eh_entries_end (eh (ds_impl s))"
  then have "unat current < unat (ds_fde_count s)" by (simp add: word_less_nat_alt)
  moreover have "unat (ds_fde_count s) < 2 ^ 64" using unsigned_less [of "ds_fde_count s", where ?'a = nat] by simp
  ultimately have "unat (current + 1) = unat current + 1" "unat current + 1 < 2 ^ 64" by (simp_all add: unat_word_ariths)
  then show "((T, pc, current + 1, Some info, s'), T, pc, current, prev, s) \<in> measure (\<lambda>(T, pc, current, prev, s). 2 ^ 64 - unat current)"
    by simp
qed simp

declare eh_sequential_loop.simps [simp del]

text \<open>\<open>fde_info_[key]\<close>, which adds an entry of zeros for a key that is not in the map.\<close>

definition fde_info_at :: "u64 \<Rightarrow> (dwarf_section, eh_fde_info) op" where
  "fde_info_at key =
     rbind (eh_query eh_fde_info) (\<lambda>infos.
     case map_of infos key of
       Some info \<Rightarrow> rret info
     | None \<Rightarrow>
         let info = \<lparr>efi_pc = 0, efi_offset = 0\<rparr> in
         rbind (modify (modify_eh (\<lambda>e. e\<lparr>eh_fde_info := AList.update key info (eh_fde_info e)\<rparr>))) (\<lambda>_. rret info))"

definition fde_info_size :: "(dwarf_section, u64) op" where
  "fde_info_size = eh_query (\<lambda>e. of_nat (length (eh_fde_info e)))"

definition GetFdeOffsetSequential :: "'a::len itself \<Rightarrow> u64 \<Rightarrow> (dwarf_section, u64) op" where
  "GetFdeOffsetSequential T pc =
     rbind (ds_query ds_fde_count) (\<lambda>count.
     if count = 0 then rabort
     else
       rbind (modify (\<lambda>s. s\<lparr>ds_last_error := DWARF_ERROR_NONE\<rparr>)) (\<lambda>_.
       rbind fde_info_size (\<lambda>n.
       if n \<noteq> 0 then
         rbind (fde_info_at (n - 1)) (\<lambda>info.
         if pc \<ge> efi_pc info then rret (efi_offset info)
         else rbind fde_info_size (GetFdeOffsetBinary T pc))
       else
         rbind (eh_query (\<lambda>e. e)) (\<lambda>e.
         if eh_cur_entries_offset e = 0 then rfail
         else
           rbind (modify_memory (\<lambda>dm. set_cur_offset (eh_cur_entries_offset e) (set_data_offset (eh_entries_data_offset e) dm))) (\<lambda>_.
           rbind (modify (modify_eh (\<lambda>e. e\<lparr>eh_cur_entries_offset := 0\<rparr>))) (\<lambda>_.
           rbind (eh_sequential_loop T pc n None) (\<lambda>found.
           case found of
             Inl offset \<Rightarrow> rret offset
           | Inr prev \<Rightarrow>
               rbind fde_info_size (\<lambda>n.
               if count = n then
                 (case prev of None \<Rightarrow> rundef | Some p \<Rightarrow> if pc \<ge> efi_pc p then rret (efi_offset p) else rfail)
               else rfail))))))))"

definition DwarfEhFrame_GetFdeOffsetFromPc :: "'a::len itself \<Rightarrow> u64 \<Rightarrow> (dwarf_section, u64) op" where
  "DwarfEhFrame_GetFdeOffsetFromPc T pc =
     rbind (ds_query ds_fde_count) (\<lambda>count.
     if count = 0 then rfail
     else rbind (eh_query eh_table_entry_size) (\<lambda>entry_size.
       if entry_size > 0 then GetFdeOffsetBinary T pc count else GetFdeOffsetSequential T pc))"

end
