(* ===== verification/DwarfSection_Step.thy ===== *)
theory DwarfSection_Step
  imports DwarfDebugFrame DwarfEhFrame
begin

text \<open>
  The virtual functions that both derived classes implement, and the members of \<open>DwarfSection\<close> that are built on them:
  \<open>GetFdeFromPc\<close> and \<open>Step\<close>.
\<close>

definition DwarfSection_Init :: "fde_sort \<Rightarrow> 'a::len itself \<Rightarrow> u64 \<Rightarrow> u64 \<Rightarrow> (dwarf_section, unit) dop" where
  "DwarfSection_Init std_sort T offset sz s =
     (case ds_impl s of
        DebugFrame _ \<Rightarrow> DwarfDebugFrame_Init std_sort T offset sz s
      | EhFrame _ \<Rightarrow> Some (DwarfEhFrame_Init T offset sz s))"

definition GetFdeOffsetFromPc :: "'a::len itself \<Rightarrow> u64 \<Rightarrow> (dwarf_section, u64) op" where
  "GetFdeOffsetFromPc T pc s =
     (case ds_impl s of
        DebugFrame _ \<Rightarrow> DwarfDebugFrame_GetFdeOffsetFromPc pc s
      | EhFrame _ \<Rightarrow> DwarfEhFrame_GetFdeOffsetFromPc T pc s)"

definition GetFdeFromIndex :: "'a::len itself \<Rightarrow> u64 \<Rightarrow> (dwarf_section, dwarf_fde) op" where
  "GetFdeFromIndex T index s =
     (case ds_impl s of
        DebugFrame _ \<Rightarrow> DwarfDebugFrame_GetFdeFromIndex T (unat index) s
      | EhFrame _ \<Rightarrow> DwarfEhFrame_GetFdeFromIndex T index s)"

definition GetFdeFromPc :: "'a::len itself \<Rightarrow> u64 \<Rightarrow> (dwarf_section, dwarf_fde) op" where
  "GetFdeFromPc T pc =
     rbind (GetFdeOffsetFromPc T pc) (\<lambda>fde_offset.
     rbind (GetFdeFromOffset T fde_offset) (\<lambda>f.
     if pc < pc_end f then rret f else ds_fail DWARF_ERROR_ILLEGAL_STATE))"

text \<open>The FDE and its CIE, both not null.\<close>

definition step_fde :: "'a::len itself \<Rightarrow> u64 \<Rightarrow> (dwarf_section, dwarf_fde \<times> dwarf_cie) op" where
  "step_fde T pc =
     on_fail (\<lambda>s. s\<lparr>ds_last_error := DWARF_ERROR_ILLEGAL_STATE\<rparr>)
       (rbind (GetFdeFromPc T pc) (\<lambda>f. case fde_cie f of None \<Rightarrow> rfail | Some cie \<Rightarrow> rret (f, cie)))"

text \<open>\<open>Step\<close>; the result is \<open>*finished\<close>. The first argument gives the order in which the locations are iterated.\<close>

definition DwarfSection_Step ::
  "(dwarf_loc_regs \<Rightarrow> u16 list) \<Rightarrow> u64 \<Rightarrow> memory \<Rightarrow> (dwarf_section \<times> 'a::len regs, bool) dop" where
  "DwarfSection_Step order pc process_memory =
     dbind (total (on_section (modify (\<lambda>s. s\<lparr>ds_last_error := DWARF_ERROR_NONE\<rparr>)))) (\<lambda>_.
     dbind (total (on_section (step_fde TYPE('a) pc))) (\<lambda>(f, cie).
     dbind (on_dpart fst (\<lambda>s p. (s, snd p)) (GetCfaLocationInfo TYPE('a) pc f)) (\<lambda>locs.
     total (DwarfSection_Eval (order locs) cie process_memory locs))))"

end
