(* ===== verification/Section_Parse.thy ===== *)
theory Section_Parse
  imports DwarfSection_Step
begin

text \<open>
  \<open>FillInCie\<close> and \<open>FillInFde\<close> as parsers: what they return for the bytes of a CIE and of an FDE. The rules for the single reads
  compose along the sequence of the operations.
\<close>

section \<open>Parsing at the cursor\<close>

definition cursor_at :: "dwarf_section \<Rightarrow> u64 \<Rightarrow> dwarf_section" where
  "cursor_at s a = s\<lparr>ds_memory := (ds_memory s)\<lparr>cur_offset := a\<rparr>\<rparr>"

definition parses :: "dwarf_section \<Rightarrow> u64 \<Rightarrow> (dwarf_section, 'v) op \<Rightarrow> u8 list \<Rightarrow> 'v \<Rightarrow> bool" where
  "parses s a f bs v \<longleftrightarrow> (mem_holds (dm_memory (ds_memory s)) a bs \<longrightarrow> f (cursor_at s a) = (Ret v, cursor_at s (a + of_nat (length bs))))"

named_theorems parse_rules

lemma cursor_at_simps [simp]:
  "ds_memory (cursor_at s a) = (ds_memory s)\<lparr>cur_offset := a\<rparr>" "ds_impl (cursor_at s a) = ds_impl s"
  "ds_cie_entries (cursor_at s a) = ds_cie_entries s" "cursor_at (cursor_at s a) b = cursor_at s b"
  "(cursor_at s a)\<lparr>ds_memory := (ds_memory s)\<lparr>cur_offset := b\<rparr>\<rparr> = cursor_at s b"
  by (simp_all add: cursor_at_def)

lemma parses_rret [parse_rules]: "parses s a (rret v) [] v"
  by (simp add: parses_def rret_def)

lemma parses_rbind:
  assumes "parses s a f xs v" and "parses s (a + of_nat (length xs)) (g v) ys w"
  shows "parses s a (rbind f g) (xs @ ys) w"
  unfolding parses_def
proof
  assume h: "mem_holds (dm_memory (ds_memory s)) a (xs @ ys)"
  then show "rbind f g (cursor_at s a) = (Ret w, cursor_at s (a + of_nat (length (xs @ ys))))"
    using assms mem_holds_append [OF h] by (simp add: parses_def add.assoc)
qed

lemma parses_on_ds_memory:
  assumes "\<And>dm. mem_holds (dm_memory dm) (cur_offset dm) bs \<Longrightarrow> f dm = (Ret v, dm\<lparr>cur_offset := cur_offset dm + of_nat (length bs)\<rparr>)"
  shows "parses s a (on_ds_memory f) bs v"
  using assms [of "(ds_memory s)\<lparr>cur_offset := a\<rparr>"] by (simp add: parses_def on_ds_memory_def on_fail_def on_part_def)

lemma parses_ReadBytes: "bs \<noteq> [] \<Longrightarrow> parses s a (on_ds_memory (dm_ReadBytes (length bs))) bs bs"
  by (rule parses_on_ds_memory) (use dm_ReadBytes_holds in simp)

lemma le_bytes_neq_Nil: "0 < n \<Longrightarrow> le_bytes n w \<noteq> []"
  by (cases n) simp_all

lemma parses_word:
  assumes "bs \<noteq> []" and "le_word bs = w"
  shows "parses s a (rbind (on_ds_memory (dm_ReadBytes (length bs))) (\<lambda>bs. rret (le_word bs))) bs w"
  using parses_rbind [OF parses_ReadBytes [OF assms(1)], of s a "\<lambda>bs. rret (le_word bs)" "[]" w] assms(2) by (simp add: parses_rret)

lemma parses_read8 [parse_rules]: "parses s a ds_read8 [b] b"
  using parses_word [of "[b]" b s a] by (simp add: ds_read8_def)

lemma parses_read32 [parse_rules]: "parses s a ds_read32 (le_bytes 4 w) w"
  using parses_word [of "le_bytes 4 w" w s a] by (simp add: ds_read32_def le_bytes_neq_Nil)

lemma parses_uleb [parse_rules]: "parses s a (on_ds_memory dm_ReadULEB128) (uleb_encode (unat v)) v"
  by (rule parses_on_ds_memory) (rule ReadULEB128_encode)

lemma parses_sleb: "- (2 ^ 62) \<le> v \<Longrightarrow> v < 2 ^ 63 \<Longrightarrow> parses s a (on_ds_memory dm_ReadSLEB128) (sleb_encode v) (of_int v)"
  by (rule parses_on_ds_memory) (rule ReadSLEB128_encode)

lemma parses_cur_offset: "parses s a (g a) ys w \<Longrightarrow> parses s a (rbind ds_cur_offset g) ys w"
  by (simp add: parses_def ds_cur_offset_def)

lemma parses_query: "parses s a (g (q (cursor_at s a))) ys w \<Longrightarrow> parses s a (rbind (ds_query q) g) ys w"
  by (simp add: parses_def ds_query_def)

section \<open>The encoding of a CIE\<close>

text \<open>The characters of the augmentation string behind \<open>z\<close>, with their data. Other characters have no data.\<close>

datatype aug_item = AugL u8 | AugR u8 | AugOther u8

primrec aug_char :: "aug_item \<Rightarrow> u8" where
  "aug_char (AugL e) = of_char (CHR ''L'')"
| "aug_char (AugR e) = of_char (CHR ''R'')"
| "aug_char (AugOther c) = c"

primrec aug_data :: "aug_item \<Rightarrow> u8 list" where
  "aug_data (AugL e) = [e]"
| "aug_data (AugR e) = [e]"
| "aug_data (AugOther c) = []"

primrec apply_aug :: "aug_item \<Rightarrow> dwarf_cie \<Rightarrow> dwarf_cie" where
  "apply_aug (AugL e) cie = cie\<lparr>lsda_encoding := e\<rparr>"
| "apply_aug (AugR e) cie = cie\<lparr>fde_address_encoding := e\<rparr>"
| "apply_aug (AugOther c) cie = cie"

primrec aug_item_ok :: "aug_item \<Rightarrow> bool" where
  "aug_item_ok (AugL e) \<longleftrightarrow> True"
| "aug_item_ok (AugR e) \<longleftrightarrow> True"
| "aug_item_ok (AugOther c) \<longleftrightarrow> c \<notin> {0, of_char (CHR ''L''), of_char (CHR ''P''), of_char (CHR ''R'')}"

text \<open>A CIE: without augmentation string, or with one that starts with \<open>z\<close>.\<close>

record cie_source =
  cs_version :: u8
  cs_aug :: "aug_item list option"
  cs_address_size :: u8
  cs_segment_size :: u8
  cs_code_align :: u64
  cs_data_align :: int
  cs_return_address :: u64

definition aug_string :: "aug_item list option \<Rightarrow> u8 list" where
  "aug_string aug = (case aug of None \<Rightarrow> [] | Some items \<Rightarrow> of_char (CHR ''z'') # map aug_char items)"

definition aug_bytes :: "aug_item list option \<Rightarrow> u8 list" where
  "aug_bytes aug = (case aug of None \<Rightarrow> [] | Some items \<Rightarrow>
     uleb_encode (length (concat (map aug_data items))) @ concat (map aug_data items))"

definition cie_body_bytes :: "cie_source \<Rightarrow> u8 list" where
  "cie_body_bytes c = [cs_version c] @ (aug_string (cs_aug c) @ [0]) @ (if cs_version c = 4 then [cs_address_size c, cs_segment_size c] else []) @
     uleb_encode (unat (cs_code_align c)) @ sleb_encode (cs_data_align c) @
     (if cs_version c = 1 then [ucast (cs_return_address c)] else uleb_encode (unat (cs_return_address c))) @ aug_bytes (cs_aug c)"

definition encode_cie :: "u32 \<Rightarrow> u32 \<Rightarrow> cie_source \<Rightarrow> u8 list" where
  "encode_cie len cie_id c = (le_bytes 4 len @ le_bytes 4 cie_id) @ cie_body_bytes c"

definition cie_of :: "u64 \<Rightarrow> u64 \<Rightarrow> cie_source \<Rightarrow> dwarf_cie" where
  "cie_of fin instructions c = fold apply_aug (case cs_aug c of None \<Rightarrow> [] | Some items \<Rightarrow> items)
     \<lparr>cie_version = cs_version c, fde_address_encoding = DW_EH_PE_sdata4, lsda_encoding = DW_EH_PE_omit,
      segment_size = (if cs_version c = 4 then cs_segment_size c else 0), augmentation_string = aug_string (cs_aug c) @ [0],
      personality_handler = 0, cie_cfa_instructions_offset = instructions, cie_cfa_instructions_end = fin,
      code_alignment_factor = cs_code_align c, data_alignment_factor = of_int (cs_data_align c),
      return_address_register = cs_return_address c\<rparr>"

definition cie_source_ok :: "cie_source \<Rightarrow> bool" where
  "cie_source_ok c \<longleftrightarrow> cs_version c \<in> {1, 3, 4} \<and> - (2 ^ 62) \<le> cs_data_align c \<and> cs_data_align c < 2 ^ 63 \<and>
     (cs_version c = 1 \<longrightarrow> cs_return_address c < 256) \<and>
     (case cs_aug c of None \<Rightarrow> True | Some items \<Rightarrow> list_all aug_item_ok items \<and> length (concat (map aug_data items)) < 2 ^ 64)"

section \<open>FillInCie reads it back\<close>

lemma read_augmentation_holds:
  assumes "mem_holds (dm_memory dm) (cur_offset dm) (cs @ [0])" and "0 \<notin> set cs"
  shows "read_augmentation pre dm = (Ret (pre @ cs @ [0]), dm\<lparr>cur_offset := cur_offset dm + of_nat (length cs) + 1\<rparr>)"
  using assms
proof (induction cs arbitrary: pre dm)
  case Nil
  then show ?case using dm_ReadBytes_holds [of dm "[0]" 1] by (simp add: read_augmentation.simps)
next
  case (Cons c cs)
  have r: "dm_ReadBytes 1 dm = (Ret [c], dm\<lparr>cur_offset := cur_offset dm + 1\<rparr>)"
    using dm_ReadBytes_holds [of dm "c # cs @ [0]" 1] Cons.prems(1) by simp
  have "mem_holds (dm_memory dm) (cur_offset dm + 1) (cs @ [0])" using mem_holds_Cons(2) Cons.prems(1) by simp
  then show ?case
    using Cons.IH [of "dm\<lparr>cur_offset := cur_offset dm + 1\<rparr>" "pre @ [c]"] Cons.prems(2) r
    by (simp add: read_augmentation.simps [of pre dm] add_ac)
qed

lemma parses_augmentation: "0 \<notin> set cs \<Longrightarrow> parses s a (on_ds_memory (read_augmentation [])) (cs @ [0]) (cs @ [0])"
  by (rule parses_on_ds_memory) (simp add: read_augmentation_holds add.assoc)

lemma parses_aug_item:
  assumes "aug_item_ok i"
  shows "parses s a (if aug_char i = of_char (CHR ''L'') then rbind ds_read8 (\<lambda>e. rret (cie\<lparr>lsda_encoding := e\<rparr>))
      else if aug_char i = of_char (CHR ''P'') then
        rbind ds_read8 (\<lambda>e. rbind (on_ds_memory (dm_ReadEncodedValue T e)) (\<lambda>v. rret (cie\<lparr>personality_handler := v\<rparr>)))
      else if aug_char i = of_char (CHR ''R'') then rbind ds_read8 (\<lambda>e. rret (cie\<lparr>fde_address_encoding := e\<rparr>))
      else rret cie) (aug_data i) (apply_aug i cie)"
proof -
  have "parses s a (rbind ds_read8 (\<lambda>e. rret (f e))) [e] (f e)" for e and f :: "u8 \<Rightarrow> dwarf_cie"
    using parses_rbind [OF parses_read8 [of s a e] parses_rret] by simp
  then show ?thesis using assms by (cases i) (simp_all add: parses_rret)
qed

lemma parses_cie_augmentation:
  assumes "list_all aug_item_ok items"
  shows "parses s a (cie_augmentation T (map aug_char items @ [0]) cie) (concat (map aug_data items)) (fold apply_aug items cie)"
  using assms
proof (induction items arbitrary: a cie)
  case Nil
  then show ?case using parses_rbind [OF parses_rret [of s a cie] parses_rret] by (simp add: parses_def op_defs rbind_def)
next
  case (Cons i items)
  show ?case
    unfolding list.map append_Cons cie_augmentation.simps concat.simps fold_simps
    by (rule parses_rbind [OF parses_aug_item]) (use Cons in simp_all)
qed

lemma parses_cie_header:
  fixes len cie_id :: u32
  assumes "len \<noteq> -1" and "IsCie32 (ds_impl s) cie_id"
  shows "parses s a cie_header (le_bytes 4 len @ le_bytes 4 cie_id) (a + 4 + ucast len, DW_EH_PE_sdata4)"
proof -
  have id: "parses s (a + of_nat (length (le_bytes 4 len))) (rbind ds_read32 (\<lambda>cie_id. rbind (ds_query ds_impl) (\<lambda>impl.
      if \<not> IsCie32 impl cie_id then ds_fail DWARF_ERROR_ILLEGAL_VALUE else rret (a + 4 + ucast len, DW_EH_PE_sdata4))))
      (le_bytes 4 cie_id @ []) (a + 4 + ucast len, DW_EH_PE_sdata4)"
    by (rule parses_rbind [OF parses_read32], rule parses_query) (simp add: assms parses_rret)
  show ?thesis
    unfolding cie_header_def by (rule parses_rbind [OF parses_read32]) (use id assms(1) in \<open>simp add: parses_cur_offset\<close>)
qed

text \<open>What follows the return address register: the end of the CIE without augmentation, or the augmentation data.\<close>

lemma parses_cie_end:
  assumes "case aug of None \<Rightarrow> True | Some items \<Rightarrow> list_all aug_item_ok items \<and> length (concat (map aug_data items)) < 2 ^ 64"
  shows "parses s a (if hd (aug_string aug @ [0]) \<noteq> of_char (CHR ''z'') then
       rbind ds_cur_offset (\<lambda>cur. rret (cie\<lparr>cie_cfa_instructions_offset := cur\<rparr>))
     else
       rbind (on_ds_memory dm_ReadULEB128) (\<lambda>aug_length. rbind ds_cur_offset (\<lambda>cur.
       cie_augmentation T (tl (aug_string aug @ [0])) (cie\<lparr>cie_cfa_instructions_offset := cur + aug_length\<rparr>)))) (aug_bytes aug)
     (fold apply_aug (case aug of None \<Rightarrow> [] | Some items \<Rightarrow> items) (cie\<lparr>cie_cfa_instructions_offset := a + of_nat (length (aug_bytes aug))\<rparr>))"
proof (cases aug)
  case None
  then show ?thesis by (simp add: aug_string_def aug_bytes_def parses_cur_offset parses_rret)
next
  case (Some items)
  let ?d = "concat (map aug_data items)"
  have d: "unat (of_nat (length ?d) :: u64) = length ?d" using assms Some by (simp add: unat_of_nat)
  have "parses s (a + of_nat (length (uleb_encode (length ?d)))) (rbind ds_cur_offset (\<lambda>cur.
      cie_augmentation T (map aug_char items @ [0]) (cie\<lparr>cie_cfa_instructions_offset := cur + of_nat (length ?d)\<rparr>))) ?d
      (fold apply_aug items (cie\<lparr>cie_cfa_instructions_offset := a + of_nat (length (aug_bytes aug))\<rparr>))"
    using assms Some by (intro parses_cur_offset) (simp add: parses_cie_augmentation aug_bytes_def add.assoc)
  then show ?thesis
    using parses_rbind [OF parses_uleb [of s a "of_nat (length ?d)"], unfolded d] Some by (simp add: aug_string_def aug_bytes_def)
qed

lemma parses_segment_size:
  "parses s a (if version = 4 then rbind ds_cur_offset (\<lambda>cur. rbind (ds_set_cur_offset (cur + 1)) (\<lambda>_. ds_read8)) else rret d)
     (if version = 4 then [x, seg] else []) (if version = 4 then seg else d)"
proof -
  have "rbind ds_cur_offset (\<lambda>cur. rbind (ds_set_cur_offset (cur + 1)) (\<lambda>_. ds_read8)) (cursor_at s a) = (Ret seg, cursor_at s (a + 2))"
    if "mem_holds (dm_memory (ds_memory s)) a [x, seg]"
    using parses_read8 [of s "a + 1" seg] mem_holds_Cons(2) [OF that] by (simp add: parses_def ds_cur_offset_def ds_set_cur_offset_def modify_def set_cur_offset_def add.commute)
  then show ?thesis by (auto simp: parses_def rret_def)
qed

lemma parses_return_address:
  assumes "version = 1 \<longrightarrow> ra < 256"
  shows "parses s a (if version = (1 :: u8) then rbind ds_read8 (\<lambda>r. rret (ucast r)) else on_ds_memory dm_ReadULEB128)
     (if version = 1 then [ucast ra] else uleb_encode (unat ra)) (ra :: u64)"
proof (cases "version = 1")
  case True
  have "ucast (ucast ra :: u8) = ra"
    using assms True by (simp add: word_unat_eq_iff unsigned_ucast_eq unsigned_take_bit_eq take_bit_nat_eq_self word_less_nat_alt)
  then show ?thesis
    using True parses_rbind [OF parses_read8 [of s a "ucast ra"], of "\<lambda>r. rret (ucast r)" "[]" ra] by (simp add: parses_rret)
qed (simp add: parses_uleb)

lemma aug_string_nonzero:
  assumes "case aug of None \<Rightarrow> True | Some items \<Rightarrow> list_all aug_item_ok items \<and> length (concat (map aug_data items)) < 2 ^ 64"
  shows "0 \<notin> set (aug_string aug)"
proof -
  have "aug_item_ok i \<Longrightarrow> aug_char i \<noteq> 0" for i by (cases i) simp_all
  then show ?thesis using assms by (fastforce simp: aug_string_def list_all_iff split: option.splits)
qed

lemma parses_cie_body:
  assumes ok: "cie_source_ok c" and "segment_size cie = 0"
  shows "parses s a (cie_body T cie) (cie_body_bytes c)
     (fold apply_aug (case cs_aug c of None \<Rightarrow> [] | Some items \<Rightarrow> items)
        (cie\<lparr>cie_version := cs_version c, augmentation_string := aug_string (cs_aug c) @ [0],
         segment_size := if cs_version c = 4 then cs_segment_size c else 0,
         code_alignment_factor := cs_code_align c, data_alignment_factor := of_int (cs_data_align c),
         return_address_register := cs_return_address c, cie_cfa_instructions_offset := a + of_nat (length (cie_body_bytes c))\<rparr>))"
proof -
  have v: "\<not> (cs_version c \<noteq> 1 \<and> cs_version c \<noteq> 3 \<and> cs_version c \<noteq> 4)" and z: "0 \<notin> set (aug_string (cs_aug c))"
    and d: "- (2 ^ 62) \<le> cs_data_align c" "cs_data_align c < 2 ^ 63" and r: "cs_version c = 1 \<longrightarrow> cs_return_address c < 256"
    and e: "case cs_aug c of None \<Rightarrow> True | Some items \<Rightarrow> list_all aug_item_ok items \<and> length (concat (map aug_data items)) < 2 ^ 64"
    using ok aug_string_nonzero [of "cs_aug c"] unfolding cie_source_ok_def by auto
  show ?thesis
    unfolding cie_body_def cie_body_bytes_def
    by (rule parses_rbind [OF parses_read8], simp only: v if_False, rule parses_rbind [OF parses_augmentation [OF z]],
        rule parses_rbind [OF parses_segment_size], rule parses_rbind [OF parses_uleb], rule parses_rbind [OF parses_sleb [OF d]],
        rule parses_rbind [OF parses_return_address [OF r]], simp only: Let_def,
        rule back_subst [of "parses s _ _ _", OF parses_cie_end [OF e]]) (simp add: assms(2) add.assoc)
qed

text \<open>C6. Reading back: where the memory at the cursor holds the 32-bit encoding of a CIE of version 1, 3 or 4, without augmentation or with one
  of the kind \<open>z...\<close> (but without a personality routine), \<open>FillInCie\<close> returns the CIE. Its instructions start where the cursor is left
  and end where the length says.
\<close>

theorem FillInCie_roundtrip:
  assumes "cie_source_ok c" and "len \<noteq> -1" and "IsCie32 (ds_impl s) cie_id"
    and "mem_holds (dm_memory (ds_memory s)) a (encode_cie len cie_id c)"
  shows "FillInCie T (cursor_at s a) =
     (Ret (cie_of (a + 4 + ucast len) (a + of_nat (length (encode_cie len cie_id c))) c), cursor_at s (a + of_nat (length (encode_cie len cie_id c))))"
proof -
  have "parses s a (FillInCie T) (encode_cie len cie_id c) (cie_of (a + 4 + ucast len) (a + of_nat (length (encode_cie len cie_id c))) c)"
    unfolding FillInCie_def encode_cie_def
    by (rule parses_rbind [OF parses_cie_header [OF assms(2,3)]], simp only: prod.case,
        rule back_subst [of "parses s _ _ _", OF parses_cie_body [OF assms(1)]]) (simp_all add: new_DwarfCie_def cie_of_def add.assoc)
  then show ?thesis using assms(4) by (simp add: parses_def)
qed

lemma le_bytes_4: "le_bytes 4 w = [ucast w, ucast (drop_bit 8 w), ucast (drop_bit 16 w), ucast (drop_bit 24 w)]"
proof -
  have four: "(4 :: nat) = Suc (Suc (Suc (Suc 0)))" by simp
  show ?thesis unfolding four by simp
qed

definition sample_cie_source :: cie_source where
  "sample_cie_source = \<lparr>cs_version = 1, cs_aug = Some [AugR 0x1b], cs_address_size = 0, cs_segment_size = 0, cs_code_align = 1,
     cs_data_align = -4, cs_return_address = 16\<rparr>"

lemma FillInCie_roundtrip_witness:
  "\<exists>cie s'. FillInCie TYPE(64) (new_DwarfEhFrame (MemoryBuffer
       [0x10, 0, 0, 0, 0, 0, 0, 0, 1, 0x7a, 0x52, 0, 1, 0x7c, 0x10, 1, 0x1b, 0, 0, 0])) = (Ret cie, s') \<and>
     fde_address_encoding cie = 0x1b \<and> data_alignment_factor cie = -4 \<and> return_address_register cie = 16 \<and>
     cie_cfa_instructions_offset cie = 17 \<and> cie_cfa_instructions_end cie = 20"
proof -
  let ?bs = "[0x10, 0, 0, 0, 0, 0, 0, 0, 1, 0x7a, 0x52, 0, 1, 0x7c, 0x10, 1, 0x1b] :: u8 list"
  let ?s = "new_DwarfEhFrame (MemoryBuffer (?bs @ [0, 0, 0]))"
  have e: "encode_cie 16 0 sample_cie_source = ?bs"
    by (simp add: encode_cie_def cie_body_bytes_def sample_cie_source_def aug_string_def aug_bytes_def uleb_encode.simps
      sleb_encode.simps [of "-4"] le_bytes_4)
  have s: "cursor_at ?s 0 = ?s" "dm_memory (ds_memory ?s) = MemoryBuffer (?bs @ [0, 0, 0])"
    by (simp_all add: cursor_at_def new_DwarfEhFrame_def new_DwarfSection_def new_DwarfMemory_def)
  have "FillInCie TYPE(64) (cursor_at ?s 0) = (Ret (cie_of (0 + 4 + ucast (16 :: u32)) (0 + of_nat (length ?bs)) sample_cie_source), cursor_at ?s (0 + of_nat (length ?bs)))"
    using FillInCie_roundtrip [of sample_cie_source 16 ?s 0 0 "TYPE(64)"] mem_holds_MemoryBuffer [of "[]" ?bs "[0, 0, 0]"]
    unfolding e s by (simp add: sample_cie_source_def cie_source_ok_def new_DwarfEhFrame_def new_DwarfSection_def IsCie32_def)
  then show ?thesis unfolding s by (simp add: cie_of_def sample_cie_source_def)
qed

section \<open>FillInFde\<close>

text \<open>The bytes of an FDE up to its instructions; \<open>aug\<close> is the augmentation data, which is there when the augmentation string of the CIE starts with
  \<open>z\<close>.\<close>

definition fde_bytes :: "u32 \<Rightarrow> u32 \<Rightarrow> u8 list \<Rightarrow> u8 list \<Rightarrow> u8 list option \<Rightarrow> u8 list" where
  "fde_bytes len pointer start extent aug = (le_bytes 4 len @ le_bytes 4 pointer) @ start @ extent @
     (case aug of None \<Rightarrow> [] | Some d \<Rightarrow> uleb_encode (length d) @ d)"

definition has_augmentation :: "dwarf_cie \<Rightarrow> bool" where
  "has_augmentation cie \<longleftrightarrow> augmentation_string cie \<noteq> [] \<and> hd (augmentation_string cie) = of_char (CHR ''z'')"

text \<open>The address that the code adds to the start of an FDE: for \<open>.eh_frame\<close> the position of the cursor behind the field.\<close>

definition pc_bias :: "section_impl \<Rightarrow> u64 \<Rightarrow> u64" where
  "pc_bias impl cur = (case impl of DebugFrame d \<Rightarrow> 0 | EhFrame e \<Rightarrow> cur)"

lemma parses_fde_header:
  fixes len pointer :: u32
  assumes "len \<noteq> -1" and "\<not> IsCie32 (ds_impl s) pointer"
  shows "parses s a fde_header (le_bytes 4 len @ le_bytes 4 pointer)
    (a + 4 + ucast len, GetCieOffsetFromFde32 pointer (cursor_at s (a + 8)))"
proof -
  have "parses s (a + of_nat (length (le_bytes 4 len))) (rbind ds_read32 (\<lambda>value32. rbind (ds_query ds_impl) (\<lambda>impl.
      if IsCie32 impl value32 then ds_fail DWARF_ERROR_ILLEGAL_VALUE
      else rbind (ds_query (GetCieOffsetFromFde32 value32)) (\<lambda>off. rret (a + 4 + ucast len, off)))))
      (le_bytes 4 pointer @ []) (a + 4 + ucast len, GetCieOffsetFromFde32 pointer (cursor_at s (a + 8)))"
    by (rule parses_rbind [OF parses_read32], rule parses_query) (simp add: assms parses_query parses_rret add.assoc)
  note id = this
  show ?thesis
    unfolding fde_header_def by (rule parses_rbind [OF parses_read32]) (use id assms(1) in \<open>simp add: parses_cur_offset\<close>)
qed

lemma parses_encoded:
  assumes "GetEncodedSize T (e AND 0x0f) = length bs" and "bs \<noteq> []" and "length bs \<le> 8"
  shows "parses s a (on_ds_memory (dm_ReadEncodedValue T (e AND 0x0f))) bs (of_int (le_int (encoded_signed e) bs))"
proof (rule parses_on_ds_memory)
  fix dm :: dwarf_memory assume h: "mem_holds (dm_memory dm) (cur_offset dm) bs"
  have "(e AND 0x0f) AND 0x70 = 0" by (simp add: and.assoc)
  then have b: "encoded_base dm ((e AND 0x0f) AND 0x70) = Some 0" by (simp add: encoded_base_def)
  have "e AND 0x0f \<noteq> DW_EH_PE_aligned" using nibble_cases [of e] by auto
  moreover have "encoded_signed (e AND 0x0f) = encoded_signed e" by (simp add: encoded_signed_def and.assoc)
  ultimately show "dm_ReadEncodedValue T (e AND 0x0f) dm =
      (Ret (of_int (le_int (encoded_signed e) bs)), dm\<lparr>cur_offset := cur_offset dm + of_nat (length bs)\<rparr>)"
    using ReadEncodedValue_fixed [OF assms h _ b] by simp
qed

lemma parses_fde_augmentation:
  assumes "has_augmentation cie \<longleftrightarrow> aug \<noteq> None" and "lsda_encoding cie = DW_EH_PE_omit" and "case aug of None \<Rightarrow> True | Some d \<Rightarrow> length d < 2 ^ 64"
  shows "parses s a (if augmentation_string cie \<noteq> [] \<and> hd (augmentation_string cie) = of_char (CHR ''z'') then
         rbind (on_ds_memory dm_ReadULEB128) (\<lambda>aug_length. rbind ds_cur_offset (\<lambda>cur.
         rbind (on_ds_memory (dm_ReadEncodedValue T (lsda_encoding cie))) (\<lambda>lsda.
         rbind (ds_set_cur_offset (cur + aug_length)) (\<lambda>_. rret lsda))))
       else rret (lsda_address new_DwarfFde)) (case aug of None \<Rightarrow> [] | Some d \<Rightarrow> uleb_encode (length d) @ d) 0"
proof (cases aug)
  case None
  then show ?thesis using assms(1) by (auto simp: has_augmentation_def new_DwarfFde_def parses_rret)
next
  case (Some d)
  have d: "unat (of_nat (length d) :: u64) = length d" using assms(3) Some by (simp add: unat_of_nat)
  have skip: "parses s b (rbind ds_cur_offset (\<lambda>cur. rbind (on_ds_memory (dm_ReadEncodedValue T DW_EH_PE_omit)) (\<lambda>lsda.
         rbind (ds_set_cur_offset (cur + of_nat (length d))) (\<lambda>_. rret lsda)))) d 0" for b
    by (simp add: parses_def ds_cur_offset_def on_ds_memory_def on_fail_def on_part_def dm_ReadEncodedValue_def ds_set_cur_offset_def
      set_cur_offset_def op_defs)
  have z: "augmentation_string cie \<noteq> [] \<and> hd (augmentation_string cie) = of_char (CHR ''z'')"
    using assms(1) Some by (simp add: has_augmentation_def)
  show ?thesis
    unfolding Some option.case assms(2) if_P [OF z] by (rule parses_rbind [OF parses_uleb [of s a "of_nat (length d)", unfolded d]]) (rule skip)
qed

text \<open>C7. Where the memory holds the bytes of a 32-bit FDE whose CIE is known, has no segments and no language specific data, and has addresses
  of fixed size, \<open>FillInFde\<close> returns the FDE with the range of its function. In \<open>.debug_frame\<close> the start is the value of the field; in
  \<open>.eh_frame\<close> it is the value plus the position \<^emph>\<open>behind\<close> the field, which is the size of the field more than the address that the
  value is relative to.
\<close>

theorem FillInFde_value:
  fixes T :: "'a::len itself"
  assumes "len \<noteq> -1" and "\<not> IsCie32 (ds_impl s) pointer" and "GetCieOffsetFromFde32 pointer (cursor_at s (a + 8)) = cie_off"
    and cie: "ds_cie_entries s cie_off = Some cie" "segment_size cie = 0" "lsda_encoding cie = DW_EH_PE_omit"
    and start: "GetEncodedSize T (fde_address_encoding cie AND 0x0f) = n" "length start = n" "length extent = n" "0 < n" "n \<le> 8"
    and aug: "has_augmentation cie \<longleftrightarrow> aug \<noteq> None" "case aug of None \<Rightarrow> True | Some d \<Rightarrow> length d < 2 ^ 64"
    and h: "mem_holds (dm_memory (ds_memory s)) a (fde_bytes len pointer start extent aug)"
  shows "let bs = fde_bytes len pointer start extent aug; signed = encoded_signed (fde_address_encoding cie);
      first = of_int (le_int signed start) + pc_bias (ds_impl s) (a + 8 + of_nat n) in
    FillInFde T (cursor_at s a) =
     (Ret \<lparr>cie_offset = cie_off, fde_cfa_instructions_offset = a + of_nat (length bs), fde_cfa_instructions_end = a + 4 + ucast len,
       pc_start = first, pc_end = of_int (le_int signed extent) + first, lsda_address = 0, fde_cie = Some cie\<rparr>,
      cursor_at s (a + of_nat (length bs)))"
proof -
  let ?e = "fde_address_encoding cie"
  have ne: "start \<noteq> []" "extent \<noteq> []" using start by auto
  have get: "parses s b (rbind (GetCie T cie_off) g) ys w" if "parses s b (g cie) ys w" for b g ys and w :: dwarf_fde
    using that cie(1) by (simp add: parses_def GetCie_def)
  have stay: "parses s b (rbind (ds_set_cur_offset b) g) ys w" if "parses s b (g ()) ys w" for b g ys and w :: dwarf_fde
    using that by (simp add: parses_def ds_set_cur_offset_def modify_def set_cur_offset_def)
  have seg: "(if segment_size cie \<noteq> 0 then b + ucast (segment_size cie) else b) = b" for b :: u64 using cie(2) by simp
  define bs signed first where "bs = fde_bytes len pointer start extent aug" and "signed = encoded_signed ?e"
    and "first = of_int (le_int signed start) + pc_bias (ds_impl s) (a + 8 + of_nat n)"
  have "parses s a (FillInFde T) bs \<lparr>cie_offset = cie_off, fde_cfa_instructions_offset = a + of_nat (length bs), fde_cfa_instructions_end = a + 4 + ucast len,
       pc_start = first, pc_end = of_int (le_int signed extent) + first, lsda_address = 0, fde_cie = Some cie\<rparr>"
    unfolding FillInFde_def bs_def fde_bytes_def
    by (rule parses_rbind [OF parses_fde_header [OF assms(1,2)]], simp only: prod.case assms(3), rule parses_cur_offset, rule get,
        simp only: seg, rule stay, rule parses_rbind [OF parses_encoded [OF start(1) [folded start(2)] ne(1)]], simp add: start,
        rule parses_query, rule parses_rbind [OF parses_encoded [OF start(1) [folded start(3)] ne(2)]], simp add: start,
        rule parses_rbind [where ys = "[]", unfolded append_Nil2, OF parses_fde_augmentation [OF aug(1) cie(3) aug(2)]],
        rule parses_cur_offset, rule back_subst [of "parses s _ _ _", OF parses_rret])
       (simp add: new_DwarfFde_def AdjustPcFromFde_def pc_bias_def first_def signed_def start add_ac split: section_impl.split)
  then show ?thesis using h by (simp add: parses_def bs_def first_def signed_def Let_def)
qed

text \<open>An FDE of \<open>.eh_frame\<close> at offset 0x20 for a function at 0x100 with 0x10 bytes: the value of the field at 0x28 is 0x100 - 0x28. The code takes the
  function to start at 0x104.\<close>

definition sample_eh_section :: dwarf_section where
  "sample_eh_section = (new_DwarfEhFrame (MemoryBuffer (replicate 32 0 @ [0x0d, 0, 0, 0, 0x24, 0, 0, 0, 0xd8, 0, 0, 0, 0x10, 0, 0, 0, 0])))
     \<lparr>ds_cie_entries := [0 \<mapsto> cie_of 20 17 sample_cie_source]\<rparr>"

lemma FillInFde_value_witness:
  "\<exists>f s'. FillInFde TYPE(64) (cursor_at sample_eh_section 0x20) = (Ret f, s') \<and> pc_start f = 0x104 \<and> pc_end f = 0x114"
proof -
  let ?bs = "[0x0d, 0, 0, 0, 0x24, 0, 0, 0, 0xd8, 0, 0, 0, 0x10, 0, 0, 0, 0] :: u8 list"
  let ?cie = "cie_of 20 17 sample_cie_source"
  have e: "fde_bytes 13 0x24 [0xd8, 0, 0, 0] [0x10, 0, 0, 0] (Some []) = ?bs"
    by (simp add: fde_bytes_def le_bytes_4 uleb_encode.simps)
  have s: "dm_memory (ds_memory sample_eh_section) = MemoryBuffer (replicate 32 0 @ ?bs @ [])" "\<exists>e. ds_impl sample_eh_section = EhFrame e"
      "ds_cie_entries sample_eh_section 0 = Some ?cie"
    by (simp_all add: sample_eh_section_def new_DwarfEhFrame_def new_DwarfSection_def new_DwarfMemory_def)
  have c: "fde_address_encoding ?cie = 0x1b" "segment_size ?cie = 0" "lsda_encoding ?cie = DW_EH_PE_omit" "has_augmentation ?cie"
    by (simp_all add: cie_of_def sample_cie_source_def has_augmentation_def aug_string_def)
  obtain e' where e': "ds_impl sample_eh_section = EhFrame e'" using s(2) by blast
  have off: "GetCieOffsetFromFde32 0x24 (cursor_at sample_eh_section (0x20 + 8)) = 0" by (simp add: GetCieOffsetFromFde32_def e')
  have h: "mem_holds (dm_memory (ds_memory sample_eh_section)) 0x20 ?bs"
    unfolding s(1) using mem_holds_MemoryBuffer [of "replicate 32 0" ?bs "[]"] by simp
  show ?thesis
    using FillInFde_value [of 13 sample_eh_section "0x24" "0x20" 0 ?cie "TYPE(64)" 4 "[0xd8, 0, 0, 0]" "[0x10, 0, 0, 0]" "Some []"]
      off s(3) c h
    unfolding e by (simp add: e' IsCie32_def GetEncodedSize_def pc_bias_def encoded_signed_def le_int_def Let_def)
qed

end
