(* ===== verification/Dwarf_Log.thy ===== *)
theory Dwarf_Log
  imports DwarfSection DwarfCfa_Safety Log_Format
begin

text \<open>
  The functions that print DWARF data: \<open>GetLogInfo\<close> of \<open>DwarfOp\<close>, \<open>Log\<close> of \<open>DwarfCfa\<close> with its helpers and \<open>Log\<close> of
  \<open>DwarfSectionImpl\<close>. The lines that \<open>log\<close> writes are kept with their indentation behind the cursor; \<open>log_line\<close> is
  the text of such a line.
\<close>

section \<open>Expressions\<close>

definition at_cursor :: "(dwarf_memory, u64) op" where
  "at_cursor dm = (Ret (cur_offset dm), dm)"

definition move_cursor :: "u64 \<Rightarrow> (dwarf_memory, unit) op" where
  "move_cursor off = modify (set_cur_offset off)"

text \<open>The loops that read single bytes and print them.\<close>

fun raw_bytes :: "nat \<Rightarrow> (dwarf_memory, string) op" where
  "raw_bytes 0 = rret []"
| "raw_bytes (Suc n) = rbind (dm_ReadBytes 1) (\<lambda>bs. rbind (raw_bytes n) (\<lambda>str. rret ('' 0x'' @ hex02 (hd bs) @ str)))"

fun log_operands :: "'a::len itself \<Rightarrow> u8 list \<Rightarrow> nat \<Rightarrow> (dwarf_memory, string) op" where
  "log_operands T encs 0 = rret []"
| "log_operands T [] (Suc n) = rundef"
| "log_operands T (e # encs) (Suc n) =
     rbind (dm_ReadEncodedValue T e) (\<lambda>v. rbind (log_operands T encs n) (\<lambda>str. rret ('' '' @ dec (unat v) @ str)))"

text \<open>One pass of the loop of \<open>GetLogInfo\<close>: the two lines for an operation.\<close>

definition log_op :: "'a::len itself \<Rightarrow> (dwarf_memory, string \<times> string) op" where
  "log_op T =
     rbind (dm_ReadBytes 1) (\<lambda>bs.
     let op = kCallbackTable ! unat (hd bs); raw = ''Raw Data: 0x'' @ hex02 (hd bs) in
     case handle_func op of
       None \<Rightarrow> rret (''Illegal'', raw)
     | Some _ \<Rightarrow>
         (case op_name op of
            None \<Rightarrow> rundef
          | Some name \<Rightarrow>
              rbind at_cursor (\<lambda>start_offset.
              rbind (log_operands T (operand_encodings op) (unat (num_operands op))) (\<lambda>str.
              rbind at_cursor (\<lambda>end_offset.
              rbind (move_cursor start_offset) (\<lambda>_.
              rbind (raw_bytes (unat end_offset - unat start_offset)) (\<lambda>bytes.
              rbind (move_cursor end_offset) (\<lambda>_.
              rret (name @ str, raw @ bytes)))))))))"

partial_function (option) GetLogInfo_loop :: "'a::len itself \<Rightarrow> u64 \<Rightarrow> string list \<Rightarrow> dwarf_memory \<Rightarrow> (string list res \<times> dwarf_memory) option" where
  "GetLogInfo_loop T fin lines dm =
     (if cur_offset dm < fin then
        (case log_op T dm of
           (Ret (text, raw), dm') \<Rightarrow> GetLogInfo_loop T fin (lines @ [text, raw]) dm'
         | (Fail, dm') \<Rightarrow> Some (Ret lines, dm')
         | (Abort, dm') \<Rightarrow> Some (Abort, dm')
         | (Undef, dm') \<Rightarrow> Some (Undef, dm'))
      else Some (Ret lines, dm))"

definition GetLogInfo :: "'a::len itself \<Rightarrow> u64 \<Rightarrow> u64 \<Rightarrow> (dwarf_memory, string list) dop" where
  "GetLogInfo T start fin dm = GetLogInfo_loop T fin [] (set_cur_offset start dm)"

section \<open>Call frame instructions\<close>

type_synonym log_state = "dwarf_memory \<times> (u8 \<times> string) list"

definition on_log_memory :: "(dwarf_memory, 'b) op \<Rightarrow> (log_state, 'b) op" where
  "on_log_memory = on_part fst (\<lambda>dm p. (dm, snd p))"

text \<open>\<open>log\<close> takes the indentation as an 8-bit number.\<close>

definition log_msg :: "u32 \<Rightarrow> string \<Rightarrow> (log_state, unit) op" where
  "log_msg indent msg = modify (\<lambda>(dm, lines). (dm, lines @ [(ucast indent, msg)]))"

text \<open>The text of an operand, and the new value of \<open>*cur_pc\<close>.\<close>

definition GetOperandString :: "'a::len itself \<Rightarrow> DisplayType \<Rightarrow> u64 \<Rightarrow> u64 \<Rightarrow> string \<times> u64" where
  "GetOperandString T operand value cpc =
     (let number = '' '' @ dec (unat value);
          address = '' 0x'' @ hex_digits (if sizeof T = 4 then unat (ucast value :: u32) else unat value) in
      case operand of
        DWARF_DISPLAY_REGISTER \<Rightarrow> ('' register('' @ dec (unat value) @ '')'', cpc)
      | DWARF_DISPLAY_SIGNED_NUMBER \<Rightarrow> ('' '' @ dec_int (sint (ucast value :: 'a word)), cpc)
      | DWARF_DISPLAY_ADVANCE_LOC \<Rightarrow> (number, cpc + value)
      | DWARF_DISPLAY_NUMBER \<Rightarrow> (number, cpc)
      | DWARF_DISPLAY_SET_LOC \<Rightarrow> (address, value)
      | DWARF_DISPLAY_ADDRESS \<Rightarrow> (address, cpc)
      | DWARF_DISPLAY_NONE \<Rightarrow> ('' unknown'', cpc)
      | DWARF_DISPLAY_EVAL_BLOCK \<Rightarrow> ('' unknown'', cpc))"

definition LogOffsetRegisterString :: "u32 \<Rightarrow> u64 \<Rightarrow> u8 \<Rightarrow> (log_state, unit) op" where
  "LogOffsetRegisterString indent coff reg =
     rbind (on_log_memory dm_ReadULEB128) (\<lambda>offset.
     rbind (on_log_memory at_cursor) (\<lambda>end_offset.
     rbind (on_log_memory (move_cursor coff)) (\<lambda>_.
     rbind (on_log_memory (raw_bytes (unat end_offset - unat coff))) (\<lambda>bytes.
     rbind (log_msg indent (''DW_CFA_offset register('' @ dec (unat reg) @ '') '' @ dec_int (sint offset))) (\<lambda>_.
     log_msg indent (''Raw Data:'' @ bytes))))))"

text \<open>The operands of an instruction: their text, the lines of the expressions and the new \<open>*cur_pc\<close>.\<close>

fun log_cfa_operands ::
  "'a::len itself \<Rightarrow> u8 list \<Rightarrow> DisplayType list \<Rightarrow> nat \<Rightarrow> u64 \<Rightarrow> (dwarf_memory, string \<times> string list \<times> u64) dop" where
  "log_cfa_operands T (e # encs) (d # disp) (Suc n) cpc =
     dbind (if e = DW_EH_PE_block then
              dbind (total dm_ReadULEB128) (\<lambda>len.
              dbind (total at_cursor) (\<lambda>cur.
              dbind (GetLogInfo T cur (len + cur)) (\<lambda>lines.
              dbind (total (move_cursor (len + cur))) (\<lambda>_.
              total (rret ('' '' @ dec (unat len), lines, cpc))))))
            else
              dbind (total (dm_ReadEncodedValue T e)) (\<lambda>v.
              let (text, pc) = GetOperandString T d v cpc in total (rret (text, [], pc))))
       (\<lambda>(text, lines, pc).
     dbind (log_cfa_operands T encs disp n pc) (\<lambda>(text', lines', pc').
     total (rret (text @ text', lines @ lines', pc'))))"
| "log_cfa_operands T encs disp 0 cpc = total (rret ([], [], cpc))"
| "log_cfa_operands T encs disp (Suc n) cpc = total rundef"

text \<open>The raw bytes, ten in a line; the result is the line that is not yet written.\<close>

fun log_raw :: "u32 \<Rightarrow> nat \<Rightarrow> nat \<Rightarrow> string \<Rightarrow> (log_state, string) op" where
  "log_raw indent i 0 raw_data = rret raw_data"
| "log_raw indent i (Suc n) raw_data =
     rbind (on_log_memory (dm_ReadBytes 1)) (\<lambda>bs.
     rbind (if i mod 10 = 0 \<and> i \<noteq> 0 then rbind (log_msg indent raw_data) (\<lambda>_. rret []) else rret raw_data) (\<lambda>raw_data.
     log_raw indent (i + 1) n ((if raw_data = [] then ''Raw Data:'' else raw_data) @ '' 0x'' @ hex02 (hd bs))))"

fun log_all :: "u32 \<Rightarrow> string list \<Rightarrow> (log_state, unit) op" where
  "log_all indent [] = rret ()"
| "log_all indent (l # ls) = rbind (log_msg indent l) (\<lambda>_. log_all indent ls)"

definition LogInstruction :: "'a::len itself \<Rightarrow> u32 \<Rightarrow> u64 \<Rightarrow> u8 \<Rightarrow> u64 \<Rightarrow> (log_state, u64) dop" where
  "LogInstruction T indent coff op cpc =
     (let cfa = kTable ! unat op in
      case cfa_name cfa of
        None \<Rightarrow>
          total (rbind (log_msg indent ''Illegal'') (\<lambda>_. rbind (log_msg indent (''Raw Data: 0x'' @ hex02 op)) (\<lambda>_. rret cpc)))
      | Some name \<Rightarrow>
          dbind (on_dpart fst (\<lambda>dm p. (dm, snd p))
              (log_cfa_operands T (cfa_operand_encodings cfa) (display_operands cfa) (unat (cfa_num_operands cfa)) cpc))
            (\<lambda>(text, expression_lines, cpc). total (
          rbind (log_msg indent (name @ text)) (\<lambda>_.
          rbind (on_log_memory at_cursor) (\<lambda>end_offset.
          rbind (on_log_memory (move_cursor coff)) (\<lambda>_.
          rbind (log_raw indent 0 (unat (end_offset - coff)) ''Raw Data:'') (\<lambda>raw_data.
          rbind (if raw_data \<noteq> [] then log_msg indent raw_data else rret ()) (\<lambda>_.
          rbind (log_all (indent + 1) expression_lines) (\<lambda>_. rret cpc)))))))))"

text \<open>The \<open>switch\<close> in the loop of \<open>Log\<close>; the result is the new \<open>cur_pc\<close>. Then the loop prints a changed \<open>cur_pc\<close>.\<close>

definition log_dispatch :: "'a::len itself \<Rightarrow> u32 \<Rightarrow> dwarf_fde \<Rightarrow> u64 \<Rightarrow> u64 \<Rightarrow> u8 \<Rightarrow> (log_state, u64) dop" where
  "log_dispatch T indent f cpc coff cfa_value =
     (let cfa_low = cfa_value AND 0x3f; high = drop_bit 6 cfa_value; raw = ''Raw Data: 0x'' @ hex02 cfa_value in
      if high = 0 then LogInstruction T indent coff cfa_low cpc
      else if high = 1 then
        total (rbind (log_msg indent (''DW_CFA_advance_loc '' @ dec (unat cfa_low))) (\<lambda>_.
          rbind (log_msg indent raw) (\<lambda>_.
          case fde_cie f of None \<Rightarrow> rundef | Some cie \<Rightarrow> rret (cpc + ucast cfa_low * code_alignment_factor cie))))
      else if high = 2 then
        total (rbind (LogOffsetRegisterString indent coff cfa_low) (\<lambda>_. rret cpc))
      else
        total (rbind (log_msg indent (''DW_CFA_restore register('' @ dec (unat cfa_low) @ '')'')) (\<lambda>_.
          rbind (log_msg indent raw) (\<lambda>_. rret cpc))))"

definition log_new_pc :: "u32 \<Rightarrow> u64 \<Rightarrow> u64 \<Rightarrow> u64 \<Rightarrow> (log_state, u64) op" where
  "log_new_pc indent load_bias old_pc cpc =
     (if cpc \<noteq> old_pc then
        rbind (log_msg indent []) (\<lambda>_.
        rbind (log_msg indent (''PC 0x'' @ hex_digits (unat (cpc + load_bias)))) (\<lambda>_. rret cpc))
      else rret cpc)"

definition log_step :: "'a::len itself \<Rightarrow> u32 \<Rightarrow> u64 \<Rightarrow> dwarf_fde \<Rightarrow> u64 \<Rightarrow> (log_state, u64) dop" where
  "log_step T indent load_bias f old_pc =
     dbind (total (on_log_memory at_cursor)) (\<lambda>coff.
     dbind (total (on_log_memory (dm_ReadBytes 1))) (\<lambda>bs.
     dbind (log_dispatch T indent f old_pc coff (hd bs)) (\<lambda>cpc.
     total (log_new_pc indent load_bias old_pc cpc))))"

partial_function (option) DwarfCfa_Log_loop ::
  "'a::len itself \<Rightarrow> u32 \<Rightarrow> u64 \<Rightarrow> u64 \<Rightarrow> u64 \<Rightarrow> dwarf_fde \<Rightarrow> u64 \<Rightarrow> log_state \<Rightarrow> (unit res \<times> log_state) option" where
  "DwarfCfa_Log_loop T indent pc load_bias end_offset f cpc st =
     (if cur_offset (fst st) < end_offset \<and> cpc \<le> pc then
        (case log_step T indent load_bias f cpc st of
           None \<Rightarrow> None
         | Some (Ret cpc, st) \<Rightarrow> DwarfCfa_Log_loop T indent pc load_bias end_offset f cpc st
         | Some (Fail, st) \<Rightarrow> Some (Fail, st)
         | Some (Abort, st) \<Rightarrow> Some (Abort, st)
         | Some (Undef, st) \<Rightarrow> Some (Undef, st))
      else Some (Ret (), st))"

definition DwarfCfa_Log :: "'a::len itself \<Rightarrow> u32 \<Rightarrow> u64 \<Rightarrow> u64 \<Rightarrow> u64 \<Rightarrow> u64 \<Rightarrow> dwarf_fde \<Rightarrow> (log_state, unit) dop" where
  "DwarfCfa_Log T indent pc load_bias start_offset end_offset f =
     dbind (total (on_log_memory (move_cursor start_offset))) (\<lambda>_.
     DwarfCfa_Log_loop T indent pc load_bias end_offset f (pc_start f))"

text \<open>\<open>Log\<close> of the section: the instructions of the CIE, then those of the FDE. When one of them fails, \<open>last_error_\<close> is read from the
  \<open>DwarfCfa\<close> object, where \<open>Log\<close> has not set it: the value is indeterminate, and the copy undefined.\<close>

definition DwarfSection_Log :: "'a::len itself \<Rightarrow> u8 \<Rightarrow> u64 \<Rightarrow> u64 \<Rightarrow> dwarf_fde \<Rightarrow> (dwarf_section \<times> (u8 \<times> string) list, unit) dop" where
  "DwarfSection_Log T indent pc load_bias f =
     (case fde_cie f of
        None \<Rightarrow> total rundef
      | Some cie \<Rightarrow>
          on_dpart (\<lambda>p. (ds_memory (fst p), snd p)) (\<lambda>(dm, lines) p. ((fst p)\<lparr>ds_memory := dm\<rparr>, lines))
            (\<lambda>st. map_option (\<lambda>(r, st). (case r of Fail \<Rightarrow> Undef | _ \<Rightarrow> r, st))
              (dbind (DwarfCfa_Log T (ucast indent) pc load_bias (cie_cfa_instructions_offset cie) (cie_cfa_instructions_end cie) f) (\<lambda>_.
               DwarfCfa_Log T (ucast indent) pc load_bias (fde_cfa_instructions_offset f) (fde_cfa_instructions_end f) f) st)))"

section \<open>The log and the interpreter read the same instructions\<close>

lemma ReadBytes_cursor: "dm_ReadBytes n dm = (Ret bs, dm') \<Longrightarrow> dm' = dm\<lparr>cur_offset := cur_offset dm + of_nat n\<rparr>"
  by (auto simp: dm_ReadBytes_def split: res.splits)

lemma raw_bytes_cursor: "raw_bytes n dm = (Ret str, dm') \<Longrightarrow> dm' = dm\<lparr>cur_offset := cur_offset dm + of_nat n\<rparr>"
proof (induction n arbitrary: dm str dm')
  case (Suc n)
  then obtain bs dm1 str' where "dm_ReadBytes 1 dm = (Ret bs, dm1)" "raw_bytes n dm1 = (Ret str', dm')"
    by (auto simp: rbind_eq_Ret rret_def)
  from ReadBytes_cursor [OF this(1)] Suc.IH [OF this(2)] show ?case by (simp add: add.assoc)
qed (simp add: rret_def)

lemma keeps_move_cursor [keeps_rules]: "moves_cursor (move_cursor off)" "moves_cursor at_cursor"
  by (simp_all add: keeps_def move_cursor_def modify_def set_cur_offset_def at_cursor_def)

lemma keeps_raw_bytes [keeps_rules]: "moves_cursor (raw_bytes n)"
  by (induction n) (auto intro!: keeps_rules)

lemma keeps_log_operands [keeps_rules]: "moves_cursor (log_operands T encs n)"
  by (induction T encs n rule: log_operands.induct) (auto intro!: keeps_rules)

lemma keeps_log_op [keeps_rules]: "moves_cursor (log_op T)"
  unfolding log_op_def Let_def by (auto split: option.split intro!: keeps_rules)

lemma GetLogInfo_loop_env:
  assumes "GetLogInfo_loop T fin lines dm = Some p"
  shows "dm_env (snd p) = dm_env dm"
proof (rule GetLogInfo_loop.raw_induct [OF _ assms])
  fix f and U :: "'a itself" and fin lines dm p
  assume IH: "\<And>U fin lines dm p. f U fin lines dm = Some p \<Longrightarrow> dm_env (snd p) = dm_env dm"
    and e: "(if cur_offset dm < fin then
        (case log_op U dm of
           (Ret (text, raw), dm') \<Rightarrow> f U fin (lines @ [text, raw]) dm'
         | (Fail, dm') \<Rightarrow> Some (Ret lines, dm')
         | (Abort, dm') \<Rightarrow> Some (Abort, dm')
         | (Undef, dm') \<Rightarrow> Some (Undef, dm'))
      else Some (Ret lines, dm)) = Some p"
  obtain q dm1 where q: "log_op U dm = (q, dm1)" by fastforce
  show "dm_env (snd p) = dm_env dm"
    using e q keepsD [OF keeps_log_op q] by (auto split: if_splits res.splits dest!: IH)
qed

lemma GetLogInfo_env: "GetLogInfo T start fin dm = Some (r, dm') \<Longrightarrow> dm_env dm' = dm_env dm"
  by (auto simp: GetLogInfo_def set_cur_offset_def dest!: GetLogInfo_loop_env)

text \<open>An operand that is printed is read as the interpreter reads it; a block is skipped.\<close>

lemma log_block_cursor:
  assumes "GetLogInfo T (cur_offset dm) fin dm = Some (Ret lines, dm1)"
  shows "snd (move_cursor fin dm1) = set_cur_offset fin dm"
  using GetLogInfo_env [OF assms] by (intro dm_env_eqI) (simp_all add: move_cursor_def modify_def set_cur_offset_def)

lemma log_cfa_operands_read:
  assumes "log_cfa_operands T encs disp n pc dm = Some (Ret x, dm')"
  shows "\<exists>vs. cfa_read_operands T encs n dm = (Ret vs, dm')"
  using assms
proof (induction T encs disp n pc arbitrary: dm x dm' rule: log_cfa_operands.induct)
  case (1 T e encs d disp n pc)
  show ?case
  proof (cases "e = DW_EH_PE_block")
    case True
    with "1.prems" obtain len dm1 lines dm2 x' where r: "dm_ReadULEB128 dm = (Ret len, dm1)"
      "GetLogInfo T (cur_offset dm1) (len + cur_offset dm1) dm1 = Some (Ret lines, dm2)"
      "log_cfa_operands T encs disp n pc (snd (move_cursor (len + cur_offset dm1) dm2)) = Some (Ret x', dm')"
      by (auto simp: dbind_eq_Ret total_def at_cursor_def move_cursor_def modify_def rret_def simp del: dbind_total)
    then obtain vs where "cfa_read_operands T encs n (set_cur_offset (cur_offset dm1 + len) dm1) = (Ret vs, dm')"
      using "1.IH" log_block_cursor [OF r(2)] by (metis add.commute)
    with r(1) True show ?thesis by (simp add: rbind_eq_Ret modify_def rret_def)
  next
    case False
    with "1.prems" obtain v dm1 pc' x' where r: "dm_ReadEncodedValue T e dm = (Ret v, dm1)"
      "log_cfa_operands T encs disp n pc' dm1 = Some (Ret x', dm')"
      by (auto simp: dbind_eq_Ret total_def rret_def Let_def case_prod_beta simp del: dbind_total)
    then obtain vs where "cfa_read_operands T encs n dm1 = (Ret vs, dm')" using "1.IH" by blast
    with r(1) False show ?thesis by (simp add: rbind_eq_Ret rret_def)
  qed
qed (simp_all add: total_def rret_def rundef_def)

lemma on_log_memory_eq_Ret: "on_log_memory m st = (Ret v, st') \<longleftrightarrow> m (fst st) = (Ret v, fst st') \<and> snd st' = snd st"
  by (cases st') (auto simp: on_log_memory_def on_part_def split: prod.splits)

lemma log_msg_run: "log_msg indent msg st = (Ret (), fst st, snd st @ [(ucast indent, msg)])"
  by (simp add: log_msg_def modify_def split: prod.splits)

lemma log_all_memory: "log_all indent ls st = (Ret (), st') \<Longrightarrow> fst st' = fst st"
  by (induction ls arbitrary: st) (auto simp: log_msg_run rbind_eq_Ret rret_def)

lemma log_raw_cursor:
  "log_raw indent i n raw st = (Ret r, st') \<Longrightarrow> fst st' = (fst st)\<lparr>cur_offset := cur_offset (fst st) + of_nat n\<rparr>"
proof (induction n arbitrary: i raw st)
  case (Suc n)
  then obtain bs st1 st2 i' raw' where "dm_ReadBytes 1 (fst st) = (Ret bs, fst st1)" "fst st2 = fst st1"
    "log_raw indent i' n raw' st2 = (Ret r, st')"
    by (auto simp: rbind_eq_Ret on_log_memory_eq_Ret log_msg_run rret_def split: if_splits)
  from ReadBytes_cursor [OF this(1)] this(2) Suc.IH [OF this(3)] show ?case by (simp add: add.assoc)
qed (simp add: rret_def)

lemma LogInstruction_reads:
  assumes "LogInstruction T indent coff op pc st = Some (Ret pc', st')" and "cfa_name (kTable ! unat op) = Some name"
  shows "\<exists>vs. cfa_row_operands T op (fst st) = (Ret vs, fst st')"
proof -
  obtain x dm1 st1 st2 raw where r:
    "log_cfa_operands T (cfa_operand_encodings (kTable ! unat op)) (display_operands (kTable ! unat op))
       (unat (cfa_num_operands (kTable ! unat op))) pc (fst st) = Some (Ret x, dm1)"
    "fst st1 = dm1\<lparr>cur_offset := coff\<rparr>" "log_raw indent 0 (unat (cur_offset dm1 - coff)) ''Raw Data:'' st1 = (Ret raw, st2)"
    "fst st' = fst st2"
    using assms(1,2)
    by (auto simp: LogInstruction_def Let_def dbind_eq_Ret total_def on_dpart_def rbind_eq_Ret on_log_memory_eq_Ret log_msg_run
        at_cursor_def move_cursor_def modify_def rret_def set_cur_offset_def simp del: dbind_total dest!: log_all_memory split: if_splits)
  have "fst st' = dm1" using log_raw_cursor [OF r(3)] r(2,4) by simp
  then show ?thesis using log_cfa_operands_read [OF r(1)] by simp
qed

lemma keeps_cfa_memory_primitives [keeps_rules]:
  "keeps cfa_memory (cfa_operand i)" "keeps cfa_memory (set_loc r l)" "keeps cfa_memory (erase_loc r)" "keeps cfa_memory (change_cfa f)"
  "keeps cfa_memory fde_to_cie" "keeps cfa_memory cfa_cur_offset" "keeps cfa_memory (restore_reg r)"
  "keeps cfa_memory cfa_is_register" "keeps cfa_memory cfa_remember_state" "keeps cfa_memory cfa_restore_state"
  "keeps cfa_memory (modify (\<lambda>s. s\<lparr>cur_pc := g s\<rparr>))"
  by (simp_all add: keeps_def cfa_operand_def set_loc_def erase_loc_def change_cfa_cases fde_to_cie_def
      cfa_cur_offset_def cfa_fail_def modify_def restore_reg_def cfa_is_register_def cfa_remember_state_def
      cfa_restore_state_def split: option.split list.split)

lemma keeps_factored [keeps_rules]: "keeps cfa_memory (factored v)" "keeps cfa_memory (advance_pc n)"
  unfolding factored_def advance_pc_def Let_def by (intro keeps_rules)+

lemma keeps_run_cfa_handler [keeps_rules]: "keeps cfa_memory (run_cfa_handler h)"
  by (cases h) (auto simp: cfa_handler_bodies intro!: keeps_rules)

lemma cfa_rows_named:
  assumes "cfa_kCallbackTable ! unat (b AND 0x3f :: u8) = Some h"
  obtains name where "cfa_name (kTable ! unat (b AND 0x3f)) = Some name"
proof -
  have "list_all (\<lambda>i. cfa_kCallbackTable ! i = None \<or> cfa_name (kTable ! i) \<noteq> None) [0..<64]" by code_simp
  moreover have "unat (b AND 0x3f) \<in> set [0..<64]" using and_3f_less [of b] by (simp add: word_less_nat_alt)
  ultimately show ?thesis using assms that by (auto simp only: list_all_iff)
qed

lemma on_cfa_memory_eq_Ret:
  "on_cfa_memory m s = (Ret v, s') \<longleftrightarrow> (\<exists>dm. m (cfa_memory s) = (Ret v, dm) \<and> s' = s\<lparr>cfa_memory := dm\<rparr>)"
  by (auto simp: on_cfa_memory_def on_fail_eq_Ret on_part_def split: prod.splits)

lemma LogOffsetRegisterString_reads:
  assumes "LogOffsetRegisterString indent coff reg st = (Ret (), st')" and "dm_ReadULEB128 (fst st) = (Ret v, dm)"
    and "coff \<le> cur_offset dm"
  shows "fst st' = dm"
proof -
  from assms(1,2) obtain st1 st2 str where r: "fst st1 = dm\<lparr>cur_offset := coff\<rparr>"
    "raw_bytes (unat (cur_offset dm) - unat coff) (fst st1) = (Ret str, fst st2)" "fst st' = fst st2"
    by (auto simp: LogOffsetRegisterString_def rbind_eq_Ret on_log_memory_eq_Ret log_msg_run at_cursor_def move_cursor_def
        modify_def set_cur_offset_def)
  have "unat (cur_offset dm) - unat coff = unat (cur_offset dm - coff)" using assms(3) by (simp add: unat_sub)
  then show ?thesis using raw_bytes_cursor [OF r(2)] r(1,3) by simp
qed

text \<open>What the interpreter reads in a step.\<close>

lemma cfa_step_reads:
  fixes s :: "'a::len dwarf_cfa"
  assumes "cfa_step s = (Ret (), s')"
  obtains bs dm1 where "dm_ReadBytes 1 (cfa_memory s) = (Ret bs, dm1)"
    and "drop_bit 6 (hd bs) = 1 \<or> drop_bit 6 (hd bs) = 3 \<Longrightarrow> cfa_memory s' = dm1"
    and "drop_bit 6 (hd bs) = 2 \<Longrightarrow> \<exists>v. dm_ReadULEB128 dm1 = (Ret v, cfa_memory s')"
    and "\<lbrakk>drop_bit 6 (hd bs) \<noteq> 1; drop_bit 6 (hd bs) \<noteq> 2; drop_bit 6 (hd bs) \<noteq> 3\<rbrakk> \<Longrightarrow>
      (\<exists>h. cfa_kCallbackTable ! unat (hd bs AND 0x3f) = Some h) \<and>
      (\<exists>vs. cfa_row_operands TYPE('a) (hd bs AND 0x3f) dm1 = (Ret vs, cfa_memory s'))"
proof -
  from assms obtain bs dm1 where r: "dm_ReadBytes 1 (cfa_memory s) = (Ret bs, dm1)"
    and d: "cfa_dispatch bs (s\<lparr>cfa_operands := [], cfa_memory := dm1\<rparr>) = (Ret (), s')"
    by (auto simp: cfa_step_def rbind_eq_Ret on_cfa_memory_eq_Ret)
  show ?thesis
  proof (rule that [OF r])
    show "cfa_memory s' = dm1" if "drop_bit 6 (hd bs) = 1 \<or> drop_bit 6 (hd bs) = 3"
      using d that keepsD [OF keeps_factored(2)] keepsD [OF keeps_cfa_memory_primitives(7)]
      by (fastforce simp: cfa_dispatch_def Let_def)
    show "\<exists>v. dm_ReadULEB128 dm1 = (Ret v, cfa_memory s')" if "drop_bit 6 (hd bs) = 2"
      using d that
      by (auto simp: cfa_dispatch_def Let_def rbind_eq_Ret on_cfa_memory_eq_Ret set_loc_def dest!: keepsD [OF keeps_factored(1)])
    show "(\<exists>h. cfa_kCallbackTable ! unat (hd bs AND 0x3f) = Some h) \<and>
      (\<exists>vs. cfa_row_operands TYPE('a) (hd bs AND 0x3f) dm1 = (Ret vs, cfa_memory s'))"
      if "drop_bit 6 (hd bs) \<noteq> 1" "drop_bit 6 (hd bs) \<noteq> 2" "drop_bit 6 (hd bs) \<noteq> 3"
      using d that
      by (auto simp: cfa_dispatch_def Let_def rbind_eq_Ret on_cfa_memory_eq_Ret cfa_fail_def
          dest!: keepsD [OF keeps_run_cfa_handler] split: option.splits)
  qed
qed

lemma log_step_reads:
  assumes "log_step T indent bias f pc st = Some (Ret pc', st')" and "dm_ReadBytes 1 (fst st) = (Ret bs, dm1)"
  obtains st1 st2 where "fst st1 = dm1" and "fst st' = fst st2"
    and "drop_bit 6 (hd bs) = 0 \<Longrightarrow> LogInstruction T indent (cur_offset (fst st)) (hd bs AND 0x3f) pc st1 = Some (Ret pc', st2)"
    and "drop_bit 6 (hd bs) = 2 \<Longrightarrow> LogOffsetRegisterString indent (cur_offset (fst st)) (hd bs AND 0x3f) st1 = (Ret (), st2)"
    and "\<lbrakk>drop_bit 6 (hd bs) \<noteq> 0; drop_bit 6 (hd bs) \<noteq> 2\<rbrakk> \<Longrightarrow> fst st2 = dm1"
proof -
  obtain st1 where st1: "on_log_memory (dm_ReadBytes 1) st = (Ret bs, st1)" "fst st1 = dm1"
    using assms(2) by (intro that [of "(dm1, snd st)"]) (simp_all add: on_log_memory_eq_Ret)
  from assms(1) st1 obtain cpc st2 where i: "log_dispatch T indent f pc (cur_offset (fst st)) (hd bs) st1 = Some (Ret cpc, st2)"
    and j: "log_new_pc indent bias pc cpc st2 = (Ret pc', st')"
    by (auto simp: log_step_def dbind_eq_Ret total_def on_log_memory_def on_part_def at_cursor_def simp del: dbind_total)
  have "fst st' = fst st2" "cpc = pc'" using j by (auto simp: log_new_pc_def rbind_eq_Ret log_msg_run rret_def split: if_splits)
  with st1(2) show ?thesis
    using i by (intro that [of st1 st2])
      (auto simp: log_dispatch_def Let_def total_def rbind_eq_Ret log_msg_run rret_def rundef_def split: if_splits option.splits)
qed

lemma u8_high_bits: "drop_bit 6 (b :: u8) = 0 \<or> drop_bit 6 b = 1 \<or> drop_bit 6 b = 2 \<or> drop_bit 6 b = 3"
  by (simp add: u8_bits) auto



end
