(* ===== verification/Floor_Search.thy ===== *)
theory Floor_Search
  imports Unwind_Prelude
begin

text \<open>
  The binary searches for the last entry that does not lie above a key, over tables whose entries are read when they are
  needed and then cached. The locale has the equation of the loop and, for a provider, the law that probing an entry delivers it and
  leaves a state in which the table is still the same.
\<close>

text \<open>The specification: the index of the last key that is at most the given one.\<close>

definition floor_index :: "'k::linorder list \<Rightarrow> 'k \<Rightarrow> nat option" where
  "floor_index ks x = (case length (takeWhile (\<lambda>k. k \<le> x) ks) of 0 \<Rightarrow> None | Suc i \<Rightarrow> Some i)"

lemma takeWhile_split:
  assumes "m \<le> length ks" and "\<And>i. i < m \<Longrightarrow> P (ks ! i)" and "m < length ks \<Longrightarrow> \<not> P (ks ! m)"
  shows "length (takeWhile P ks) = m"
  using assms by (metis length_take min.absorb2 order_le_less takeWhile_eq_take_P_nth take_all_iff)

text \<open>On a sorted table every key before the index is smaller and every key behind it larger.\<close>

lemma floor_index_eq:
  assumes "sorted_wrt (<) ks" and "m \<le> length ks" and "\<And>i. i < m \<Longrightarrow> ks ! i \<le> x" and "m < length ks \<Longrightarrow> x < ks ! m"
  shows "floor_index ks x = (if m = 0 then None else Some (m - 1))"
  using takeWhile_split [of m ks "\<lambda>k. k \<le> x"] assms by (simp add: floor_index_def not_le split: nat.split)

locale floor_search =
  fixes probe :: "nat \<Rightarrow> ('s, 'e) op"
    and key :: "'e \<Rightarrow> 'k::linorder"
    and hit :: "nat \<Rightarrow> 'e \<Rightarrow> 'h"
    and search :: "'k \<Rightarrow> nat \<Rightarrow> nat \<Rightarrow> ('s, 'h + nat) op"
    and table :: "'e list \<Rightarrow> 's \<Rightarrow> bool"
  assumes search_step: "k < n \<Longrightarrow> search x k n =
      rbind (probe ((k + n) div 2)) (\<lambda>e.
      if x = key e then rret (Inl (hit ((k + n) div 2) e))
      else if x < key e then search x k ((k + n) div 2)
      else search x ((k + n) div 2 + 1) n)"
    and search_end: "\<not> k < n \<Longrightarrow> search x k n = rret (Inr n)"
    and probe_table: "table es s \<Longrightarrow> i < length es \<Longrightarrow> \<exists>s'. probe i s = (Ret (es ! i), s') \<and> table es s'"
begin

text \<open>The entry that is found, or the number of entries with smaller keys.\<close>

definition found :: "'e list \<Rightarrow> 'k \<Rightarrow> 'h + nat \<Rightarrow> bool" where
  "found es x r \<longleftrightarrow>
     (case r of
        Inl h \<Rightarrow> \<exists>i < length es. key (es ! i) = x \<and> h = hit i (es ! i)
      | Inr m \<Rightarrow> m \<le> length es \<and> (\<forall>i < m. key (es ! i) < x) \<and> (m < length es \<longrightarrow> x < key (es ! m)))"

lemma search_finds:
  assumes "table es s" and "sorted_wrt (<) (map key es)" and "k \<le> n" and "n \<le> length es"
    and "\<And>i. i < k \<Longrightarrow> key (es ! i) < x" and "n < length es \<Longrightarrow> x < key (es ! n)"
  shows "\<exists>r s'. search x k n s = (Ret r, s') \<and> found es x r \<and> table es s'"
  using assms
proof (induction "n - k" arbitrary: k n s rule: less_induct)
  case less
  show ?case
  proof (cases "k < n")
    case True
    let ?c = "(k + n) div 2"
    have c: "k \<le> ?c" "?c < n" "?c < length es" using True less.prems(4) by auto
    obtain s1 where s1: "probe ?c s = (Ret (es ! ?c), s1)" "table es s1" using probe_table [OF less.prems(1) c(3)] by blast
    have sorted: "key (es ! i) < key (es ! ?c)" if "i < ?c" for i
      using sorted_wrt_nth_less [OF less.prems(2) that] c(3) that by simp
    note step = search_step [OF True, of x] s1(1)
    consider "x = key (es ! ?c)" | "x < key (es ! ?c)" | "key (es ! ?c) < x" by (meson linorder_cases)
    then show ?thesis
    proof cases
      case 1
      then show ?thesis using step s1(2) c(3) by (auto simp: found_def rret_def)
    next
      case 2
      then show ?thesis using less.hyps [of ?c k s1] s1(2) less.prems c step by auto
    next
      case 3
      then have "key (es ! i) < x" if "i < ?c + 1" for i using sorted [of i] that by (cases "i = ?c") auto
      then show ?thesis using less.hyps [of n "?c + 1" s1] s1(2) less.prems c step 3 not_less_iff_gr_or_eq [of x "key (es ! ?c)"] by auto
    qed
  next
    case False
    then have "k = n" using less.prems(3) by simp
    then show ?thesis using search_end [OF False, of x] less.prems by (auto simp: found_def rret_def)
  qed
qed

text \<open>The result of the search as an index.\<close>

lemma search_floor:
  assumes "table es s" and "sorted_wrt (<) (map key es)"
  shows "\<exists>r s'. search x 0 (length es) s = (Ret r, s') \<and> table es s' \<and>
    (case r of
       Inl h \<Rightarrow> \<exists>i < length es. floor_index (map key es) x = Some i \<and> h = hit i (es ! i)
     | Inr m \<Rightarrow> m \<le> length es \<and> floor_index (map key es) x = (if m = 0 then None else Some (m - 1)))"
proof -
  obtain r s' where r: "search x 0 (length es) s = (Ret r, s')" "found es x r" "table es s'"
    using search_finds [OF assms, of 0 "length es" x] by auto
  have "floor_index (map key es) x = Some i" if "i < length es" "key (es ! i) = x" for i
  proof -
    have "key (es ! j) \<le> x" if "j < Suc i" for j
      using sorted_wrt_nth_less [OF assms(2), of j i] that \<open>i < length es\<close> \<open>key (es ! i) = x\<close> by (cases "j = i") auto
    moreover have "x < key (es ! Suc i)" if "Suc i < length es"
      using sorted_wrt_nth_less [OF assms(2), of i "Suc i"] that \<open>key (es ! i) = x\<close> by simp
    ultimately show ?thesis using floor_index_eq [OF assms(2), of "Suc i" x] that by simp
  qed
  moreover have "floor_index (map key es) x = (if m = 0 then None else Some (m - 1))"
    if "m \<le> length es" "\<forall>i < m. key (es ! i) < x" "m < length es \<longrightarrow> x < key (es ! m)" for m
    using floor_index_eq [OF assms(2), of m x] that by (auto simp: less_imp_le)
  ultimately show ?thesis using r by (cases r) (fastforce simp: found_def)+
qed

end

end
