(* ===== verification/Symbols.thy ===== *)
theory Symbols
  imports Memory Bisection "HOL-Library.Multiset"
begin

text \<open>
  The symbol table of an ELF file with its cache of function symbols (\<open>Symbols.h\<close>, \<open>Symbols.cpp\<close>). Entries are
  read from the file one by one until the address is found; the functions seen so far are kept, sorted by
  their start, and searched first by bisection. The order that \<open>std::sort\<close> gives to symbols with
  the same start is not specified: the sort is an argument. The offsets in the vector are unbounded here.
\<close>

section \<open>Data\<close>

record sym_info =
  start_offset :: u64
  end_offset :: u64
  str_offset :: u64

record symbols =
  sym_cur_offset :: u64
  sym_offset :: u64
  sym_end :: u64
  sym_entry_size :: u64
  sym_str_offset :: u64
  sym_str_end :: u64
  sym_cache :: "sym_info list"

definition new_Symbols :: "u64 \<Rightarrow> u64 \<Rightarrow> u64 \<Rightarrow> u64 \<Rightarrow> u64 \<Rightarrow> symbols" where
  "new_Symbols offset sz entry_size str_off str_size =
     \<lparr>sym_cur_offset = offset, sym_offset = offset, sym_end = offset + sz, sym_entry_size = entry_size,
      sym_str_offset = str_off, sym_str_end = str_off + str_size, sym_cache = []\<rparr>"

definition ClearCache :: "symbols \<Rightarrow> symbols" where
  "ClearCache s = s\<lparr>sym_cache := [], sym_cur_offset := sym_offset s\<rparr>"

text \<open>The symbols of \<open>elf.h\<close> in their two layouts.\<close>

record elf_sym =
  st_name :: u32
  st_info :: u8
  st_other :: u8
  st_shndx :: u16
  st_value :: u64
  st_size :: u64

datatype SymType = Elf32_Sym | Elf64_Sym

definition field_at :: "nat \<Rightarrow> nat \<Rightarrow> u8 list \<Rightarrow> 'a::len word" where
  "field_at off n bs = le_word (take n (drop off bs))"

primrec sizeof_sym :: "SymType \<Rightarrow> nat" where
  "sizeof_sym Elf32_Sym = 16"
| "sizeof_sym Elf64_Sym = 24"

primrec sym_of_bytes :: "SymType \<Rightarrow> u8 list \<Rightarrow> elf_sym" where
  "sym_of_bytes Elf32_Sym bs =
     \<lparr>st_name = field_at 0 4 bs, st_info = field_at 12 1 bs, st_other = field_at 13 1 bs, st_shndx = field_at 14 2 bs,
      st_value = field_at 4 4 bs, st_size = field_at 8 4 bs\<rparr>"
| "sym_of_bytes Elf64_Sym bs =
     \<lparr>st_name = field_at 0 4 bs, st_info = field_at 4 1 bs, st_other = field_at 5 1 bs, st_shndx = field_at 6 2 bs,
      st_value = field_at 8 8 bs, st_size = field_at 16 8 bs\<rparr>"

definition SHN_UNDEF :: u16 where "SHN_UNDEF = 0"
definition SHN_ABS :: u16 where "SHN_ABS = 0xfff1"
definition STT_FUNC :: u8 where "STT_FUNC = 2"

section \<open>Operations\<close>

function GetInfoFromCache_loop :: "sym_info list \<Rightarrow> u64 \<Rightarrow> nat \<Rightarrow> nat \<Rightarrow> sym_info option" where
  "GetInfoFromCache_loop xs addr k n =
     (if k < n then
        (let current = k + (n - k) div 2; info = xs ! current in
         if addr < start_offset info then GetInfoFromCache_loop xs addr k current
         else if addr < end_offset info then Some info
         else GetInfoFromCache_loop xs addr (current + 1) n)
      else None)"
  by pat_completeness auto
termination
  by (relation "measure (\<lambda>(xs, addr, k, n). n - k)") auto

declare GetInfoFromCache_loop.simps [simp del]

definition GetInfoFromCache :: "u64 \<Rightarrow> symbols \<Rightarrow> sym_info option" where
  "GetInfoFromCache addr s = GetInfoFromCache_loop (sym_cache s) addr 0 (length (sym_cache s))"

text \<open>The function symbols among the entries, and the interval of one.\<close>

definition is_function :: "elf_sym \<Rightarrow> bool" where
  "is_function entry \<longleftrightarrow> st_shndx entry \<noteq> SHN_UNDEF \<and> st_info entry AND 0xf = STT_FUNC"

definition info_of :: "u64 \<Rightarrow> u64 \<Rightarrow> elf_sym \<Rightarrow> sym_info" where
  "info_of load_bias str_off entry =
     (let start = st_value entry + (if st_shndx entry \<noteq> SHN_ABS then load_bias else 0) in
      \<lparr>start_offset = start, end_offset = start + st_size entry, str_offset = str_off + ucast (st_name entry)\<rparr>)"

text \<open>\<open>ReadString\<close> of the name, and the offset in the function.\<close>

definition read_name :: "memory \<Rightarrow> u64 \<Rightarrow> u64 \<Rightarrow> u64 \<Rightarrow> (u8 list \<times> u64) res" where
  "read_name m off max_read func_offset =
     (case mem_ReadString m off max_read of
        (Ret _, nm) \<Rightarrow> Ret (nm, func_offset)
      | (Fail, _) \<Rightarrow> Fail
      | (Abort, _) \<Rightarrow> Abort
      | (Undef, _) \<Rightarrow> Undef)"

text \<open>How the loop over the entries ends: a read failed (the caller returns at once), the last entry was
  reached, or the symbol was found.\<close>

datatype scan_end = ScanStop "(u8 list \<times> u64) res" | ScanEnd | ScanFound "(u8 list \<times> u64) res"

text \<open>One turn of the loop behind a successful read: the entry is cached when it is a function.\<close>

definition scan_entry :: "u64 \<Rightarrow> u64 \<Rightarrow> memory \<Rightarrow> elf_sym \<Rightarrow> bool \<times> symbols \<Rightarrow> (u8 list \<times> u64) res option \<times> bool \<times> symbols" where
  "scan_entry addr load_bias m entry as =
     (let s = (snd as)\<lparr>sym_cur_offset := sym_cur_offset (snd as) + sym_entry_size (snd as)\<rparr> in
      if is_function entry then
        (let info = info_of load_bias (sym_str_offset s) entry;
             s = s\<lparr>sym_cache := sym_cache s @ [info]\<rparr> in
         if start_offset info \<le> addr \<and> addr < end_offset info then
           (Some (if str_offset info < sym_str_end s
                  then read_name m (str_offset info) (sym_str_end s - str_offset info) (addr - start_offset info)
                  else Fail), True, s)
         else (None, True, s))
      else (None, fst as, s))"

partial_function (option) scan_symbols ::
  "SymType \<Rightarrow> u64 \<Rightarrow> u64 \<Rightarrow> memory \<Rightarrow> bool \<times> symbols \<Rightarrow> (scan_end \<times> bool \<times> symbols) option" where
  "scan_symbols T addr load_bias m as =
     (let s = snd as in
      if sym_cur_offset s + sym_entry_size s \<le> sym_end s then
        (case mem_Read m (sym_cur_offset s) (sizeof_sym T) of
           Ret bs \<Rightarrow>
             (case scan_entry addr load_bias m (sym_of_bytes T bs) as of
                (None, as') \<Rightarrow> scan_symbols T addr load_bias m as'
              | (Some r, as') \<Rightarrow> Some (ScanFound r, as'))
         | Fail \<Rightarrow> Some (ScanStop Fail, fst as, s\<lparr>sym_cur_offset := -1\<rparr>)
         | Abort \<Rightarrow> Some (ScanStop Abort, as)
         | Undef \<Rightarrow> Some (ScanStop Undef, as))
      else Some (ScanEnd, as))"

definition GetName ::
  "(sym_info list \<Rightarrow> sym_info list) \<Rightarrow> SymType \<Rightarrow> u64 \<Rightarrow> u64 \<Rightarrow> memory \<Rightarrow> symbols \<Rightarrow> ((u8 list \<times> u64) res \<times> symbols) option" where
  "GetName std_sort T addr0 load_bias m s =
     (let addr = addr0 + load_bias in
      case (if sym_cache s \<noteq> [] then GetInfoFromCache addr s else None) of
        Some info \<Rightarrow>
          Some (if addr \<ge> start_offset info \<and> addr \<le> end_offset info
                then read_name m (str_offset info) (sym_str_end s - str_offset info) (addr - start_offset info)
                else Abort, s)
      | None \<Rightarrow>
          (case scan_symbols T addr load_bias m (False, s) of
             None \<Rightarrow> None
           | Some (ScanStop r, added, s') \<Rightarrow> Some (r, s')
           | Some (ScanEnd, added, s') \<Rightarrow> Some (Fail, if added then s'\<lparr>sym_cache := std_sort (sym_cache s')\<rparr> else s')
           | Some (ScanFound r, added, s') \<Rightarrow> Some (r, if added then s'\<lparr>sym_cache := std_sort (sym_cache s')\<rparr> else s')))"

section \<open>The search\<close>

interpretation symbol_search: bisection start_offset end_offset "\<lambda>k n. k + (n - k) div 2" GetInfoFromCache_loop
proof
  fix k n :: nat and xs a
  note step = GetInfoFromCache_loop.simps [of xs a k n]
  show "k < n \<Longrightarrow> k \<le> k + (n - k) div 2 \<and> k + (n - k) div 2 < n" by linarith
  show "\<not> k < n \<Longrightarrow> GetInfoFromCache_loop xs a k n = None" by (subst step) simp
  show "k < n \<Longrightarrow> covers start_offset end_offset a (xs ! (k + (n - k) div 2)) \<Longrightarrow>
      GetInfoFromCache_loop xs a k n = Some (xs ! (k + (n - k) div 2))"
    by (subst step) (auto simp: covers_def Let_def dest: leD)
  show "k < n \<Longrightarrow> a < start_offset (xs ! (k + (n - k) div 2)) \<Longrightarrow>
      GetInfoFromCache_loop xs a k n = GetInfoFromCache_loop xs a k (k + (n - k) div 2)"
    by (subst step) (simp add: Let_def)
  show "k < n \<Longrightarrow> \<not> a < start_offset (xs ! (k + (n - k) div 2)) \<Longrightarrow> \<not> a < end_offset (xs ! (k + (n - k) div 2)) \<Longrightarrow>
      GetInfoFromCache_loop xs a k n = GetInfoFromCache_loop xs a (Suc (k + (n - k) div 2)) n"
    by (subst step) (simp add: Let_def)
qed

section \<open>Tables and caches\<close>

text \<open>What the standard promises of \<open>std::sort\<close> with the comparison of start offsets.\<close>

definition std_sort_ok :: "(sym_info list \<Rightarrow> sym_info list) \<Rightarrow> bool" where
  "std_sort_ok std_sort \<longleftrightarrow> (\<forall>xs. mset (std_sort xs) = mset xs \<and> sorted (map start_offset (std_sort xs)))"

text \<open>The entries of the table in the file, all of them readable.\<close>

definition sym_table :: "SymType \<Rightarrow> memory \<Rightarrow> elf_sym list \<Rightarrow> symbols \<Rightarrow> bool" where
  "sym_table T m syms s \<longleftrightarrow> 0 < sym_entry_size s \<and>
     unat (sym_offset s) + (length syms + 1) * unat (sym_entry_size s) < 2 ^ 64 \<and>
     sym_end s = sym_offset s + of_nat (length syms) * sym_entry_size s \<and>
     (\<forall>i < length syms. \<exists>bs. mem_Read m (sym_offset s + of_nat i * sym_entry_size s) (sizeof_sym T) = Ret bs \<and>
        sym_of_bytes T bs = syms ! i)"

definition infos :: "u64 \<Rightarrow> u64 \<Rightarrow> elf_sym list \<Rightarrow> sym_info list" where
  "infos load_bias str_off syms = map (info_of load_bias str_off) (filter is_function syms)"

text \<open>The invariant of the object: the cache holds the functions among the entries read so far, sorted.\<close>

definition sym_inv :: "SymType \<Rightarrow> memory \<Rightarrow> u64 \<Rightarrow> elf_sym list \<Rightarrow> symbols \<Rightarrow> bool" where
  "sym_inv T m load_bias syms s \<longleftrightarrow> sym_table T m syms s \<and> sorted (map start_offset (sym_cache s)) \<and>
     (\<exists>k \<le> length syms. sym_cur_offset s = sym_offset s + of_nat k * sym_entry_size s \<and>
        mset (sym_cache s) = mset (infos load_bias (sym_str_offset s) (take k syms)))"

text \<open>Functions that do not overlap, and whose names lie in the string table.\<close>

definition functions_ok :: "u64 \<Rightarrow> sym_info list \<Rightarrow> bool" where
  "functions_ok str_end xs \<longleftrightarrow> (\<forall>x \<in> set xs. start_offset x < end_offset x \<and> str_offset x < str_end \<and>
     (\<forall>y \<in> set xs. x = y \<or> end_offset x \<le> start_offset y \<or> end_offset y \<le> start_offset x))"

text \<open>The reference: a linear search in the whole table.\<close>

definition sym_lookup :: "memory \<Rightarrow> u64 \<Rightarrow> u64 \<Rightarrow> sym_info list \<Rightarrow> (u8 list \<times> u64) res" where
  "sym_lookup m str_end addr xs =
     (case find (covers start_offset end_offset addr) xs of
        None \<Rightarrow> Fail
      | Some i \<Rightarrow> read_name m (str_offset i) (str_end - str_offset i) (addr - start_offset i))"

lemma interval_table_sorted:
  assumes "functions_ok e xs" and "sorted (map start_offset xs)"
  shows "interval_table start_offset end_offset xs"
  unfolding interval_table_def
proof
  show "\<forall>x \<in> set xs. start_offset x \<le> end_offset x" using assms(1) by (auto simp: functions_ok_def)
  have "x = y \<or> end_offset x \<le> start_offset y" if "x \<in> set xs" "y \<in> set xs" "start_offset x \<le> start_offset y" for x y
  proof -
    have "start_offset y < end_offset y" and d: "x = y \<or> end_offset x \<le> start_offset y \<or> end_offset y \<le> start_offset x"
      using assms(1) that(1,2) by (auto simp: functions_ok_def)
    then have "\<not> end_offset y \<le> start_offset x" using that(3) by simp
    with d show ?thesis by blast
  qed
  with assms(2) show "sorted_wrt (\<lambda>x y. x = y \<or> end_offset x \<le> start_offset y) xs"
    unfolding sorted_map by (rule sorted_wrt_mono_rel [rotated]) blast
qed

lemma functions_ok_mset: "mset xs = mset ys \<Longrightarrow> functions_ok e xs = functions_ok e ys"
  by (drule mset_eq_setD) (simp add: functions_ok_def)

lemma functions_ok_subset: "functions_ok e ys \<Longrightarrow> set xs \<subseteq> set ys \<Longrightarrow> functions_ok e xs"
  unfolding functions_ok_def by blast

lemma infos_append: "infos lb o' (xs @ ys) = infos lb o' xs @ infos lb o' ys"
  by (simp add: infos_def)

lemma entry_position:
  assumes "sym_table T m syms s" and "i \<le> length syms + 1"
  shows "unat (sym_offset s + of_nat i * sym_entry_size s) = unat (sym_offset s) + i * unat (sym_entry_size s)"
proof -
  have "i * unat (sym_entry_size s) \<le> (length syms + 1) * unat (sym_entry_size s)" using assms(2) by (rule mult_right_mono) simp
  then have b: "unat (sym_offset s) + i * unat (sym_entry_size s) < 2 ^ 64" using assms(1) by (simp add: sym_table_def)
  have "sym_offset s + of_nat i * sym_entry_size s = of_nat (unat (sym_offset s) + i * unat (sym_entry_size s))" by simp
  then show ?thesis using b by (simp only: unat_of_nat) (simp add: mod_less)
qed

lemma more_entries_iff:
  assumes "sym_table T m syms s" and "sym_cur_offset s = sym_offset s + of_nat k * sym_entry_size s" and "k \<le> length syms"
  shows "sym_cur_offset s + sym_entry_size s \<le> sym_end s \<longleftrightarrow> k < length syms"
proof -
  have c: "sym_cur_offset s + sym_entry_size s = sym_offset s + of_nat (Suc k) * sym_entry_size s"
    using assms(2) by (simp add: algebra_simps)
  have "0 < unat (sym_entry_size s)" using assms(1) by (simp add: sym_table_def word_less_nat_alt)
  then have "unat (sym_entry_size s) + k * unat (sym_entry_size s) \<le> length syms * unat (sym_entry_size s) \<longleftrightarrow> k < length syms"
    using mult_le_cancel2 [of "Suc k" "unat (sym_entry_size s)" "length syms"] by (simp add: Suc_le_eq)
  then show ?thesis
    using entry_position [OF assms(1), of "Suc k"] entry_position [OF assms(1), of "length syms"] assms(1,3)
    unfolding c word_le_nat_alt by (simp add: sym_table_def)
qed

lemma sym_table_updates [simp]:
  "sym_table T m syms (s\<lparr>sym_cur_offset := c\<rparr>) = sym_table T m syms s"
  "sym_table T m syms (s\<lparr>sym_cache := xs\<rparr>) = sym_table T m syms s"
  by (simp_all add: sym_table_def)

text \<open>The loop reads on from the entry \<open>k\<close> until it finds the address.\<close>

lemma scan_symbols_table:
  assumes "sym_table T m syms s" and "k \<le> length syms" and "sym_cur_offset s = sym_offset s + of_nat k * sym_entry_size s"
    and "functions_ok (sym_str_end s) (infos lb (sym_str_offset s) syms)"
  shows "\<exists>j e b. k \<le> j \<and> j \<le> length syms \<and>
    scan_symbols T addr lb m (added, s) =
      Some (e, b, s\<lparr>sym_cur_offset := sym_offset s + of_nat j * sym_entry_size s,
        sym_cache := sym_cache s @ infos lb (sym_str_offset s) (take (j - k) (drop k syms))\<rparr>) \<and>
    (b \<longleftrightarrow> added \<or> infos lb (sym_str_offset s) (take (j - k) (drop k syms)) \<noteq> []) \<and>
    e = (case find (covers start_offset end_offset addr) (infos lb (sym_str_offset s) (drop k syms)) of
           None \<Rightarrow> ScanEnd
         | Some i \<Rightarrow> ScanFound (read_name m (str_offset i) (sym_str_end s - str_offset i) (addr - start_offset i)))"
  using assms
proof (induction "length syms - k" arbitrary: k s added)
  case 0
  then have k: "k = length syms" by simp
  have "scan_symbols T addr lb m (added, s) = Some (ScanEnd, added, s)"
    using more_entries_iff [OF 0(2,4)] k by (subst scan_symbols.simps) simp
  then show ?case using 0(4) k by (intro exI [of _ k]) (simp add: infos_def)
next
  case (Suc d)
  then have k: "k < length syms" by simp
  then obtain bs where bs: "mem_Read m (sym_cur_offset s) (sizeof_sym T) = Ret bs" "sym_of_bytes T bs = syms ! k"
    using Suc.prems(1,3) by (auto simp: sym_table_def)
  have dk: "drop k syms = syms ! k # drop (Suc k) syms" using k by (simp add: Cons_nth_drop_Suc)
  let ?infos = "infos lb (sym_str_offset s)"
  let ?new = "?infos [syms ! k]"
  let ?s1 = "s\<lparr>sym_cur_offset := sym_cur_offset s + sym_entry_size s, sym_cache := sym_cache s @ ?new\<rparr>"
  have step: "scan_symbols T addr lb m (added, s) =
      (case scan_entry addr lb m (syms ! k) (added, s) of
         (None, as') \<Rightarrow> scan_symbols T addr lb m as' | (Some r, as') \<Rightarrow> Some (ScanFound r, as'))"
    using more_entries_iff [OF Suc.prems(1,3)] k bs by (subst scan_symbols.simps) simp
  have c1: "sym_cur_offset s + sym_entry_size s = sym_offset s + of_nat (Suc k) * sym_entry_size s"
    using Suc.prems(3) by (simp add: algebra_simps)
  show ?case
  proof (cases "\<exists>i \<in> set ?new. covers start_offset end_offset addr i")
    case True
    let ?i = "info_of lb (sym_str_offset s) (syms ! k)"
    from True have f: "is_function (syms ! k)" "covers start_offset end_offset addr ?i"
      by (auto simp: infos_def split: if_splits)
    then have "?i \<in> set (?infos syms)" using k by (auto simp: infos_def)
    then have "str_offset ?i < sym_str_end s" using Suc.prems(4) by (simp add: functions_ok_def)
    then show ?thesis
      using f c1 k by (intro exI [of _ "Suc k"]) (auto simp: step scan_entry_def covers_def Let_def dk infos_def)
  next
    case False
    then have e: "scan_entry addr lb m (syms ! k) (added, s) = (None, added \<or> ?new \<noteq> [], ?s1)"
      by (auto simp: scan_entry_def infos_def covers_def Let_def)
    define s1 where "s1 = ?s1"
    have f: "sym_offset s1 = sym_offset s" "sym_entry_size s1 = sym_entry_size s" "sym_str_offset s1 = sym_str_offset s"
      "sym_str_end s1 = sym_str_end s" "sym_cache s1 = sym_cache s @ ?new"
      by (simp_all add: s1_def)
    have p: "d = length syms - Suc k" "sym_table T m syms s1" "Suc k \<le> length syms"
      "sym_cur_offset s1 = sym_offset s1 + of_nat (Suc k) * sym_entry_size s1"
      "functions_ok (sym_str_end s1) (infos lb (sym_str_offset s1) syms)"
      using Suc.hyps(2) Suc.prems c1 k by (simp_all add: s1_def sym_table_def)
    from Suc.hyps(1) [OF p, of "added \<or> ?new \<noteq> []"]
    obtain j e b where j: "Suc k \<le> j" "j \<le> length syms" and
      "scan_symbols T addr lb m (added \<or> ?new \<noteq> [], s1) = Some (e, b, s1\<lparr>sym_cur_offset := sym_offset s + of_nat j * sym_entry_size s,
        sym_cache := (sym_cache s @ ?new) @ ?infos (take (j - Suc k) (drop (Suc k) syms))\<rparr>)" and
      "b \<longleftrightarrow> (added \<or> ?new \<noteq> []) \<or> ?infos (take (j - Suc k) (drop (Suc k) syms)) \<noteq> []" and
      "e = (case find (covers start_offset end_offset addr) (?infos (drop (Suc k) syms)) of None \<Rightarrow> ScanEnd
         | Some i \<Rightarrow> ScanFound (read_name m (str_offset i) (sym_str_end s - str_offset i) (addr - start_offset i)))"
      unfolding f by blast
    moreover have "take (j - k) (drop k syms) = syms ! k # take (j - Suc k) (drop (Suc k) syms)"
      using j(1) by (simp add: dk take_Cons' Suc_diff_le)
    ultimately show ?thesis
      using False e
      by (intro exI [of _ j]) (auto simp: step dk infos_def s1_def)
  qed
qed

lemma sym_inv_update:
  assumes "sym_inv T m lb syms s" and "j \<le> length syms" and "sorted (map start_offset c)"
    and "mset c = mset (infos lb (sym_str_offset s) (take j syms))"
  shows "sym_inv T m lb syms (s\<lparr>sym_cur_offset := sym_offset s + of_nat j * sym_entry_size s, sym_cache := c\<rparr>)"
  using assms by (auto simp: sym_inv_def)

lemma find_append_None: "\<forall>x \<in> set xs. \<not> P x \<Longrightarrow> find P (xs @ ys) = find P ys"
  by (induction xs) auto

lemma find_function:
  assumes "functions_ok e xs" and "i \<in> set xs" and "covers start_offset end_offset a i"
  shows "find (covers start_offset end_offset a) xs = Some i"
proof -
  obtain y where y: "find (covers start_offset end_offset a) xs = Some y"
    using assms(2,3) by (cases "find (covers start_offset end_offset a) xs") (auto simp: find_None_iff)
  then have "y \<in> set xs" "covers start_offset end_offset a y" by (auto simp: find_Some_iff)
  then have "y = i \<or> end_offset y \<le> start_offset i \<or> end_offset i \<le> start_offset y"
    using assms(1,2) by (simp add: functions_ok_def)
  then show ?thesis using y assms(3) \<open>covers start_offset end_offset a y\<close> by (auto simp: covers_def)
qed

lemma GetName_lookup:
  assumes "std_sort_ok std_sort" and "sym_inv T m lb syms s"
    and "functions_ok (sym_str_end s) (infos lb (sym_str_offset s) syms)"
  shows "\<exists>s'. GetName std_sort T addr0 lb m s =
      Some (sym_lookup m (sym_str_end s) (addr0 + lb) (infos lb (sym_str_offset s) syms), s') \<and>
    sym_inv T m lb syms s'"
proof -
  let ?all = "infos lb (sym_str_offset s) syms" and ?addr = "addr0 + lb"
  let ?c = "covers start_offset end_offset ?addr"
  obtain k where k: "k \<le> length syms" "sym_cur_offset s = sym_offset s + of_nat k * sym_entry_size s"
    and c: "mset (sym_cache s) = mset (infos lb (sym_str_offset s) (take k syms))"
    and t: "sym_table T m syms s" and so: "sorted (map start_offset (sym_cache s))"
    using assms(2) by (auto simp: sym_inv_def)
  have split: "?all = infos lb (sym_str_offset s) (take k syms) @ infos lb (sym_str_offset s) (drop k syms)"
    by (simp flip: infos_append)
  have sub: "set (sym_cache s) \<subseteq> set ?all" using mset_eq_setD [OF c] split by auto
  have it: "interval_table start_offset end_offset (sym_cache s)"
    by (rule interval_table_sorted [OF functions_ok_subset [OF assms(3) sub] so])
  have hit: "GetInfoFromCache ?addr s = find ?c (sym_cache s)"
    unfolding GetInfoFromCache_def by (rule symbol_search.search_is_find [OF it])
  show ?thesis
  proof (cases "find ?c (sym_cache s)")
    case (Some i)
    then have i: "i \<in> set (sym_cache s)" "?c i" by (auto simp: find_Some_iff)
    then have "find ?c ?all = Some i" using sub by (intro find_function [OF assms(3)]) auto
    then have "sym_lookup m (sym_str_end s) ?addr ?all = read_name m (str_offset i) (sym_str_end s - str_offset i) (?addr - start_offset i)"
      by (simp add: sym_lookup_def)
    moreover have "sym_cache s \<noteq> []" "start_offset i \<le> ?addr" "?addr \<le> end_offset i" using i by (auto simp: covers_def)
    ultimately show ?thesis using Some hit assms(2) by (simp add: GetName_def)
  next
    case None
    then have n: "\<forall>x \<in> set (infos lb (sym_str_offset s) (take k syms)). \<not> ?c x"
      using mset_eq_setD [OF c] by (auto simp: find_None_iff)
    obtain j e b where j: "k \<le> j" "j \<le> length syms"
      and scan: "scan_symbols T ?addr lb m (False, s) = Some (e, b, s\<lparr>sym_cur_offset := sym_offset s + of_nat j * sym_entry_size s,
        sym_cache := sym_cache s @ infos lb (sym_str_offset s) (take (j - k) (drop k syms))\<rparr>)"
      and b: "b \<longleftrightarrow> infos lb (sym_str_offset s) (take (j - k) (drop k syms)) \<noteq> []"
      and e: "e = (case find ?c (infos lb (sym_str_offset s) (drop k syms)) of None \<Rightarrow> ScanEnd
         | Some i \<Rightarrow> ScanFound (read_name m (str_offset i) (sym_str_end s - str_offset i) (?addr - start_offset i)))"
      using scan_symbols_table [OF t k assms(3), of ?addr False] by auto
    have tj: "take j syms = take k syms @ take (j - k) (drop k syms)" using j by (metis le_add_diff_inverse take_add)
    let ?c' = "if b then std_sort (sym_cache s @ infos lb (sym_str_offset s) (take (j - k) (drop k syms))) else sym_cache s"
    have "mset ?c' = mset (infos lb (sym_str_offset s) (take j syms))" "sorted (map start_offset ?c')"
      using assms(1) b c so by (auto simp: std_sort_ok_def tj infos_append)
    then have inv: "sym_inv T m lb syms (s\<lparr>sym_cur_offset := sym_offset s + of_nat j * sym_entry_size s, sym_cache := ?c'\<rparr>)"
      by (intro sym_inv_update [OF assms(2) j(2)]) auto
    have "find ?c ?all = find ?c (infos lb (sym_str_offset s) (drop k syms))"
      unfolding split by (rule find_append_None [OF n])
    then have "GetName std_sort T addr0 lb m s = Some (sym_lookup m (sym_str_end s) ?addr ?all,
        s\<lparr>sym_cur_offset := sym_offset s + of_nat j * sym_entry_size s, sym_cache := ?c'\<rparr>)"
      using None hit scan b by (simp add: GetName_def Let_def sym_lookup_def e split: option.split)
    with inv show ?thesis by blast
  qed
qed

section \<open>Properties\<close>

text \<open>C17. The cache of function symbols is transparent: in every state that lookups can reach, \<open>GetName\<close> ends
  and returns what a linear search through the whole symbol table returns, for every order that \<open>std::sort\<close>
  may choose, and it keeps the invariant that the cache holds the functions read so far, sorted by their
  start. The functions must not overlap and their names must lie in the string table.\<close>

theorem GetName_is_lookup:
  assumes "std_sort_ok std_sort" and "sym_inv T m load_bias syms s"
    and "functions_ok (sym_str_end s) (infos load_bias (sym_str_offset s) syms)"
  shows "\<exists>s'. GetName std_sort T addr load_bias m s =
      Some (sym_lookup m (sym_str_end s) (addr + load_bias) (infos load_bias (sym_str_offset s) syms), s') \<and>
    sym_inv T m load_bias syms s'"
  by (rule GetName_lookup [OF assms])

definition sample_sym :: "u8 \<Rightarrow> u8 \<Rightarrow> u8 \<Rightarrow> u8 list" where
  "sample_sym nm value_hi sz =
     [nm, 0, 0, 0, 2, 0, 1, 0, 0, value_hi, 0, 0, 0, 0, 0, 0, sz, 0, 0, 0, 0, 0, 0, 0]"

definition sample_elf :: memory where
  "sample_elf = MemoryBuffer (sample_sym 1 2 0x20 @ sample_sym 5 1 0x10 @ [0, 102, 111, 111, 0, 98, 97, 114, 0])"

definition sample_syms :: "elf_sym list" where
  "sample_syms = [sym_of_bytes Elf64_Sym (sample_sym 1 2 0x20), sym_of_bytes Elf64_Sym (sample_sym 5 1 0x10)]"

lemma sample_elf_reads:
  "mem_Read sample_elf 0 24 = Ret (sample_sym 1 2 0x20)" "mem_Read sample_elf 24 24 = Ret (sample_sym 5 1 0x10)"
  by (simp_all add: sample_elf_def sample_sym_def MemoryBuffer_Read_def add_overflow_def)

lemma sample_elf_string: "mem_ReadString sample_elf 53 4 = (Ret (), [98, 97, 114])"
  by (simp add: mem_ReadString_def ReadString_loop.simps sample_elf_def sample_sym_def MemoryBuffer_Read_def add_overflow_def)

lemma sample_infos:
  "infos 0 48 sample_syms = [\<lparr>start_offset = 0x200, end_offset = 0x220, str_offset = 49\<rparr>,
     \<lparr>start_offset = 0x100, end_offset = 0x110, str_offset = 53\<rparr>]"
  by (simp add: infos_def sample_syms_def sample_sym_def is_function_def info_of_def field_at_def SHN_UNDEF_def SHN_ABS_def STT_FUNC_def)

theorem GetName_is_lookup_witness:
  "\<exists>s'. GetName (sort_key start_offset) Elf64_Sym 0x105 0 sample_elf (new_Symbols 0 48 24 48 9) = Some (Ret ([98, 97, 114], 5), s')"
proof -
  let ?s = "new_Symbols 0 48 24 48 9"
  have "std_sort_ok (sort_key start_offset)" by (simp add: std_sort_ok_def)
  moreover have "sym_table Elf64_Sym sample_elf sample_syms ?s"
    using sample_elf_reads by (auto simp: sym_table_def sample_syms_def new_Symbols_def less_Suc_eq)
  then have "sym_inv Elf64_Sym sample_elf 0 sample_syms ?s"
    by (auto simp: sym_inv_def new_Symbols_def infos_def intro!: exI [of _ 0])
  moreover have "functions_ok (sym_str_end ?s) (infos 0 (sym_str_offset ?s) sample_syms)"
    by (simp add: new_Symbols_def sample_infos functions_ok_def)
  moreover have "sym_lookup sample_elf (sym_str_end ?s) (0x105 + 0) (infos 0 (sym_str_offset ?s) sample_syms) = Ret ([98, 97, 114], 5)"
    by (simp add: new_Symbols_def sample_infos sym_lookup_def covers_def read_name_def sample_elf_string)
  ultimately show ?thesis using GetName_is_lookup [of "sort_key start_offset" Elf64_Sym sample_elf 0 sample_syms ?s "0x105"] by auto
qed

lemma scan_symbols_diverges:
  assumes "\<And>as. P as \<Longrightarrow> sym_cur_offset (snd as) + sym_entry_size (snd as) \<le> sym_end (snd as) \<and>
      (\<exists>bs. mem_Read m (sym_cur_offset (snd as)) (sizeof_sym T) = Ret bs \<and>
        fst (scan_entry addr lb m (sym_of_bytes T bs) as) = None \<and> P (snd (scan_entry addr lb m (sym_of_bytes T bs) as)))"
    and "P as"
  shows "scan_symbols T addr lb m as = None"
proof -
  have "T = T \<longrightarrow> addr = addr \<longrightarrow> lb = lb \<longrightarrow> m = m \<longrightarrow> \<not> P as" if "scan_symbols T addr lb m as = Some y" for y
  proof (rule scan_symbols.raw_induct [where P = "\<lambda>T' a' l' m' as y. T' = T \<longrightarrow> a' = addr \<longrightarrow> l' = lb \<longrightarrow> m' = m \<longrightarrow> \<not> P as",
        OF _ that], intro impI notI)
    fix f T' a' l' m' as y
    assume IH: "\<And>T' a' l' m' as y. f T' a' l' m' as = Some y \<Longrightarrow> T' = T \<longrightarrow> a' = addr \<longrightarrow> l' = lb \<longrightarrow> m' = m \<longrightarrow> \<not> P as"
      and body: "(let s = snd as in
      if sym_cur_offset s + sym_entry_size s \<le> sym_end s then
        (case mem_Read m' (sym_cur_offset s) (sizeof_sym T') of
           Ret bs \<Rightarrow>
             (case scan_entry a' l' m' (sym_of_bytes T' bs) as of
                (None, as') \<Rightarrow> f T' a' l' m' as'
              | (Some r, as') \<Rightarrow> Some (ScanFound r, as'))
         | Fail \<Rightarrow> Some (ScanStop Fail, fst as, s\<lparr>sym_cur_offset := -1\<rparr>)
         | Abort \<Rightarrow> Some (ScanStop Abort, as)
         | Undef \<Rightarrow> Some (ScanStop Undef, as))
      else Some (ScanEnd, as)) = Some y"
      and eq: "T' = T" "a' = addr" "l' = lb" "m' = m" and P: "P as"
    from assms(1) [OF P] obtain bs as' where "sym_cur_offset (snd as) + sym_entry_size (snd as) \<le> sym_end (snd as)"
      "mem_Read m (sym_cur_offset (snd as)) (sizeof_sym T) = Ret bs" "scan_entry addr lb m (sym_of_bytes T bs) as = (None, as')" "P as'"
      by (metis prod.collapse)
    then show False using body IH [of T addr lb m as' y] eq by simp
  qed
  with assms(2) show ?thesis by (cases "scan_symbols T addr lb m as") auto
qed

text \<open>C39. A symbol table with entries of size zero: when the entry at the current offset can be read and is not
  the function looked for, \<open>GetName\<close> reads it for ever.\<close>

theorem GetName_diverges:
  assumes "sym_entry_size s = 0" and "sym_cur_offset s \<le> sym_end s" and "sym_cache s = []"
    and "mem_Read m (sym_cur_offset s) (sizeof_sym T) = Ret bs"
    and "\<not> covers start_offset end_offset (addr + load_bias) (info_of load_bias (sym_str_offset s) (sym_of_bytes T bs))"
  shows "GetName std_sort T addr load_bias m s = None"
proof -
  have "scan_symbols T (addr + load_bias) load_bias m (False, s) = None"
    by (rule scan_symbols_diverges [where P = "\<lambda>as. sym_entry_size (snd as) = 0 \<and> sym_cur_offset (snd as) = sym_cur_offset s \<and>
        sym_end (snd as) = sym_end s \<and> sym_str_offset (snd as) = sym_str_offset s"])
      (use assms in \<open>auto simp: scan_entry_def covers_def Let_def\<close>)
  then show ?thesis using assms(3) by (simp add: GetName_def)
qed

theorem GetName_diverges_witness:
  "GetName (sort_key start_offset) Elf64_Sym 0x105 0 sample_elf (new_Symbols 0 48 0 48 9) = None"
  by (rule GetName_diverges [where bs = "sample_sym 1 2 0x20"])
    (simp_all add: new_Symbols_def sample_elf_reads sample_sym_def info_of_def field_at_def SHN_ABS_def covers_def)

end
