(* ===== verification/ElfInterface.thy ===== *)
theory ElfInterface
  imports DwarfSection_Step Symbols ArmExidx
begin

text \<open>
  \<open>ElfInterface\<close> with \<open>ElfInterface32\<close>, \<open>ElfInterface64\<close> (\<open>ElfInterface.h\<close>, \<open>ElfInterface.cpp\<close>) and \<open>ElfInterfaceArm\<close>
  (\<open>ElfInterfaceArm.h\<close>, \<open>ElfInterfaceArm.cpp\<close>): the headers of an ELF file, its symbols, and the step with its unwind
  information. One record has the members of all classes; \<open>ei_kind\<close> is the class of the object, and decides
  the virtual calls and the template arguments. The XZ decoder and \<open>std::sort\<close> are parameters.
\<close>

section \<open>Parameters\<close>

text \<open>The decoder of the XZ library: a new state; one call of \<open>XzUnpacker_Code\<close>, given the room in the destination and the rest of
  the source, with the new state, whether it returned \<open>SZ_OK\<close>, whether the status is \<open>CODER_STATUS_NOT_FINISHED\<close>, the
  bytes written and the number of bytes consumed; and \<open>XzUnpacker_IsStreamWasFinished\<close>.\<close>

record 'x xz_lib =
  xz_new :: 'x
  xz_code :: "'x \<Rightarrow> nat \<Rightarrow> u8 list \<Rightarrow> 'x \<times> bool \<times> bool \<times> u8 list \<times> nat"
  xz_finished :: "'x \<Rightarrow> bool"

section \<open>Structures of elf.h\<close>

datatype elf_class = Elf32 | Elf64

text \<open>Offset and size of the members the code uses, and the sizes of the structures.\<close>

datatype elf_field =
    E_phoff | E_shoff | E_phentsize | E_phnum | E_shentsize | E_shnum | E_shstrndx
  | P_type | P_flags | P_offset | P_vaddr | P_memsz
  | Sh_name | Sh_type | Sh_offset | Sh_size | Sh_link | Sh_entsize
  | D_tag | D_un

fun field_pos :: "elf_class \<Rightarrow> elf_field \<Rightarrow> nat \<times> nat" where
  "field_pos Elf32 E_phoff = (28, 4)" | "field_pos Elf64 E_phoff = (32, 8)"
| "field_pos Elf32 E_shoff = (32, 4)" | "field_pos Elf64 E_shoff = (40, 8)"
| "field_pos Elf32 E_phentsize = (42, 2)" | "field_pos Elf64 E_phentsize = (54, 2)"
| "field_pos Elf32 E_phnum = (44, 2)" | "field_pos Elf64 E_phnum = (56, 2)"
| "field_pos Elf32 E_shentsize = (46, 2)" | "field_pos Elf64 E_shentsize = (58, 2)"
| "field_pos Elf32 E_shnum = (48, 2)" | "field_pos Elf64 E_shnum = (60, 2)"
| "field_pos Elf32 E_shstrndx = (50, 2)" | "field_pos Elf64 E_shstrndx = (62, 2)"
| "field_pos Elf32 P_type = (0, 4)" | "field_pos Elf64 P_type = (0, 4)"
| "field_pos Elf32 P_flags = (24, 4)" | "field_pos Elf64 P_flags = (4, 4)"
| "field_pos Elf32 P_offset = (4, 4)" | "field_pos Elf64 P_offset = (8, 8)"
| "field_pos Elf32 P_vaddr = (8, 4)" | "field_pos Elf64 P_vaddr = (16, 8)"
| "field_pos Elf32 P_memsz = (20, 4)" | "field_pos Elf64 P_memsz = (40, 8)"
| "field_pos Elf32 Sh_name = (0, 4)" | "field_pos Elf64 Sh_name = (0, 4)"
| "field_pos Elf32 Sh_type = (4, 4)" | "field_pos Elf64 Sh_type = (4, 4)"
| "field_pos Elf32 Sh_offset = (16, 4)" | "field_pos Elf64 Sh_offset = (24, 8)"
| "field_pos Elf32 Sh_size = (20, 4)" | "field_pos Elf64 Sh_size = (32, 8)"
| "field_pos Elf32 Sh_link = (24, 4)" | "field_pos Elf64 Sh_link = (40, 4)"
| "field_pos Elf32 Sh_entsize = (36, 4)" | "field_pos Elf64 Sh_entsize = (56, 8)"
| "field_pos Elf32 D_tag = (0, 4)" | "field_pos Elf64 D_tag = (0, 8)"
| "field_pos Elf32 D_un = (4, 4)" | "field_pos Elf64 D_un = (8, 8)"

fun sizeof_ehdr :: "elf_class \<Rightarrow> nat" where "sizeof_ehdr Elf32 = 52" | "sizeof_ehdr Elf64 = 64"
fun sizeof_shdr :: "elf_class \<Rightarrow> nat" where "sizeof_shdr Elf32 = 40" | "sizeof_shdr Elf64 = 64"
fun sizeof_dyn :: "elf_class \<Rightarrow> nat" where "sizeof_dyn Elf32 = 8" | "sizeof_dyn Elf64 = 16"

text \<open>A member of a structure in memory read with \<open>ReadField\<close>, and one of a structure that was read as a whole.\<close>

definition read_field :: "elf_class \<Rightarrow> elf_field \<Rightarrow> memory \<Rightarrow> u64 \<Rightarrow> u64 res" where
  "read_field C fld m addr = (case field_pos C fld of (off, sz) \<Rightarrow> map_res le_word (mem_ReadField m addr 0 (of_nat off) sz))"

definition the_field :: "elf_class \<Rightarrow> elf_field \<Rightarrow> u8 list \<Rightarrow> u64" where
  "the_field C fld bs = (case field_pos C fld of (off, sz) \<Rightarrow> field_at off sz bs)"

definition PT_LOAD :: u64 where "PT_LOAD = 1"
definition PT_DYNAMIC :: u64 where "PT_DYNAMIC = 2"
definition PT_GNU_EH_FRAME :: u64 where "PT_GNU_EH_FRAME = 0x6474e550"
definition PT_ARM_EXIDX :: u64 where "PT_ARM_EXIDX = 0x70000001"
definition PF_X :: u64 where "PF_X = 1"
definition SHT_PROGBITS :: u64 where "SHT_PROGBITS = 1"
definition SHT_SYMTAB :: u64 where "SHT_SYMTAB = 2"
definition SHT_STRTAB :: u64 where "SHT_STRTAB = 3"
definition SHT_DYNSYM :: u64 where "SHT_DYNSYM = 11"
definition DT_NULL :: u64 where "DT_NULL = 0"
definition DT_STRTAB :: u64 where "DT_STRTAB = 5"
definition DT_STRSZ :: u64 where "DT_STRSZ = 10"
definition DT_SONAME :: u64 where "DT_SONAME = 14"

section \<open>The object\<close>

record load_info =
  li_offset :: u64
  li_table_offset :: u64
  li_table_size :: u64

datatype soname_type = SONAME_UNKNOWN | SONAME_VALID | SONAME_INVALID

datatype interface_kind = Interface32 | Interface64 | InterfaceArm

record elf_interface =
  ei_kind :: interface_kind
  ei_memory :: memory
  ei_pt_loads :: "u64 \<rightharpoonup> load_info"
  ei_dynamic_offset :: u64
  ei_dynamic_size :: u64
  ei_eh_frame_offset :: u64
  ei_eh_frame_size :: u64
  ei_debug_frame_offset :: u64
  ei_debug_frame_size :: u64
  ei_gnu_debugdata_offset :: u64
  ei_gnu_debugdata_size :: u64
  ei_soname_type :: soname_type
  ei_soname :: "u8 list"
  ei_eh_frame :: "dwarf_section option"
  ei_debug_frame :: "dwarf_section option"
  ei_symbols :: "symbols list"
  ei_start_offset :: u64
  ei_total_entries :: u64
  ei_addrs :: "u64 \<rightharpoonup> u32"

definition new_ElfInterface :: "interface_kind \<Rightarrow> memory \<Rightarrow> elf_interface" where
  "new_ElfInterface kind m = \<lparr>ei_kind = kind, ei_memory = m, ei_pt_loads = Map.empty, ei_dynamic_offset = 0, ei_dynamic_size = 0,
     ei_eh_frame_offset = 0, ei_eh_frame_size = 0, ei_debug_frame_offset = 0, ei_debug_frame_size = 0,
     ei_gnu_debugdata_offset = 0, ei_gnu_debugdata_size = 0, ei_soname_type = SONAME_UNKNOWN, ei_soname = [],
     ei_eh_frame = None, ei_debug_frame = None, ei_symbols = [], ei_start_offset = 0, ei_total_entries = 0,
     ei_addrs = Map.empty\<rparr>"

primrec kind_class :: "interface_kind \<Rightarrow> elf_class" where
  "kind_class Interface32 = Elf32"
| "kind_class Interface64 = Elf64"
| "kind_class InterfaceArm = Elf32"

text \<open>Reads of the members of a header at an offset.\<close>

definition ei_field :: "elf_field \<Rightarrow> u64 \<Rightarrow> (elf_interface, u64) op" where
  "ei_field fld addr s = (read_field (kind_class (ei_kind s)) fld (ei_memory s) addr, s)"

text \<open>The product of two \<open>uint16_t\<close> values is an \<open>int\<close>, whose overflow is undefined.\<close>

definition int_product :: "u64 \<Rightarrow> u64 \<Rightarrow> ('s, u64) op" where
  "int_product a b = (if unat a * unat b < 2 ^ 31 then rret (a * b) else rundef)"

text \<open>A sum with a member of the header that has the width of the class.\<close>

definition elf_sum :: "elf_class \<Rightarrow> u64 \<Rightarrow> u64 \<Rightarrow> u64" where
  "elf_sum C a b = (case C of Elf32 \<Rightarrow> ucast (ucast (a + b) :: u32) | Elf64 \<Rightarrow> a + b)"

section \<open>Headers\<close>

text \<open>\<open>ElfInterfaceArm::HandleType\<close>; in the other classes it returns \<open>false\<close>.\<close>

definition HandleType :: "u64 \<Rightarrow> u64 \<Rightarrow> u64 \<Rightarrow> (elf_interface, bool) op" where
  "HandleType offset type load_bias s =
     (if ei_kind s \<noteq> InterfaceArm \<or> type \<noteq> PT_ARM_EXIDX then (Ret False, s)
      else
        case read_field Elf32 P_vaddr (ei_memory s) offset of
          Fail \<Rightarrow> (Ret True, s) | Abort \<Rightarrow> (Abort, s) | Undef \<Rightarrow> (Undef, s)
        | Ret vaddr \<Rightarrow>
            (case read_field Elf32 P_memsz (ei_memory s) offset of
               Fail \<Rightarrow> (Ret True, s) | Abort \<Rightarrow> (Abort, s) | Undef \<Rightarrow> (Undef, s)
             | Ret memsz \<Rightarrow> (Ret True, s\<lparr>ei_start_offset := vaddr - load_bias, ei_total_entries := memsz div 8\<rparr>)))"

text \<open>One program header. The second component of the state is \<open>*load_bias\<close>.\<close>

definition on_interface :: "(elf_interface, 'b) op \<Rightarrow> (elf_interface \<times> u64, 'b) op" where
  "on_interface = on_part fst (\<lambda>s p. (s, snd p))"

definition program_header :: "u64 \<Rightarrow> (elf_interface \<times> u64, unit) op" where
  "program_header offset =
     rbind (on_interface (ei_field P_type offset)) (\<lambda>type.
     rbind (\<lambda>p. on_interface (HandleType offset type (snd p)) p) (\<lambda>handled.
     if handled then rret ()
     else if type = PT_LOAD then
       rbind (on_interface (ei_field P_flags offset)) (\<lambda>flags.
       if flags AND PF_X = 0 then rret ()
       else
         rbind (on_interface (ei_field P_vaddr offset)) (\<lambda>vaddr.
         rbind (on_interface (ei_field P_offset offset)) (\<lambda>off.
         rbind (on_interface (ei_field P_memsz offset)) (\<lambda>memsz.
         modify (\<lambda>(s, load_bias).
           (s\<lparr>ei_pt_loads := (ei_pt_loads s)(off \<mapsto> \<lparr>li_offset = off, li_table_offset = vaddr, li_table_size = memsz\<rparr>)\<rparr>,
            if off = 0 then vaddr else load_bias))))))
     else if type = PT_GNU_EH_FRAME then
       on_interface (rbind (ei_field P_offset offset) (\<lambda>off.
         rbind (modify (\<lambda>s. s\<lparr>ei_eh_frame_offset := off\<rparr>)) (\<lambda>_.
         rbind (ei_field P_memsz offset) (\<lambda>memsz. modify (\<lambda>s. s\<lparr>ei_eh_frame_size := memsz\<rparr>)))))
     else if type = PT_DYNAMIC then
       on_interface (rbind (ei_field P_offset offset) (\<lambda>off.
         rbind (modify (\<lambda>s. s\<lparr>ei_dynamic_offset := off\<rparr>)) (\<lambda>_.
         rbind (ei_field P_memsz offset) (\<lambda>memsz. modify (\<lambda>s. s\<lparr>ei_dynamic_size := memsz\<rparr>)))))
     else rret ()))"

fun program_headers :: "u64 \<Rightarrow> nat \<Rightarrow> u64 \<Rightarrow> (elf_interface \<times> u64, unit) op" where
  "program_headers entsize 0 offset = rret ()"
| "program_headers entsize (Suc n) offset =
     rbind (program_header offset) (\<lambda>_. program_headers entsize n (offset + entsize))"

definition ReadProgramHeaders :: "u8 list \<Rightarrow> (elf_interface \<times> u64, unit) op" where
  "ReadProgramHeaders ehdr p =
     (let C = kind_class (ei_kind (fst p)) in
      program_headers (the_field C E_phentsize ehdr) (unat (the_field C E_phnum ehdr)) (the_field C E_phoff ehdr) p)"

text \<open>A symbol table section.\<close>

definition symbol_section :: "u8 list \<Rightarrow> u64 \<Rightarrow> (elf_interface, unit) op" where
  "symbol_section ehdr offset s =
     (let C = kind_class (ei_kind s) in
      rbind (\<lambda>s. (mem_Read (ei_memory s) offset (sizeof_shdr C), s)) (\<lambda>shdr.
      if the_field C Sh_link shdr \<ge> the_field C E_shnum ehdr then rfail
      else
        let str_offset = elf_sum C (the_field C E_shoff ehdr) (the_field C Sh_link shdr * the_field C E_shentsize ehdr) in
        rbind (ei_field Sh_type str_offset) (\<lambda>str_type.
        if str_type \<noteq> SHT_STRTAB then rfail
        else
          rbind (ei_field Sh_offset str_offset) (\<lambda>str_off.
          rbind (ei_field Sh_size str_offset) (\<lambda>str_size.
          modify (\<lambda>s. s\<lparr>ei_symbols := ei_symbols s @
            [new_Symbols (the_field C Sh_offset shdr) (the_field C Sh_size shdr) (the_field C Sh_entsize shdr) str_off str_size]\<rparr>))))) s)"

text \<open>The bytes of a string literal.\<close>

definition literal :: "string \<Rightarrow> u8 list" where
  "literal s = map of_char s"

text \<open>Offset and size of a section read together; the result is \<open>None\<close> when one of the reads fails.\<close>

definition section_extent :: "u64 \<Rightarrow> (elf_interface, (u64 \<times> u64) option) op" where
  "section_extent offset s =
     (case rbind (ei_field Sh_offset offset) (\<lambda>off. rbind (ei_field Sh_size offset) (\<lambda>sz. rret (off, sz))) s of
        (Ret p, s') \<Rightarrow> (Ret (Some p), s') | (Fail, s') \<Rightarrow> (Ret None, s') | (Abort, s') \<Rightarrow> (Abort, s') | (Undef, s') \<Rightarrow> (Undef, s'))"

definition progbits_section :: "u64 \<Rightarrow> u64 \<Rightarrow> u64 \<Rightarrow> (elf_interface, unit) op" where
  "progbits_section sec_offset sec_size offset =
     rbind (ei_field Sh_name offset) (\<lambda>sh_name.
     if sh_name < sec_size then
       (\<lambda>s. case mem_ReadString (ei_memory s) (sec_offset + sh_name) (-1) of
          (Ret _, nm) \<Rightarrow>
            if nm = literal ''.debug_frame'' then
              rbind (section_extent offset) (\<lambda>e. case e of None \<Rightarrow> rret () | Some (off, sz) \<Rightarrow>
                modify (\<lambda>s. s\<lparr>ei_debug_frame_offset := off, ei_debug_frame_size := sz\<rparr>)) s
            else if nm = literal ''.gnu_debugdata'' then
              rbind (section_extent offset) (\<lambda>e. case e of None \<Rightarrow> rret () | Some (off, sz) \<Rightarrow>
                modify (\<lambda>s. s\<lparr>ei_gnu_debugdata_offset := off, ei_gnu_debugdata_size := sz\<rparr>)) s
            else (Ret (), s)
        | (Fail, _) \<Rightarrow> (Ret (), s) | (Abort, _) \<Rightarrow> (Abort, s) | (Undef, _) \<Rightarrow> (Undef, s))
     else rret ())"

fun section_headers :: "u8 list \<Rightarrow> u64 \<Rightarrow> u64 \<Rightarrow> u64 \<Rightarrow> nat \<Rightarrow> u64 \<Rightarrow> (elf_interface, unit) op" where
  "section_headers ehdr sec_offset sec_size entsize 0 offset = rret ()"
| "section_headers ehdr sec_offset sec_size entsize (Suc n) offset =
     rbind (ei_field Sh_type offset) (\<lambda>type.
     rbind (if type = SHT_SYMTAB \<or> type = SHT_DYNSYM then symbol_section ehdr offset
            else if type = SHT_PROGBITS \<and> sec_size \<noteq> 0 then progbits_section sec_offset sec_size offset
            else rret ()) (\<lambda>_.
     section_headers ehdr sec_offset sec_size entsize n (offset + entsize)))"

definition ReadSectionHeaders :: "u8 list \<Rightarrow> (elf_interface, unit) op" where
  "ReadSectionHeaders ehdr s =
     (let C = kind_class (ei_kind s);
          shoff = the_field C E_shoff ehdr; entsize = the_field C E_shentsize ehdr;
          shnum = the_field C E_shnum ehdr; strndx = the_field C E_shstrndx ehdr in
      rbind (if strndx < shnum then
               rbind (int_product strndx entsize) (\<lambda>p. section_extent (shoff + p))
             else rret None) (\<lambda>names.
      (case names of None \<Rightarrow> section_headers ehdr 0 0 | Some (off, sz) \<Rightarrow> section_headers ehdr off sz)
        entsize (unat shnum - 1) (shoff + entsize)) s)"

text \<open>\<open>ReadAllHeaders\<close>, the \<open>Init\<close> of the classes. A failure of \<open>ReadSectionHeaders\<close> is only logged.\<close>

definition ElfInterface_Init :: "(elf_interface \<times> u64, unit) op" where
  "ElfInterface_Init =
     rbind (on_interface (\<lambda>s. (mem_Read (ei_memory s) 0 (sizeof_ehdr (kind_class (ei_kind s))), s))) (\<lambda>ehdr.
     rbind (ReadProgramHeaders ehdr) (\<lambda>_. \<lambda>p.
       case on_interface (ReadSectionHeaders ehdr) p of (Fail, p') \<Rightarrow> (Ret (), p') | q \<Rightarrow> q))"

definition GetMaxSize :: "elf_class \<Rightarrow> memory \<Rightarrow> u64 \<Rightarrow> u64 res" where
  "GetMaxSize C m sz =
     (case mem_Read m 0 (sizeof_ehdr C) of
        Ret ehdr \<Rightarrow>
          if the_field C E_shnum ehdr = 0 then Ret sz
          else map_res (elf_sum C (the_field C E_shoff ehdr)) (fst (int_product (the_field C E_shentsize ehdr) (the_field C E_shnum ehdr) ()))
      | Fail \<Rightarrow> Ret sz | Abort \<Rightarrow> Abort | Undef \<Rightarrow> Undef)"

section \<open>InitHeaders\<close>

primrec section_init :: "elf_class \<Rightarrow> fde_sort \<Rightarrow> u64 \<Rightarrow> u64 \<Rightarrow> (dwarf_section, unit) dop" where
  "section_init Elf32 std_sort offset sz = DwarfSection_Init std_sort TYPE(32) offset sz"
| "section_init Elf64 std_sort offset sz = DwarfSection_Init std_sort TYPE(64) offset sz"

definition InitHeaders :: "fde_sort \<Rightarrow> (elf_interface, unit) dop" where
  "InitHeaders std_sort =
     dbind (\<lambda>s. if ei_eh_frame_offset s \<noteq> 0 then
         (case section_init (kind_class (ei_kind s)) std_sort (ei_eh_frame_offset s) (ei_eh_frame_size s) (new_DwarfEhFrame (ei_memory s)) of
            None \<Rightarrow> None
          | Some (Ret _, sec) \<Rightarrow> Some (Ret (), s\<lparr>ei_eh_frame := Some sec\<rparr>)
          | Some (Fail, sec) \<Rightarrow> Some (Ret (), s\<lparr>ei_eh_frame := None, ei_eh_frame_offset := 0, ei_eh_frame_size := -1\<rparr>)
          | Some (Abort, sec) \<Rightarrow> Some (Abort, s)
          | Some (Undef, sec) \<Rightarrow> Some (Undef, s))
       else Some (Ret (), s)) (\<lambda>_. \<lambda>s.
     if ei_debug_frame_offset s \<noteq> 0 then
         (case section_init (kind_class (ei_kind s)) std_sort (ei_debug_frame_offset s) (ei_debug_frame_size s) (new_DwarfDebugFrame (ei_memory s)) of
            None \<Rightarrow> None
          | Some (Ret _, sec) \<Rightarrow> Some (Ret (), s\<lparr>ei_debug_frame := Some sec\<rparr>)
          | Some (Fail, sec) \<Rightarrow> Some (Ret (), s\<lparr>ei_debug_frame := None, ei_debug_frame_offset := 0, ei_debug_frame_size := -1\<rparr>)
          | Some (Abort, sec) \<Rightarrow> Some (Abort, s)
          | Some (Undef, sec) \<Rightarrow> Some (Undef, s))
       else Some (Ret (), s))"

section \<open>CreateGnuDebugdataMemory\<close>

text \<open>The loop that decompresses. The buffer is grown before each call when less than twice the size of the source is left in it; its
  length is kept apart from the bytes written so far. The result is whether the stream ended well, and the
  bytes. A source of \<open>2 ^ 61\<close> bytes cannot be allocated (\<open>std::bad_alloc\<close>), so the sizes do not wrap around.\<close>

partial_function (option) xz_loop ::
  "'x xz_lib \<Rightarrow> nat \<Rightarrow> 'x \<Rightarrow> u8 list \<Rightarrow> u8 list \<Rightarrow> nat \<Rightarrow> (bool \<times> u8 list) option" where
  "xz_loop xz n st src dst dst_size =
     (let dst_size = (if dst_size - length dst < 2 * n then dst_size + 2 * n else dst_size);
          (st, ok, not_finished, out, used) = xz_code xz st (dst_size - length dst) src;
          dst = dst @ out in
      if ok \<and> not_finished then xz_loop xz n st (drop used src) dst dst_size
      else Some (ok \<and> xz_finished xz st, dst))"

definition CreateGnuDebugdataMemory :: "'x xz_lib \<Rightarrow> (elf_interface, memory) dop" where
  "CreateGnuDebugdataMemory xz s =
     (if ei_gnu_debugdata_offset s = 0 \<or> ei_gnu_debugdata_size s = 0 then Some (Fail, s)
      else
        let n = unat (ei_gnu_debugdata_size s) in
        if n \<ge> 2 ^ 61 then Some (Abort, s)
        else
        let bad = s\<lparr>ei_gnu_debugdata_offset := 0, ei_gnu_debugdata_size := -1\<rparr> in
        case mem_Read (ei_memory s) (ei_gnu_debugdata_offset s) n of
          Fail \<Rightarrow> Some (Fail, bad) | Abort \<Rightarrow> Some (Abort, s) | Undef \<Rightarrow> Some (Undef, s)
        | Ret src \<Rightarrow>
            (case xz_loop xz n (xz_new xz) src [] (5 * n) of
               None \<Rightarrow> None
             | Some (ok, dst) \<Rightarrow> Some (if ok then (Ret (MemoryBuffer dst), s) else (Fail, bad))))"

section \<open>GetSoname\<close>

text \<open>The loop over the dynamic section, with \<open>soname_offset\<close>, \<open>strtab_offset\<close> and \<open>strtab_size\<close>. It ends because a read does not wrap
  around.\<close>

function dynamic_loop :: "elf_class \<Rightarrow> memory \<Rightarrow> u64 \<Rightarrow> u64 \<Rightarrow> u64 \<times> u64 \<times> u64 \<Rightarrow> (u64 \<times> u64 \<times> u64) res" where
  "dynamic_loop C m offset max_offset v =
     (if offset < max_offset then
        (case mem_Read m offset (sizeof_dyn C) of
           Ret dyn \<Rightarrow>
             (let tag = the_field C D_tag dyn; un = the_field C D_un dyn; (soname_offset, strtab_offset, strtab_size) = v;
                  next = offset + of_nat (sizeof_dyn C) in
              if tag = DT_STRTAB then dynamic_loop C m next max_offset (soname_offset, un, strtab_size)
              else if tag = DT_STRSZ then dynamic_loop C m next max_offset (soname_offset, strtab_offset, un)
              else if tag = DT_SONAME then dynamic_loop C m next max_offset (un, strtab_offset, strtab_size)
              else if tag = DT_NULL then Ret v
              else dynamic_loop C m next max_offset v)
         | Fail \<Rightarrow> Fail | Abort \<Rightarrow> Abort | Undef \<Rightarrow> Undef)
      else Ret v)"
  by pat_completeness auto
termination
proof -
  have less: "2 ^ 64 - unat (offset + of_nat (sizeof_dyn C)) < 2 ^ 64 - unat offset" if "mem_Read m offset (sizeof_dyn C) = Ret bs" for m C bs and offset :: u64
  proof -
    have "0 < sizeof_dyn C" by (cases C) simp_all
    then show ?thesis using mem.read_advances [OF that] mem.read_no_wrap [OF that] by simp
  qed
  show ?thesis
    by (relation "measure (\<lambda>(C, m, offset, max_offset, v). 2 ^ 64 - unat offset)") (use less in force)+
qed

declare dynamic_loop.simps [simp del]

definition GetSoname :: "(elf_interface, u8 list) op" where
  "GetSoname s =
     (case ei_soname_type s of
        SONAME_INVALID \<Rightarrow> (Fail, s)
      | SONAME_VALID \<Rightarrow> (Ret (ei_soname s), s)
      | SONAME_UNKNOWN \<Rightarrow>
          let s = s\<lparr>ei_soname_type := SONAME_INVALID\<rparr>; m = ei_memory s; offset = ei_dynamic_offset s in
          case dynamic_loop (kind_class (ei_kind s)) m offset (offset + ei_dynamic_size s) (0, 0, 0) of
            Ret (soname_offset, strtab_offset, strtab_size) \<Rightarrow>
              let soname_offset = soname_offset + strtab_offset in
              if soname_offset \<ge> strtab_offset + strtab_size then (Fail, s)
              else
                (case mem_ReadString m soname_offset (-1) of
                   (Ret _, nm) \<Rightarrow> (Ret nm, s\<lparr>ei_soname := nm, ei_soname_type := SONAME_VALID\<rparr>)
                 | (Fail, nm) \<Rightarrow> (Fail, s\<lparr>ei_soname := nm\<rparr>)
                 | (Abort, nm) \<Rightarrow> (Abort, s)
                 | (Undef, nm) \<Rightarrow> (Undef, s))
          | Fail \<Rightarrow> (Fail, s) | Abort \<Rightarrow> (Abort, s) | Undef \<Rightarrow> (Undef, s))"

section \<open>GetFunctionName\<close>

fun symbols_name ::
  "(sym_info list \<Rightarrow> sym_info list) \<Rightarrow> SymType \<Rightarrow> u64 \<Rightarrow> u64 \<Rightarrow> memory \<Rightarrow> (symbols list, u8 list \<times> u64) dop" where
  "symbols_name std_sort T addr load_bias m [] = Some (Fail, [])"
| "symbols_name std_sort T addr load_bias m (tab # syms) =
     (case GetName std_sort T addr load_bias m tab of
        None \<Rightarrow> None
      | Some (Fail, tab) \<Rightarrow> map_option (\<lambda>(r, syms). (r, tab # syms)) (symbols_name std_sort T addr load_bias m syms)
      | Some (r, tab) \<Rightarrow> Some (r, tab # syms))"

definition ElfInterface_GetFunctionName ::
  "(sym_info list \<Rightarrow> sym_info list) \<Rightarrow> u64 \<Rightarrow> u64 \<Rightarrow> (elf_interface, u8 list \<times> u64) dop" where
  "ElfInterface_GetFunctionName std_sort addr load_bias s =
     on_dpart ei_symbols (\<lambda>syms s. s\<lparr>ei_symbols := syms\<rparr>)
       (symbols_name std_sort (case kind_class (ei_kind s) of Elf32 \<Rightarrow> Elf32_Sym | Elf64 \<Rightarrow> Elf64_Sym) addr load_bias (ei_memory s)) s"

section \<open>Step\<close>

text \<open>The step of one section on the registers. The section casts them to its own width: with the other width this is undefined.\<close>

definition section_step ::
  "(dwarf_loc_regs \<Rightarrow> u16 list) \<Rightarrow> elf_class \<Rightarrow> u64 \<Rightarrow> memory \<Rightarrow> (dwarf_section \<times> machine_regs, bool) dop" where
  "section_step order C pc pm p =
     (case (C, snd p) of
        (Elf32, RegsArm r) \<Rightarrow> map_option (map_prod id (map_prod id RegsArm)) (DwarfSection_Step order pc pm (fst p, r))
      | (Elf32, RegsX86 r) \<Rightarrow> map_option (map_prod id (map_prod id RegsX86)) (DwarfSection_Step order pc pm (fst p, r))
      | (Elf64, RegsArm64 r) \<Rightarrow> map_option (map_prod id (map_prod id RegsArm64)) (DwarfSection_Step order pc pm (fst p, r))
      | (Elf64, RegsX86_64 r) \<Rightarrow> map_option (map_prod id (map_prod id RegsX86_64)) (DwarfSection_Step order pc pm (fst p, r))
      | _ \<Rightarrow> Some (Undef, p))"

text \<open>\<open>Step\<close> tries the two sections in turn; a section may be absent.\<close>

definition on_eh_frame :: "(dwarf_section \<times> 'r, 'a) dop \<Rightarrow> (elf_interface \<times> 'r, 'a) dop" where
  "on_eh_frame = on_pointer (get_beside ei_eh_frame) (put_beside (\<lambda>sec s. s\<lparr>ei_eh_frame := Some sec\<rparr>)) Fail"

definition on_debug_frame :: "(dwarf_section \<times> 'r, 'a) dop \<Rightarrow> (elf_interface \<times> 'r, 'a) dop" where
  "on_debug_frame = on_pointer (get_beside ei_debug_frame) (put_beside (\<lambda>sec s. s\<lparr>ei_debug_frame := Some sec\<rparr>)) Fail"

definition ElfInterface_Step ::
  "(dwarf_loc_regs \<Rightarrow> u16 list) \<Rightarrow> u64 \<Rightarrow> memory \<Rightarrow> (elf_interface \<times> machine_regs, bool) dop" where
  "ElfInterface_Step order pc pm p =
     (let step = section_step order (kind_class (ei_kind (fst p))) pc pm in
      dor (on_eh_frame step) (on_debug_frame step) p)"

section \<open>ElfInterfaceArm\<close>

text \<open>The left shift of a negative \<open>int32_t\<close> is undefined.\<close>

definition GetPrel31Addr :: "u32 \<Rightarrow> (elf_interface, u32) op" where
  "GetPrel31Addr offset s =
     (case mem_Read32 (ei_memory s) (ucast offset) of
        Ret data \<Rightarrow> if bit data 31 then (Undef, s) else (Ret (offset + signed_drop_bit 1 (push_bit 1 data)), s)
      | Fail \<Rightarrow> (Fail, s) | Abort \<Rightarrow> (Abort, s) | Undef \<Rightarrow> (Undef, s))"

text \<open>The address of an entry, which is kept in \<open>addrs_\<close>; the access to the map inserts 0 when there is no entry.\<close>

definition entry_addr :: "u64 \<Rightarrow> (elf_interface, u32) op" where
  "entry_addr index s =
     (let addr = (case ei_addrs s index of None \<Rightarrow> 0 | Some addr \<Rightarrow> addr);
          s = s\<lparr>ei_addrs := (ei_addrs s)(index \<mapsto> addr)\<rparr> in
      if addr \<noteq> 0 then (Ret addr, s)
      else
        rbind (GetPrel31Addr (ucast (ei_start_offset s + index * 8))) (\<lambda>addr.
        rbind (modify (\<lambda>s. s\<lparr>ei_addrs := (ei_addrs s)(index \<mapsto> addr)\<rparr>)) (\<lambda>_. rret addr)) s)"

text \<open>\<open>operator*\<close> of the iterator over the entries.\<close>

definition iterator_deref :: "u64 \<Rightarrow> (elf_interface, u32) op" where
  "iterator_deref index s = (case entry_addr index s of (Fail, s') \<Rightarrow> (Ret 0, s') | q \<Rightarrow> q)"

function find_entry_loop :: "u32 \<Rightarrow> nat \<Rightarrow> nat \<Rightarrow> (elf_interface, nat + nat) op" where
  "find_entry_loop pc k n =
     (if k < n then
        (let current = (k + n) div 2 in
         rbind (entry_addr (of_nat current)) (\<lambda>addr.
         if pc = addr then rret (Inl current)
         else if pc < addr then find_entry_loop pc k current
         else find_entry_loop pc (current + 1) n))
      else rret (Inr n))"
  by pat_completeness auto
termination
  by (relation "measure (\<lambda>(pc, k, n). n - k)") auto

declare find_entry_loop.simps [simp del]

definition FindEntry :: "u32 \<Rightarrow> (elf_interface, u64) op" where
  "FindEntry pc s =
     (if ei_start_offset s = 0 \<or> ei_total_entries s = 0 then (Fail, s)
      else
        rbind (find_entry_loop pc 0 (unat (ei_total_entries s))) (\<lambda>found.
        case found of
          Inl current \<Rightarrow> rret (ei_start_offset s + of_nat current * 8)
        | Inr n \<Rightarrow> if n \<noteq> 0 then rret (ei_start_offset s + of_nat (n - 1) * 8) else rfail) s)"

text \<open>\<open>StepExidx\<close> after the entry is found: the result of \<open>ExtractEntryData\<close> and \<open>Eval\<close>, the registers, and the status.\<close>

definition exidx_step :: "u64 \<Rightarrow> memory \<Rightarrow> memory \<Rightarrow> (32 regs, bool) op" where
  "exidx_step entry_offset m pm r =
     (let arm = set_cfa (regs_sp r) (new_ArmExidx r m pm);
          (res, arm) = rbind (ExtractEntryData (ucast entry_offset)) (\<lambda>_. arm_Eval) arm;
          (res, r) =
            (case res of
               Ret True \<Rightarrow>
                 rbind (if arm_pc_set arm then rbind (get_reg (arm_reg ARM_REG_PC)) (\<lambda>pc. modify (set_pc pc))
                        else rbind (get_reg (arm_reg ARM_REG_LR)) (\<lambda>lr. rbind (modify (set_pc lr)) (\<lambda>_.
                          regs_put (arm_reg ARM_REG_PC) lr))) (\<lambda>_.
                 rbind (modify (set_sp (arm_cfa arm))) (\<lambda>_.
                 rbind (regs_put (arm_reg ARM_REG_SP) (arm_cfa arm)) (\<lambda>_. \<lambda>r. (Ret (regs_pc r = 0), r)))) (arm_regs arm)
             | Ret False \<Rightarrow> (Fail, arm_regs arm)
             | Fail \<Rightarrow> (Fail, arm_regs arm)
             | Abort \<Rightarrow> (Abort, arm_regs arm)
             | Undef \<Rightarrow> (Undef, arm_regs arm)) in
      if (res = Fail \<or> is_Ret res) \<and> arm_status arm = ARM_STATUS_NO_UNWIND then (Ret True, r) else (res, r))"

definition StepExidx :: "u64 \<Rightarrow> memory \<Rightarrow> (elf_interface \<times> machine_regs, bool) op" where
  "StepExidx pc pm p =
     (case FindEntry (ucast pc) (fst p) of
        (Ret entry_offset, s) \<Rightarrow>
          (case snd p of
             RegsArm r \<Rightarrow> map_prod id (\<lambda>r. (s, RegsArm r)) (exidx_step entry_offset (ei_memory s) pm r)
           | _ \<Rightarrow> (Undef, s, snd p))
      | (Fail, s) \<Rightarrow> (Fail, s, snd p)
      | (Abort, s) \<Rightarrow> (Abort, s, snd p)
      | (Undef, s) \<Rightarrow> (Undef, s, snd p))"

text \<open>The virtual call of \<open>Step\<close>.\<close>

definition Interface_Step ::
  "(dwarf_loc_regs \<Rightarrow> u16 list) \<Rightarrow> u64 \<Rightarrow> memory \<Rightarrow> (elf_interface \<times> machine_regs, bool) dop" where
  "Interface_Step order pc pm p =
     (if ei_kind (fst p) = InterfaceArm then dor (ElfInterface_Step order pc pm) (total (StepExidx pc pm)) p
      else ElfInterface_Step order pc pm p)"

end
