(* ===== verification/Table_Search.thy ===== *)
theory Table_Search
  imports Floor_Search ElfInterface
begin

text \<open>
  The two searches of the unwind tables as searches for the floor of a key: \<open>FindEntry\<close> over the entries of
  \<open>.ARM.exidx\<close> and \<open>GetFdeOffsetBinary\<close> over the entries of \<open>.eh_frame_hdr\<close>. Both read entries on demand into a cache.
\<close>

section \<open>The ARM index\<close>

text \<open>The addresses of the entries, as the memory has them. What is in the cache agrees with them.\<close>

definition exidx_table :: "u32 list \<Rightarrow> elf_interface \<Rightarrow> bool" where
  "exidx_table es s \<longleftrightarrow> length es < 2 ^ 64 \<and>
     (\<forall>i < length es. GetPrel31Addr (ucast (ei_start_offset s + of_nat i * 8)) s = (Ret (es ! i), s) \<and>
       (case ei_addrs s (of_nat i) of None \<Rightarrow> True | Some a \<Rightarrow> a = 0 \<or> a = es ! i))"

lemma of_nat_u64_inj: "i < 2 ^ 64 \<Longrightarrow> j < 2 ^ 64 \<Longrightarrow> (of_nat i :: u64) = of_nat j \<longleftrightarrow> i = j"
  by (simp add: word_unat_eq_iff unat_of_nat)

lemma GetPrel31Addr_addrs:
  "GetPrel31Addr off (s\<lparr>ei_addrs := a\<rparr>) = (q, s\<lparr>ei_addrs := a\<rparr>) \<longleftrightarrow> GetPrel31Addr off s = (q, s)"
  by (auto simp: GetPrel31Addr_def split: res.splits)

lemma exidx_table_update:
  assumes "exidx_table es s" and "i < length es" and "a = 0 \<or> a = es ! i"
  shows "exidx_table es (s\<lparr>ei_addrs := (ei_addrs s)(of_nat i \<mapsto> a)\<rparr>)"
  using assms by (auto simp: exidx_table_def GetPrel31Addr_addrs of_nat_u64_inj)

lemma entry_addr_table:
  assumes "exidx_table es s" and i: "i < length es"
  shows "\<exists>s'. entry_addr (of_nat i) s = (Ret (es ! i), s') \<and> exidx_table es s'"
proof -
  define a where "a = (case ei_addrs s (of_nat i) of None \<Rightarrow> 0 | Some a \<Rightarrow> a)"
  let ?s = "s\<lparr>ei_addrs := (ei_addrs s)(of_nat i \<mapsto> a)\<rparr>"
  have a: "a = 0 \<or> a = es ! i" using assms by (auto simp: a_def exidx_table_def split: option.splits)
  note s1 = exidx_table_update [OF assms a]
  show ?thesis
  proof (cases "a = 0")
    case True
    have "GetPrel31Addr (ucast (ei_start_offset ?s + of_nat i * 8)) ?s = (Ret (es ! i), ?s)"
      using s1 i by (simp add: exidx_table_def)
    then show ?thesis
      using True exidx_table_update [OF s1 i, of "es ! i"] by (simp add: entry_addr_def a_def [symmetric] Let_def op_defs)
  next
    case False
    then show ?thesis using a s1 by (simp add: entry_addr_def a_def [symmetric] Let_def)
  qed
qed

interpretation exidx: floor_search "\<lambda>i. entry_addr (of_nat i)" "\<lambda>a. a" "\<lambda>i a. i" find_entry_loop exidx_table
  by unfold_locales (use entry_addr_table in \<open>auto simp: find_entry_loop.simps Let_def\<close>)

text \<open>C14. Over a sorted index \<open>FindEntry\<close> finds the last entry whose address is not above the pc, and fails exactly when the pc lies below all
  entries. Whatever entries earlier searches left in the cache, the result is the same.
\<close>

theorem FindEntry_is_floor:
  assumes "exidx_table es s" and "sorted_wrt (<) es" and "es \<noteq> []" and "unat (ei_total_entries s) = length es"
    and "ei_start_offset s \<noteq> 0"
  shows "\<exists>s'. FindEntry pc s =
      (case floor_index es pc of None \<Rightarrow> Fail | Some i \<Rightarrow> Ret (ei_start_offset s + of_nat i * 8), s') \<and> exidx_table es s'"
proof -
  have "ei_total_entries s \<noteq> 0" using assms(3,4) by auto
  moreover obtain r s' where r: "find_entry_loop pc 0 (length es) s = (Ret r, s')" "exidx_table es s'"
      "case r of Inl h \<Rightarrow> \<exists>i < length es. floor_index es pc = Some i \<and> h = i
       | Inr m \<Rightarrow> m \<le> length es \<and> floor_index es pc = (if m = 0 then None else Some (m - 1))"
    using exidx.search_floor [OF assms(1), of pc, unfolded list.map_ident] assms(2) by blast
  ultimately show ?thesis using assms(4,5) by (cases r) (auto simp: FindEntry_def op_defs)
qed

text \<open>An index with entries for the addresses 0x108 and 0x210.\<close>

definition sample_exidx :: elf_interface where
  "sample_exidx = (new_ElfInterface InterfaceArm (MemoryBuffer
     [0, 0, 0, 0, 0, 0, 0, 0, 0, 1, 0, 0, 0, 0, 0, 0, 0, 2, 0, 0, 0, 0, 0, 0]))\<lparr>ei_start_offset := 8, ei_total_entries := 2\<rparr>"

lemma FindEntry_is_floor_witness:
  "(\<exists>s'. FindEntry 0x20f sample_exidx = (Ret 8, s')) \<and> (\<exists>s'. FindEntry 0x210 sample_exidx = (Ret 16, s')) \<and>
   (\<exists>s'. FindEntry 0x107 sample_exidx = (Fail, s'))"
proof -
  have s: "ei_start_offset sample_exidx = 8" "ei_total_entries sample_exidx = 2" by (simp_all add: sample_exidx_def)
  have d: "signed_drop_bit (Suc 0) (0x200 :: u32) = 0x100" "signed_drop_bit (Suc 0) (0x400 :: u32) = 0x200"
    by (simp_all add: word_eq_iff_signed sint_signed_drop_bit_eq)
  have t: "exidx_table [0x108, 0x210] sample_exidx"
    by (auto simp: exidx_table_def less_Suc_eq GetPrel31Addr_def sample_exidx_def new_ElfInterface_def mem_Read32_def MemoryBuffer_Read_def
      add_overflow_def d)
  note F = FindEntry_is_floor [OF t, unfolded s]
  show ?thesis using F [of "0x20f"] F [of "0x210"] F [of "0x107"] by (auto simp: floor_index_def)
qed

section \<open>The table of .eh_frame_hdr\<close>

text \<open>The entries as \<open>GetFdeInfoFromIndex\<close> delivers them.\<close>

definition eh_table :: "'a::len itself \<Rightarrow> eh_fde_info list \<Rightarrow> dwarf_section \<Rightarrow> bool" where
  "eh_table T es s \<longleftrightarrow> length es < 2 ^ 64 \<and> (\<exists>e. ds_impl s = EhFrame e) \<and>
     (\<forall>i < length es. fst (GetFdeInfoFromIndex T (of_nat i) s) = Ret (es ! i))"

text \<open>What the result of \<open>GetFdeInfoFromIndex\<close> depends on, besides the cached entry.\<close>

definition eh_frame_of :: "dwarf_section \<Rightarrow> memory \<times> u64 \<times> u64 \<times> u8 \<times> nat \<times> u64 \<times> u64" where
  "eh_frame_of s = (dm_memory (ds_memory s), func_offset (ds_memory s), text_offset (ds_memory s), eh_table_encoding (eh (ds_impl s)),
     eh_table_entry_size (eh (ds_impl s)), eh_entries_offset (eh (ds_impl s)), eh_entries_data_offset (eh (ds_impl s)))"

abbreviation cached :: "dwarf_section \<Rightarrow> u64 \<Rightarrow> eh_fde_info option" where
  "cached s \<equiv> map_of (eh_fde_info (eh (ds_impl s)))"

lemmas eh_read_defs = GetFdeInfoFromIndex_def read_eh_entry_def eh_query_def ds_query_def modify_memory_def modify_eh_def pc_offset_here_def
  on_ds_memory_def on_fail_def on_part_def op_defs set_cur_offset_def set_data_offset_def set_pc_offset_def

text \<open>The memory at the start of an entry, and the two values that are read there.\<close>

definition entry_memory :: "u64 \<Rightarrow> dwarf_section \<Rightarrow> dwarf_memory" where
  "entry_memory i s = (let e = eh (ds_impl s); c = eh_entries_offset e + 2 * i * of_nat (eh_table_entry_size e) in
     (ds_memory s)\<lparr>data_offset := eh_entries_data_offset e, cur_offset := c, pc_offset := c\<rparr>)"

lemma entry_memory_depends: "eh_frame_of s = eh_frame_of t \<Longrightarrow> entry_memory i s = entry_memory i t"
  by (simp add: eh_frame_of_def entry_memory_def Let_def)

lemma GetFdeInfo_read:
  assumes "cached s i = None"
    and "dm_ReadEncodedValue T (eh_table_encoding (eh (ds_impl s))) (entry_memory i s) = (q1, dm1)"
    and "dm_ReadEncodedValue T (eh_table_encoding (eh (ds_impl s))) dm1 = (q2, dm2)"
  shows "fst (GetFdeInfoFromIndex T i s) =
      (case q1 of Ret v \<Rightarrow> map_res (eh_info T v) q2 | Fail \<Rightarrow> Fail | Abort \<Rightarrow> Abort | Undef \<Rightarrow> Undef)"
    and "GetFdeInfoFromIndex T i s = (Ret info, s') \<Longrightarrow>
      s' = s\<lparr>ds_memory := dm2,
        ds_impl := EhFrame ((eh (ds_impl s))\<lparr>eh_fde_info := AList.update i info (eh_fde_info (eh (ds_impl s)))\<rparr>)\<rparr>"
proof -
  let ?s = "s\<lparr>ds_memory := entry_memory i s\<rparr>"
  have "GetFdeInfoFromIndex T i s =
     rbind (on_ds_memory (dm_ReadEncodedValue T (eh_table_encoding (eh (ds_impl s))))) (\<lambda>v.
     rbind (on_ds_memory (dm_ReadEncodedValue T (eh_table_encoding (eh (ds_impl s))))) (\<lambda>offset.
     rbind (modify (modify_eh (\<lambda>e. e\<lparr>eh_fde_info := AList.update i (eh_info T v offset) (eh_fde_info e)\<rparr>))) (\<lambda>_.
     rret (eh_info T v offset)))) ?s"
    using assms(1)
    by (simp add: GetFdeInfoFromIndex_def read_eh_entry_def eh_query_def ds_query_def modify_memory_def pc_offset_here_def
      entry_memory_def op_defs set_cur_offset_def set_data_offset_def set_pc_offset_def Let_def)
  note eq = this and defs = on_ds_memory_def on_fail_def on_part_def rbind_def modify_eh_def op_defs
  show "fst (GetFdeInfoFromIndex T i s) =
      (case q1 of Ret v \<Rightarrow> map_res (eh_info T v) q2 | Fail \<Rightarrow> Fail | Abort \<Rightarrow> Abort | Undef \<Rightarrow> Undef)"
    unfolding eq using assms(2,3) by (cases q1; cases q2; simp add: defs)
  show "GetFdeInfoFromIndex T i s = (Ret info, s') \<Longrightarrow>
      s' = s\<lparr>ds_memory := dm2,
        ds_impl := EhFrame ((eh (ds_impl s))\<lparr>eh_fde_info := AList.update i info (eh_fde_info (eh (ds_impl s)))\<rparr>)\<rparr>"
    unfolding eq using assms(2,3) by (cases q1; cases q2; simp add: defs; auto)
qed

lemma GetFdeInfo_cached: "cached s i = Some info \<Longrightarrow> GetFdeInfoFromIndex T i s = (Ret info, s)"
  by (simp add: GetFdeInfoFromIndex_def eh_query_def ds_query_def op_defs)

lemma GetFdeInfo_depends:
  assumes "eh_frame_of s = eh_frame_of t" and "cached s i = cached t i"
  shows "fst (GetFdeInfoFromIndex T i s) = fst (GetFdeInfoFromIndex T i t)"
proof (cases "cached s i")
  case None
  obtain q1 dm1 q2 dm2 where "dm_ReadEncodedValue T (eh_table_encoding (eh (ds_impl s))) (entry_memory i s) = (q1, dm1)"
      "dm_ReadEncodedValue T (eh_table_encoding (eh (ds_impl s))) dm1 = (q2, dm2)" by fastforce
  moreover have "eh_table_encoding (eh (ds_impl s)) = eh_table_encoding (eh (ds_impl t))" using assms(1) by (simp add: eh_frame_of_def)
  ultimately show ?thesis
    using GetFdeInfo_read(1) [of s i T q1 dm1 q2 dm2] GetFdeInfo_read(1) [of t i T q1 dm1 q2 dm2] None assms entry_memory_depends [OF assms(1)]
    by simp
next
  case (Some info)
  then show ?thesis using GetFdeInfo_cached [OF Some, of T] GetFdeInfo_cached [of t i info T] assms(2) by simp
qed

lemma GetFdeInfo_effect:
  assumes "GetFdeInfoFromIndex T i s = (Ret info, s')"
  shows "eh_frame_of s' = eh_frame_of s \<and> cached s' = (cached s)(i \<mapsto> info) \<and> ((\<exists>e. ds_impl s = EhFrame e) \<longrightarrow> (\<exists>e. ds_impl s' = EhFrame e))"
proof (cases "cached s i")
  case None
  obtain q1 dm1 q2 dm2 where q: "dm_ReadEncodedValue T (eh_table_encoding (eh (ds_impl s))) (entry_memory i s) = (q1, dm1)"
      "dm_ReadEncodedValue T (eh_table_encoding (eh (ds_impl s))) dm1 = (q2, dm2)" by fastforce
  have "dm_env dm2 = dm_env (entry_memory i s)"
    using keepsD [OF moves_cursor_ReadEncodedValue q(1)] keepsD [OF moves_cursor_ReadEncodedValue q(2)] by simp
  then show ?thesis
    using GetFdeInfo_read(2) [OF None q assms] by (auto simp: eh_frame_of_def dm_env_def entry_memory_def Let_def update_conv')
next
  case (Some info')
  then show ?thesis using GetFdeInfo_cached [OF Some, of T] assms by auto
qed

lemma deref_info_table:
  assumes "eh_table T es s" and i: "i < length es"
  shows "\<exists>s'. deref_info T (of_nat i) s = (Ret (es ! i), s') \<and> eh_table T es s'"
proof -
  obtain s' where s': "GetFdeInfoFromIndex T (of_nat i) s = (Ret (es ! i), s')"
    using assms by (metis eh_table_def prod.collapse)
  note eff = GetFdeInfo_effect [OF s']
  have "fst (GetFdeInfoFromIndex T (of_nat j) s') = Ret (es ! j)" if "j < length es" for j
  proof (cases "j = i")
    case True
    then show ?thesis using eff GetFdeInfo_cached [of s' "of_nat i" "es ! i" T] by simp
  next
    case False
    then have "(of_nat j :: u64) \<noteq> of_nat i" using that assms by (simp add: of_nat_u64_inj eh_table_def)
    then show ?thesis using GetFdeInfo_depends [of s' s "of_nat j" T] eff that assms(1) by (simp add: eh_table_def)
  qed
  then show ?thesis using s' eff assms(1) by (auto simp: eh_table_def deref_info_def)
qed

interpretation eh_hdr: floor_search "\<lambda>i. deref_info T (of_nat i)" efi_pc "\<lambda>i. efi_offset" "eh_binary_loop T" "eh_table T" for T :: "'a::len itself"
  by unfold_locales (use deref_info_table in \<open>auto simp: eh_binary_loop.simps Let_def\<close>)

text \<open>C13. Over a sorted table of \<open>.eh_frame_hdr\<close> entries of fixed size, \<open>GetFdeOffsetFromPc\<close> finds the FDE of the last entry whose pc is not
  above the given one, and fails exactly when the pc lies below all entries, whatever is in the cache.
\<close>

theorem GetFdeOffsetFromPc_is_floor:
  fixes T :: "'a::len itself"
  assumes "eh_table T es s" and "sorted_wrt (<) (map efi_pc es)" and "es \<noteq> []" and "unat (ds_fde_count s) = length es"
    and "0 < eh_table_entry_size (eh (ds_impl s))"
  shows "\<exists>s'. DwarfEhFrame_GetFdeOffsetFromPc T pc s =
      (case floor_index (map efi_pc es) pc of None \<Rightarrow> Fail | Some i \<Rightarrow> Ret (efi_offset (es ! i)), s') \<and> eh_table T es s'"
proof -
  have n: "0 < ds_fde_count s" using assms(3,4) by (auto simp: word_less_nat_alt)
  obtain r s1 where r: "eh_binary_loop T pc 0 (length es) s = (Ret r, s1)" "eh_table T es s1"
      "case r of Inl h \<Rightarrow> \<exists>i < length es. floor_index (map efi_pc es) pc = Some i \<and> h = efi_offset (es ! i)
       | Inr m \<Rightarrow> m \<le> length es \<and> floor_index (map efi_pc es) pc = (if m = 0 then None else Some (m - 1))"
    using eh_hdr.search_floor [OF assms(1,2), of pc] by blast
  then have "\<exists>s'. GetFdeOffsetBinary T pc (ds_fde_count s) s =
      (case floor_index (map efi_pc es) pc of None \<Rightarrow> Fail | Some i \<Rightarrow> Ret (efi_offset (es ! i)), s') \<and> eh_table T es s'"
  proof (cases r)
    case (Inr m)
    have "\<exists>s'. rbind (deref_info T (of_nat (m - 1))) (\<lambda>info. rret (efi_offset info)) s1 = (Ret (efi_offset (es ! (m - 1))), s') \<and> eh_table T es s'"
      if "m \<noteq> 0"
    proof -
      have "m - 1 < length es" using r(3) Inr that by auto
      then obtain s' where "deref_info T (of_nat (m - 1)) s1 = (Ret (es ! (m - 1)), s')" "eh_table T es s'"
        using deref_info_table [OF r(2)] by blast
      then show ?thesis by (auto simp: rbind_def rret_def)
    qed
    then show ?thesis using r n assms(4) Inr by (cases "m = 0") (simp_all add: GetFdeOffsetBinary_def ds_query_def rfail_def rbind_Ret)
  qed (use n assms(4) in \<open>auto simp: GetFdeOffsetBinary_def ds_query_def op_defs\<close>)
  then show ?thesis using n assms(5) by (auto simp: DwarfEhFrame_GetFdeOffsetFromPc_def ds_query_def eh_query_def)
qed

text \<open>A table of 4 byte entries for the pcs 0x104 and 0x204, of which none is cached.\<close>

definition sample_eh_frame :: dwarf_section where
  "sample_eh_frame = (new_DwarfSection (MemoryBuffer [0, 1, 0, 0, 0x10, 0, 0, 0, 0, 2, 0, 0, 0x20, 0, 0, 0])
     (EhFrame \<lparr>eh_version = 1, eh_ptr_encoding = 0, eh_table_encoding = DW_EH_PE_udata4, eh_table_entry_size = 4, eh_ptr_offset = 0,
        eh_entries_offset = 0, eh_entries_end = 16, eh_entries_data_offset = 0, eh_cur_entries_offset = 0, eh_fde_info = []\<rparr>))\<lparr>ds_fde_count := 2\<rparr>"

lemma GetFdeOffsetFromPc_is_floor_witness:
  "(\<exists>s'. DwarfEhFrame_GetFdeOffsetFromPc TYPE(64) 0x203 sample_eh_frame = (Ret 0x10, s')) \<and>
   (\<exists>s'. DwarfEhFrame_GetFdeOffsetFromPc TYPE(64) 0x204 sample_eh_frame = (Ret 0x20, s')) \<and>
   (\<exists>s'. DwarfEhFrame_GetFdeOffsetFromPc TYPE(64) 0x103 sample_eh_frame = (Fail, s'))"
proof -
  let ?es = "[\<lparr>efi_pc = 0x104, efi_offset = 0x10\<rparr>, \<lparr>efi_pc = 0x204, efi_offset = 0x20\<rparr>]"
  have t: "eh_table TYPE(64) ?es sample_eh_frame"
    by (auto simp: eh_table_def less_Suc_eq sample_eh_frame_def new_DwarfSection_def new_DwarfMemory_def eh_read_defs
      dm_ReadEncodedValue_def read_encoded_data_def dm_ReadBytes_def AdjustEncodedValue_def eh_info_def MemoryBuffer_Read_def
      add_overflow_def)
  have c: "ds_fde_count sample_eh_frame = 2" "eh_table_entry_size (eh (ds_impl sample_eh_frame)) = 4"
    by (simp_all add: sample_eh_frame_def new_DwarfSection_def)
  note F = GetFdeOffsetFromPc_is_floor [OF t, unfolded c]
  show ?thesis using F [of "0x203"] F [of "0x204"] F [of "0x103"] by (auto simp: floor_index_def)
qed

end
