(* ===== verification/Debug_Search.thy ===== *)
theory Debug_Search
  imports DwarfSection_Step Bisection
begin

text \<open>
  The search of \<open>DwarfDebugFrame\<close> for the FDE of a pc, over the sorted list of FDEs. The comparison with the end of an FDE includes the end,
  which is the first pc behind the function.
\<close>

section \<open>The search with closed intervals\<close>

definition touches :: "u64 \<Rightarrow> debug_fde_info \<Rightarrow> bool" where
  "touches pc info \<longleftrightarrow> dfi_start info \<le> pc \<and> pc \<le> dfi_end info"

lemma debug_fde_search_Some:
  "debug_fde_search fdes pc k n = Some info \<Longrightarrow> n \<le> length fdes \<Longrightarrow> touches pc info \<and> info \<in> set fdes"
proof (induction fdes pc k n rule: debug_fde_search.induct)
  case (1 fdes pc k n)
  then show ?case by (auto simp: debug_fde_search.simps [of fdes pc k n] Let_def touches_def split: if_splits)
qed

lemma debug_fde_search_None:
  assumes "interval_table dfi_start dfi_end fdes" and "debug_fde_search fdes pc k n = None" and "n \<le> length fdes" and "k \<le> i" and "i < n"
  shows "\<not> touches pc (fdes ! i)"
  using assms
proof (induction fdes pc k n rule: debug_fde_search.induct)
  case (1 fdes pc k n)
  let ?c = "(k + n) div 2"
  have c: "k < n" "?c < n" "?c < length fdes" using 1 by auto
  have none: "\<not> touches pc (fdes ! ?c)" and left: "pc < dfi_start (fdes ! ?c) \<Longrightarrow> debug_fde_search fdes pc k ?c = None"
    and right: "\<not> pc < dfi_start (fdes ! ?c) \<Longrightarrow> debug_fde_search fdes pc (?c + 1) n = None"
    using "1.prems"(2) c(1) by (auto simp: debug_fde_search.simps [of fdes pc k n] Let_def touches_def split: if_splits)
  have w: "dfi_start x \<le> dfi_end x" if "x \<in> set fdes" for x using "1.prems"(1) that by (auto simp: interval_table_def)
  note IH = "1.IH" [OF c(1) refl refl, unfolded touches_def [symmetric], OF none]
  show ?case
  proof (cases "pc < dfi_start (fdes ! ?c)")
    case True
    show ?thesis
    proof (cases "i < ?c")
      case True
      then show ?thesis using IH(1) left \<open>pc < dfi_start (fdes ! ?c)\<close> "1.prems" c by simp
    next
      case False
      then have "i = ?c \<or> fdes ! ?c = fdes ! i \<or> dfi_end (fdes ! ?c) \<le> dfi_start (fdes ! i)"
        using interval_table_nth [OF "1.prems"(1), of ?c i] "1.prems" by auto
      then show ?thesis using none True w [of "fdes ! ?c"] c(3) by (auto simp: touches_def)
    qed
  next
    case False
    show ?thesis
    proof (cases "?c < i")
      case True
      then show ?thesis using IH(2) right False "1.prems" c by simp
    next
      case le: False
      then have "i = ?c \<or> fdes ! i = fdes ! ?c \<or> dfi_end (fdes ! i) \<le> dfi_start (fdes ! ?c)"
        using interval_table_nth [OF "1.prems"(1), of i ?c] c by auto
      then show ?thesis using none False w [of "fdes ! ?c"] c(3) by (auto simp: touches_def)
    qed
  qed
qed

lemma covers_touches: "covers dfi_start dfi_end pc x \<longleftrightarrow> touches pc x \<and> pc \<noteq> dfi_end x"
  by (auto simp: covers_def touches_def)

text \<open>C15. For a pc that is not the end of an FDE, the binary search of \<open>DwarfDebugFrame::GetFdeOffsetFromPc\<close> over a sorted list of
  FDEs is the linear search for the FDE that contains the pc.
\<close>

theorem DebugFrame_search_is_find:
  assumes "interval_table dfi_start dfi_end fdes" and "df_fdes (df (ds_impl s)) = fdes" and "unat (ds_fde_count s) = length fdes"
    and "pc \<notin> dfi_end ` set fdes"
  shows "DwarfDebugFrame_GetFdeOffsetFromPc pc s =
    (case find (covers dfi_start dfi_end pc) fdes of None \<Rightarrow> Fail | Some info \<Rightarrow> Ret (dfi_offset info), s)"
proof -
  have t: "covers dfi_start dfi_end pc x \<longleftrightarrow> touches pc x" if "x \<in> set fdes" for x using that assms(4) by (auto simp: covers_touches)
  have "debug_fde_search fdes pc 0 (length fdes) = find (covers dfi_start dfi_end pc) fdes"
  proof (cases "debug_fde_search fdes pc 0 (length fdes)")
    case None
    then show ?thesis
      using debug_fde_search_None [OF assms(1) None] t by (auto simp: find_None_iff2 in_set_conv_nth)
  next
    case (Some x)
    then have x: "covers dfi_start dfi_end pc x" "x \<in> set fdes" using debug_fde_search_Some [OF Some] t by auto
    then obtain y where y: "find (covers dfi_start dfi_end pc) fdes = Some y"
      by (cases "find (covers dfi_start dfi_end pc) fdes") (auto simp: find_None_iff)
    then have "y \<in> set fdes" "covers dfi_start dfi_end pc y" by (auto simp: find_Some_iff)
    then show ?thesis using covers_unique [OF assms(1) x(2) _ x(1)] Some y by auto
  qed
  moreover have "fdes = [] \<longleftrightarrow> ds_fde_count s = 0" using assms(3) by (auto simp: unat_eq_zero)
  ultimately show ?thesis using assms(2,3) by (cases "fdes = []") (simp_all add: DwarfDebugFrame_GetFdeOffsetFromPc_def split: option.split)
qed

definition sample_debug_frame :: "debug_fde_info list \<Rightarrow> dwarf_section" where
  "sample_debug_frame fdes = (new_DwarfSection (MemoryBuffer []) (DebugFrame \<lparr>df_offset = 0, df_end_offset = 0, df_fdes = fdes\<rparr>))
     \<lparr>ds_fde_count := of_nat (length fdes)\<rparr>"

lemma DebugFrame_search_is_find_witness:
  "let s = sample_debug_frame [\<lparr>dfi_offset = 0, dfi_start = 16, dfi_end = 32\<rparr>, \<lparr>dfi_offset = 9, dfi_start = 32, dfi_end = 40\<rparr>] in
   DwarfDebugFrame_GetFdeOffsetFromPc 33 s = (Ret 9, s)"
  using DebugFrame_search_is_find [of "[\<lparr>dfi_offset = 0, dfi_start = 16, dfi_end = 32\<rparr>, \<lparr>dfi_offset = 9, dfi_start = 32, dfi_end = 40\<rparr>]"
      "sample_debug_frame [\<lparr>dfi_offset = 0, dfi_start = 16, dfi_end = 32\<rparr>, \<lparr>dfi_offset = 9, dfi_start = 32, dfi_end = 40\<rparr>]" 33]
  by (simp add: sample_debug_frame_def new_DwarfSection_def interval_table_def covers_def)

text \<open>C37. At the first pc of a function that follows directly on another one, the search can deliver the FDE of the other function. It does whenever
  the entry in the middle of the list ends at this pc; \<open>GetFdeFromPc\<close> then fails although there is an FDE that
  contains the pc.
\<close>

theorem DebugFrame_adjacent_fails:
  assumes "df_fdes (df (ds_impl s)) = fdes" and "unat (ds_fde_count s) = length fdes" and "ds_impl s = DebugFrame d"
    and mid: "info = fdes ! (length fdes div 2)" and "fdes \<noteq> []" and "dfi_start info \<le> pc" and "dfi_end info = pc"
    and "ds_fde_entries s (dfi_offset info) = Some f" and "pc_end f = pc"
  shows "GetFdeFromPc T pc s = (Fail, s\<lparr>ds_last_error := DWARF_ERROR_ILLEGAL_STATE\<rparr>)"
proof -
  have "ds_fde_count s \<noteq> 0" using assms(2,5) by auto
  moreover have "debug_fde_search fdes pc 0 (length fdes) = Some info"
    using assms(5-7) mid by (simp add: debug_fde_search.simps [of fdes pc 0] Let_def)
  ultimately have "GetFdeOffsetFromPc T pc s = (Ret (dfi_offset info), s)"
    using assms(1-3) by (simp add: GetFdeOffsetFromPc_def DwarfDebugFrame_GetFdeOffsetFromPc_def)
  moreover have "GetFdeFromOffset T (dfi_offset info) s = (Ret f, s)"
    using assms(8) by (simp add: GetFdeFromOffset_def)
  ultimately show ?thesis using assms(9) by (simp add: GetFdeFromPc_def ds_fail_def)
qed

text \<open>Three functions one behind the other: there is no FDE for the first pc of the third one.\<close>

lemma DebugFrame_adjacent_fails_witness:
  "let fdes = [\<lparr>dfi_offset = 0, dfi_start = 16, dfi_end = 32\<rparr>, \<lparr>dfi_offset = 9, dfi_start = 32, dfi_end = 40\<rparr>,
       \<lparr>dfi_offset = 18, dfi_start = 40, dfi_end = 50\<rparr>];
     s = (sample_debug_frame fdes)\<lparr>ds_fde_entries := [9 \<mapsto> new_DwarfFde\<lparr>pc_start := 32, pc_end := 40\<rparr>]\<rparr> in
   interval_table dfi_start dfi_end fdes \<and> covers dfi_start dfi_end 40 (fdes ! 2) \<and>
   GetFdeFromPc TYPE(64) 40 s = (Fail, s\<lparr>ds_last_error := DWARF_ERROR_ILLEGAL_STATE\<rparr>)"
proof -
  let ?fdes = "[\<lparr>dfi_offset = 0, dfi_start = 16, dfi_end = 32\<rparr>, \<lparr>dfi_offset = 9, dfi_start = 32, dfi_end = 40\<rparr>,
       \<lparr>dfi_offset = 18, dfi_start = 40, dfi_end = 50\<rparr>]"
  let ?s = "(sample_debug_frame ?fdes)\<lparr>ds_fde_entries := [9 \<mapsto> new_DwarfFde\<lparr>pc_start := 32, pc_end := 40\<rparr>]\<rparr>"
  have "GetFdeFromPc TYPE(64) 40 ?s = (Fail, ?s\<lparr>ds_last_error := DWARF_ERROR_ILLEGAL_STATE\<rparr>)"
    by (rule DebugFrame_adjacent_fails [where fdes = ?fdes and info = "?fdes ! 1" and f = "new_DwarfFde\<lparr>pc_start := 32, pc_end := 40\<rparr>"])
       (simp_all add: sample_debug_frame_def new_DwarfSection_def)
  then show ?thesis by (simp add: interval_table_def covers_def)
qed

end
