(* ===== verification/ElfInterface_Headers.thy ===== *)
theory ElfInterface_Headers
  imports ElfInterface
begin

text \<open>
  What the program headers of an ELF file leave in the interface: the executable segments, the load bias, and the places of
  \<open>.eh_frame_hdr\<close>, of the dynamic section and of the ARM index.
\<close>

section \<open>Program headers as data\<close>

record phdr =
  ph_type :: u64
  ph_flags :: u64
  ph_offset :: u64
  ph_vaddr :: u64
  ph_memsz :: u64

definition holds_phdr :: "elf_class \<Rightarrow> memory \<Rightarrow> u64 \<Rightarrow> phdr \<Rightarrow> bool" where
  "holds_phdr C m addr h \<longleftrightarrow>
     read_field C P_type m addr = Ret (ph_type h) \<and> read_field C P_flags m addr = Ret (ph_flags h) \<and>
     read_field C P_offset m addr = Ret (ph_offset h) \<and> read_field C P_vaddr m addr = Ret (ph_vaddr h) \<and>
     read_field C P_memsz m addr = Ret (ph_memsz h)"

definition is_code :: "phdr \<Rightarrow> bool" where
  "is_code h \<longleftrightarrow> ph_type h = PT_LOAD \<and> ph_flags h AND PF_X \<noteq> 0"

definition is_first_code :: "phdr \<Rightarrow> bool" where
  "is_first_code h \<longleftrightarrow> is_code h \<and> ph_offset h = 0"

definition is_exidx :: "interface_kind \<Rightarrow> phdr \<Rightarrow> bool" where
  "is_exidx kind h \<longleftrightarrow> kind = InterfaceArm \<and> ph_type h = PT_ARM_EXIDX"

text \<open>The last header of a kind decides.\<close>

definition of_last :: "(phdr \<Rightarrow> bool) \<Rightarrow> (phdr \<Rightarrow> 'b) \<Rightarrow> 'b \<Rightarrow> phdr list \<Rightarrow> 'b" where
  "of_last P f d hs = (if filter P hs = [] then d else f (last (filter P hs)))"

lemma of_last_simps [simp]:
  "of_last P f d [] = d" "of_last P f d (h # hs) = of_last P f (if P h then f h else d) hs"
  by (auto simp: of_last_def)

definition segments :: "phdr list \<Rightarrow> u64 \<rightharpoonup> load_info" where
  "segments hs = map_of (rev (map (\<lambda>h. (ph_offset h, \<lparr>li_offset = ph_offset h, li_table_offset = ph_vaddr h, li_table_size = ph_memsz h\<rparr>))
     (filter is_code hs)))"

text \<open>The start of the ARM index is relative to the load bias of the segments before its header.\<close>

fun exidx_start :: "interface_kind \<Rightarrow> u64 \<Rightarrow> u64 \<Rightarrow> phdr list \<Rightarrow> u64" where
  "exidx_start kind bias d [] = d"
| "exidx_start kind bias d (h # hs) =
     exidx_start kind (if is_first_code h then ph_vaddr h else bias) (if is_exidx kind h then ph_vaddr h - bias else d) hs"

definition headers_effect :: "phdr list \<Rightarrow> elf_interface \<times> u64 \<Rightarrow> elf_interface \<times> u64" where
  "headers_effect hs p = (case p of (s, bias) \<Rightarrow>
     (s\<lparr>ei_pt_loads := ei_pt_loads s ++ segments hs,
        ei_dynamic_offset := of_last (\<lambda>h. ph_type h = PT_DYNAMIC) ph_offset (ei_dynamic_offset s) hs,
        ei_dynamic_size := of_last (\<lambda>h. ph_type h = PT_DYNAMIC) ph_memsz (ei_dynamic_size s) hs,
        ei_eh_frame_offset := of_last (\<lambda>h. ph_type h = PT_GNU_EH_FRAME) ph_offset (ei_eh_frame_offset s) hs,
        ei_eh_frame_size := of_last (\<lambda>h. ph_type h = PT_GNU_EH_FRAME) ph_memsz (ei_eh_frame_size s) hs,
        ei_start_offset := exidx_start (ei_kind s) bias (ei_start_offset s) hs,
        ei_total_entries := of_last (is_exidx (ei_kind s)) (\<lambda>h. ph_memsz h div 8) (ei_total_entries s) hs\<rparr>,
      of_last is_first_code ph_vaddr bias hs))"

lemma read_phdr:
  assumes "holds_phdr (kind_class (ei_kind s)) (ei_memory s) offset h"
  shows "on_interface (ei_field P_type offset) (s, bias) = (Ret (ph_type h), s, bias)"
    and "on_interface (ei_field P_flags offset) (s, bias) = (Ret (ph_flags h), s, bias)"
    and "on_interface (ei_field P_offset offset) (s, bias) = (Ret (ph_offset h), s, bias)"
    and "on_interface (ei_field P_vaddr offset) (s, bias) = (Ret (ph_vaddr h), s, bias)"
    and "on_interface (ei_field P_memsz offset) (s, bias) = (Ret (ph_memsz h), s, bias)"
    and "HandleType offset (ph_type h) bias s = (if is_exidx (ei_kind s) h
       then (Ret True, s\<lparr>ei_start_offset := ph_vaddr h - bias, ei_total_entries := ph_memsz h div 8\<rparr>) else (Ret False, s))"
  using assms by (auto simp: holds_phdr_def on_interface_def on_part_def ei_field_def HandleType_def is_exidx_def)

lemma program_header_effect:
  assumes "holds_phdr (kind_class (ei_kind s)) (ei_memory s) offset h"
  shows "program_header offset (s, bias) = (Ret (), headers_effect [h] (s, bias))"
proof -
  note types = PT_LOAD_def PT_DYNAMIC_def PT_GNU_EH_FRAME_def PT_ARM_EXIDX_def
  have h: "rbind (\<lambda>p. on_interface (HandleType offset t (snd p)) p) k (s, bias) = (if is_exidx (ei_kind s) h
       then k True (s\<lparr>ei_start_offset := ph_vaddr h - bias, ei_total_entries := ph_memsz h div 8\<rparr>, bias) else k False (s, bias))"
    if "t = ph_type h" for t and k :: "bool \<Rightarrow> (elf_interface \<times> u64, unit) op"
    using that read_phdr(6) [OF assms] by (simp add: on_interface_def on_part_def rbind_def)
  note reads = read_phdr(1-5) [OF assms] h
  show ?thesis
  proof (cases "is_exidx (ei_kind s) h")
    case True
    then have "ph_type h = PT_ARM_EXIDX" by (simp add: is_exidx_def)
    then show ?thesis
      using True by (simp add: program_header_def reads rret_def headers_effect_def segments_def is_code_def is_first_code_def types)
  next
    case False
    have i: "on_interface (rbind (ei_field P_offset offset) (\<lambda>off. rbind (modify (f off)) (\<lambda>_.
        rbind (ei_field P_memsz offset) (\<lambda>memsz. modify (g memsz))))) (s, bias) = (Ret (), g (ph_memsz h) (f (ph_offset h) s), bias)"
      if "\<And>off. ei_kind (f off s) = ei_kind s \<and> ei_memory (f off s) = ei_memory s" for f g
      using assms that by (simp add: holds_phdr_def on_interface_def on_part_def ei_field_def modify_def)
    consider "ph_type h = PT_LOAD" | "ph_type h = PT_GNU_EH_FRAME" | "ph_type h = PT_DYNAMIC"
      | "ph_type h \<notin> {PT_LOAD, PT_GNU_EH_FRAME, PT_DYNAMIC}" by blast
    then show ?thesis
    proof cases
      case 1
      then show ?thesis
        using False by (simp add: program_header_def reads rret_def modify_def headers_effect_def segments_def is_code_def is_first_code_def types)
    next
      case 2
      then show ?thesis
        using False by (simp add: program_header_def reads i headers_effect_def segments_def is_code_def is_first_code_def types)
    next
      case 3
      then show ?thesis
        using False by (simp add: program_header_def reads i headers_effect_def segments_def is_code_def is_first_code_def types)
    next
      case 4
      then show ?thesis
        using False by (simp add: program_header_def reads rret_def headers_effect_def segments_def is_code_def is_first_code_def types)
    qed
  qed
qed

lemma headers_effect_Nil: "headers_effect [] p = p"
  by (cases p) (simp add: headers_effect_def segments_def)

lemma headers_effect_Cons: "headers_effect (h # hs) p = headers_effect hs (headers_effect [h] p)"
proof -
  have "segments (h # hs) = segments [h] ++ segments hs" by (simp add: segments_def)
  then show ?thesis by (cases p) (simp add: headers_effect_def)
qed

lemma headers_effect_frame [simp]:
  "ei_kind (fst (headers_effect hs p)) = ei_kind (fst p)" "ei_memory (fst (headers_effect hs p)) = ei_memory (fst p)"
  by (simp_all add: headers_effect_def split: prod.split)

lemma program_headers_effect:
  assumes "\<And>i. i < length hs \<Longrightarrow> holds_phdr (kind_class (ei_kind (fst p))) (ei_memory (fst p)) (offset + of_nat i * entsize) (hs ! i)"
  shows "program_headers entsize (length hs) offset p = (Ret (), headers_effect hs p)"
  using assms
proof (induction hs arbitrary: offset p)
  case Nil
  then show ?case by (simp add: rret_def headers_effect_Nil)
next
  case (Cons h hs)
  have "program_header offset p = (Ret (), headers_effect [h] p)"
    using program_header_effect [of "fst p" offset h "snd p"] Cons.prems [of 0] by simp
  moreover have "holds_phdr (kind_class (ei_kind (fst p))) (ei_memory (fst p)) (offset + entsize + of_nat i * entsize) (hs ! i)"
    if "i < length hs" for i
    using Cons.prems [of "Suc i"] that by (simp add: algebra_simps)
  ultimately show ?case using Cons.IH [of "headers_effect [h] p" "offset + entsize"] by (simp add: headers_effect_Cons [of h hs])
qed

text \<open>C12. When the program headers can be read, \<open>ReadProgramHeaders\<close> returns true and leaves in the interface: the executable segments by their
  offset, the last one with an offset winning; offset and size of the last \<open>PT_GNU_EH_FRAME\<close> and \<open>PT_DYNAMIC\<close>; on ARM the number
  of entries and the start of the last index, which is relative to the load bias that the headers before it gave. The load bias is the
  address of the last executable segment at offset 0.
\<close>

theorem ReadProgramHeaders_effect:
  assumes "unat (the_field (kind_class (ei_kind s)) E_phnum ehdr) = length hs"
    and "\<And>i. i < length hs \<Longrightarrow> holds_phdr (kind_class (ei_kind s)) (ei_memory s)
      (the_field (kind_class (ei_kind s)) E_phoff ehdr + of_nat i * the_field (kind_class (ei_kind s)) E_phentsize ehdr) (hs ! i)"
  shows "ReadProgramHeaders ehdr (s, bias) = (Ret (), headers_effect hs (s, bias))"
  using program_headers_effect [of hs "(s, bias)"] assms by (simp add: ReadProgramHeaders_def)

text \<open>The header of the ARM index comes before the segment with the load bias 0x4000: the start of the index is taken to be at 0x5000.\<close>

definition sample_phdrs :: "u8 list" where
  "sample_phdrs =
     [0x01, 0, 0, 0x70, 0, 0, 0, 0, 0, 0x50, 0, 0, 0, 0, 0, 0, 0, 0, 0, 0, 0x10, 0, 0, 0, 4, 0, 0, 0, 0, 0, 0, 0,
      0x01, 0, 0, 0, 0, 0, 0, 0, 0, 0x40, 0, 0, 0, 0, 0, 0, 0, 0, 0, 0, 0, 0x20, 0, 0, 5, 0, 0, 0, 0, 0, 0, 0]"

definition sample_ehdr :: "u8 list" where
  "sample_ehdr = replicate 42 0 @ [32, 0, 2, 0] @ replicate 6 0"

lemma ReadProgramHeaders_effect_witness:
  "let (r, s, load_bias) = ReadProgramHeaders sample_ehdr (new_ElfInterface InterfaceArm (MemoryBuffer sample_phdrs), 0) in
   r = Ret () \<and> load_bias = 0x4000 \<and> ei_start_offset s = 0x5000 \<and> ei_total_entries s = 2 \<and>
   ei_pt_loads s 0 = Some \<lparr>li_offset = 0, li_table_offset = 0x4000, li_table_size = 0x2000\<rparr>"
proof -
  let ?hs = "[\<lparr>ph_type = PT_ARM_EXIDX, ph_flags = 4, ph_offset = 0, ph_vaddr = 0x5000, ph_memsz = 0x10\<rparr>,
    \<lparr>ph_type = PT_LOAD, ph_flags = 5, ph_offset = 0, ph_vaddr = 0x4000, ph_memsz = 0x2000\<rparr>]"
  let ?s = "new_ElfInterface InterfaceArm (MemoryBuffer sample_phdrs)"
  have s: "ei_kind ?s = InterfaceArm" "ei_memory ?s = MemoryBuffer sample_phdrs" by (simp_all add: new_ElfInterface_def)
  have zeros: "replicate 4 (0 :: u8) = [0, 0, 0, 0]" by (simp add: numeral_eq_Suc)
  have e: "the_field Elf32 E_phnum sample_ehdr = 2" "the_field Elf32 E_phentsize sample_ehdr = 32" "the_field Elf32 E_phoff sample_ehdr = 0"
    by (simp_all add: the_field_def field_at_def sample_ehdr_def zeros)
  have "holds_phdr Elf32 (MemoryBuffer sample_phdrs) 0 (?hs ! 0)" "holds_phdr Elf32 (MemoryBuffer sample_phdrs) 32 (?hs ! 1)"
    by (simp_all add: holds_phdr_def read_field_def mem_ReadField_def MemoryBuffer_Read_def add_overflow_def sample_phdrs_def PT_ARM_EXIDX_def PT_LOAD_def)
  then have "ReadProgramHeaders sample_ehdr (?s, 0) = (Ret (), headers_effect ?hs (?s, 0))"
    by (intro ReadProgramHeaders_effect) (auto simp: s e less_Suc_eq)
  then show ?thesis
    by (simp add: headers_effect_def new_ElfInterface_def segments_def is_code_def is_first_code_def is_exidx_def
      PT_ARM_EXIDX_def PT_LOAD_def PT_DYNAMIC_def PT_GNU_EH_FRAME_def PF_X_def)
qed

end
