(* ===== verification/Elf.thy ===== *)
theory Elf
  imports ElfInterface Maps
begin

text \<open>
  \<open>Elf\<close> (\<open>Elf.h\<close>, \<open>Elf.cpp\<close>) and \<open>MapInfo\<close> (\<open>MapInfo.h\<close>, \<open>MapInfo.cpp\<close>): an ELF object with its interface and the one of its
  compressed debug data, and the creation of the object for a map, which is done once and kept in the map.
\<close>

section \<open>What the code is given\<close>

text \<open>The system calls, the two uses of \<open>std::sort\<close>, the iteration order of the unordered map of register locations, the XZ
  library, and the value of the variable \<open>load_bias\<close> that \<open>InitGnuDebugdata\<close> does not initialise.\<close>

record 'x unwind_env =
  env_os :: os
  env_symbol_sort :: "sym_info list \<Rightarrow> sym_info list"
  env_fde_sort :: fde_sort
  env_order :: "dwarf_loc_regs \<Rightarrow> u16 list"
  env_xz :: "'x xz_lib"
  env_load_bias :: u64

section \<open>Elf\<close>

text \<open>\<open>machine_type_\<close> and \<open>class_type_\<close> are \<open>None\<close> until they are first set.\<close>

record elf = elf_base +
  elf_interface :: "elf_interface option"
  elf_machine_type :: "u32 option"
  elf_class_type :: "u8 option"
  elf_gnu_debugdata_memory :: "memory option"
  elf_gnu_debugdata_interface :: "elf_interface option"

definition new_Elf :: "memory option \<Rightarrow> elf" where
  "new_Elf m = \<lparr>elf_valid = False, elf_load_bias = 0, elf_memory = m, elf_interface = None, elf_machine_type = None,
     elf_class_type = None, elf_gnu_debugdata_memory = None, elf_gnu_debugdata_interface = None\<rparr>"

definition ELFMAG :: "u8 list" where "ELFMAG = [0x7f, 0x45, 0x4c, 0x46]"
definition EI_CLASS :: u64 where "EI_CLASS = 4"
definition EI_NIDENT :: u64 where "EI_NIDENT = 16"
definition ELFCLASS32 :: u8 where "ELFCLASS32 = 1"
definition ELFCLASS64 :: u8 where "ELFCLASS64 = 2"

definition IsValidElf :: "memory option \<Rightarrow> bool res" where
  "IsValidElf memory =
     (case memory of
        None \<Rightarrow> Ret False
      | Some m \<Rightarrow> (case mem_Read m 0 4 of Ret e_ident \<Rightarrow> Ret (e_ident = ELFMAG) | Fail \<Rightarrow> Ret False | Abort \<Rightarrow> Abort | Undef \<Rightarrow> Undef))"

text \<open>\<open>GetInfo\<close>: the size when the memory is valid.\<close>

definition GetInfo :: "memory \<Rightarrow> u64 option res" where
  "GetInfo m =
     (case IsValidElf (Some m) of
        Ret True \<Rightarrow>
          (case mem_Read m EI_CLASS 1 of
             Ret bs \<Rightarrow>
               if hd bs = ELFCLASS32 then map_res Some (GetMaxSize Elf32 m 0)
               else if hd bs = ELFCLASS64 then map_res Some (GetMaxSize Elf64 m 0)
               else Ret None
           | Fail \<Rightarrow> Ret (Some 0) | Abort \<Rightarrow> Abort | Undef \<Rightarrow> Undef)
      | Ret False \<Rightarrow> Ret None
      | Fail \<Rightarrow> Fail | Abort \<Rightarrow> Abort | Undef \<Rightarrow> Undef)"

text \<open>\<open>CreateInterfaceFromMemory\<close>; \<open>Fail\<close> stands for the null pointer.\<close>

definition read_machine :: "memory \<Rightarrow> (elf, u32) op" where
  "read_machine m e = (map_res (\<lambda>bs. ucast (le_word bs :: u16)) (mem_Read m (EI_NIDENT + 2) 2), e)"

definition CreateInterfaceFromMemory :: "memory option \<Rightarrow> (elf, elf_interface) op" where
  "CreateInterfaceFromMemory memory =
     rbind (\<lambda>e. (IsValidElf memory, e)) (\<lambda>valid.
     case memory of
       None \<Rightarrow> rfail
     | Some m \<Rightarrow>
         if \<not> valid then rfail
         else
           rbind (\<lambda>e. (map_res hd (mem_Read m EI_CLASS 1), e)) (\<lambda>class_type.
           rbind (modify (\<lambda>e. e\<lparr>elf_class_type := Some class_type\<rparr>)) (\<lambda>_.
           if class_type = ELFCLASS32 then
             rbind (read_machine m) (\<lambda>e_machine.
             if e_machine \<noteq> EM_ARM \<and> e_machine \<noteq> EM_386 then rfail
             else
               rbind (modify (\<lambda>e. e\<lparr>elf_machine_type := Some e_machine\<rparr>)) (\<lambda>_.
               rret (new_ElfInterface (if e_machine = EM_ARM then InterfaceArm else Interface32) m)))
           else if class_type = ELFCLASS64 then
             rbind (read_machine m) (\<lambda>e_machine.
             if e_machine \<noteq> EM_AARCH64 \<and> e_machine \<noteq> EM_X86_64 then rfail
             else
               rbind (modify (\<lambda>e. e\<lparr>elf_machine_type := Some e_machine\<rparr>)) (\<lambda>_.
               rret (new_ElfInterface Interface64 m)))
           else rfail)))"

text \<open>\<open>Init\<close> and then \<open>InitHeaders\<close> of a new interface, started with a load bias; \<open>Fail\<close> when \<open>Init\<close> fails. The load bias is
  returned in both cases.\<close>

definition init_interface :: "fde_sort \<Rightarrow> elf_interface \<Rightarrow> u64 \<Rightarrow> (elf_interface res \<times> u64) option" where
  "init_interface std_sort i load_bias =
     (case ElfInterface_Init (i, load_bias) of
        (Ret _, i, load_bias) \<Rightarrow>
          map_option (\<lambda>(r, i). (case r of Ret _ \<Rightarrow> Ret i | Fail \<Rightarrow> Fail | Abort \<Rightarrow> Abort | Undef \<Rightarrow> Undef, load_bias)) (InitHeaders std_sort i)
      | (Fail, i, load_bias) \<Rightarrow> Some (Fail, load_bias)
      | (Abort, i, load_bias) \<Rightarrow> Some (Abort, load_bias)
      | (Undef, i, load_bias) \<Rightarrow> Some (Undef, load_bias))"

definition InitGnuDebugdata :: "'x unwind_env \<Rightarrow> (elf, unit) dop" where
  "InitGnuDebugdata env e =
     (if \<not> elf_valid e then Some (Ret (), e)
      else
        case elf_interface e of
          None \<Rightarrow> Some (Undef, e)
        | Some i \<Rightarrow>
            if ei_gnu_debugdata_offset i = 0 then Some (Ret (), e)
            else
              case dtry (CreateGnuDebugdataMemory (env_xz env)) i of
                None \<Rightarrow> None
              | Some (Ret m, i) \<Rightarrow>
                  dbind (dtry (total (CreateInterfaceFromMemory m))) (\<lambda>gnu e.
                    let e = e\<lparr>elf_gnu_debugdata_interface := gnu\<rparr> in
                    case gnu of
                      None \<Rightarrow> Some (Ret (), e)
                    | Some gnu \<Rightarrow>
                        (case init_interface (env_fde_sort env) gnu (env_load_bias env) of
                           None \<Rightarrow> None
                         | Some (Ret gnu, _) \<Rightarrow> Some (Ret (), e\<lparr>elf_gnu_debugdata_interface := Some gnu\<rparr>)
                         | Some (Fail, _) \<Rightarrow>
                             Some (Ret (), e\<lparr>elf_gnu_debugdata_memory := None, elf_gnu_debugdata_interface := None\<rparr>)
                         | Some (Abort, _) \<Rightarrow> Some (Abort, e)
                         | Some (Undef, _) \<Rightarrow> Some (Undef, e)))
                    (e\<lparr>elf_interface := Some i, elf_gnu_debugdata_memory := m\<rparr>)
              | Some (r, i) \<Rightarrow> Some (map_res (\<lambda>_. ()) r, e))"

definition Elf_Init :: "'x unwind_env \<Rightarrow> bool \<Rightarrow> (elf, unit) dop" where
  "Elf_Init env init_gnu_debugdata e0 =
     (let e = e0\<lparr>elf_load_bias := 0\<rparr> in
      case elf_memory e of
        None \<Rightarrow> Some (Fail, e)
      | Some m \<Rightarrow>
          dbind (dtry (total (CreateInterfaceFromMemory (Some m)))) (\<lambda>i e.
            let e = e\<lparr>elf_interface := i\<rparr> in
            case i of
              None \<Rightarrow> Some (Fail, e)
            | Some i \<Rightarrow>
                (case init_interface (env_fde_sort env) i 0 of
                   None \<Rightarrow> None
                 | Some (Ret i, load_bias) \<Rightarrow>
                     (let e = e\<lparr>elf_load_bias := load_bias, elf_valid := True, elf_interface := Some i\<rparr> in
                      if init_gnu_debugdata then InitGnuDebugdata env e
                      else Some (Ret (), e\<lparr>elf_gnu_debugdata_interface := None\<rparr>))
                 | Some (Fail, load_bias) \<Rightarrow>
                     Some (Fail, e\<lparr>elf_load_bias := load_bias, elf_valid := False, elf_interface := None\<rparr>)
                 | Some (Abort, _) \<Rightarrow> Some (Abort, e)
                 | Some (Undef, _) \<Rightarrow> Some (Undef, e))) e)"

text \<open>A call of the interface, and of the interface of the debug data, which may be absent. With no interface the first is a
  call through the null pointer.\<close>

definition set_interface :: "elf_interface \<Rightarrow> elf \<Rightarrow> elf" where
  "set_interface i e = e\<lparr>elf_interface := Some i\<rparr>"

definition set_gnu_debugdata_interface :: "elf_interface \<Rightarrow> elf \<Rightarrow> elf" where
  "set_gnu_debugdata_interface i e = e\<lparr>elf_gnu_debugdata_interface := Some i\<rparr>"

definition Elf_GetSoname :: "(elf, u8 list) dop" where
  "Elf_GetSoname e = (if elf_valid e then on_pointer elf_interface set_interface Undef (total GetSoname) e else Some (Fail, e))"

definition Elf_GetFunctionName :: "'x unwind_env \<Rightarrow> u64 \<Rightarrow> (elf, u8 list \<times> u64) dop" where
  "Elf_GetFunctionName env addr e =
     (if elf_valid e then
        (let f = ElfInterface_GetFunctionName (env_symbol_sort env) addr (elf_load_bias e) in
         dor (on_pointer elf_interface set_interface Undef f)
             (on_pointer elf_gnu_debugdata_interface set_gnu_debugdata_interface Fail f) e)
      else Some (Fail, e))"

text \<open>The step, on the object and the registers; the result is \<open>*finished\<close>.\<close>

definition Elf_Step :: "'x unwind_env \<Rightarrow> u64 \<Rightarrow> u64 \<Rightarrow> memory \<Rightarrow> (elf \<times> machine_regs, bool) dop" where
  "Elf_Step env rel_pc elf_offset process_memory p =
     (if \<not> elf_valid (fst p) then Some (Fail, p)
      else
        case StepIfSignalHandler (rel_pc + elf_offset) (fst p) process_memory (snd p) of
          (Ret _, regs) \<Rightarrow> Some (Ret False, fst p, regs)
        | (Abort, regs) \<Rightarrow> Some (Abort, fst p, regs)
        | (Undef, regs) \<Rightarrow> Some (Undef, fst p, regs)
        | (Fail, regs) \<Rightarrow>
            if rel_pc < elf_load_bias (fst p) then Some (Fail, fst p, regs)
            else
              let step = Interface_Step (env_order env) (rel_pc - elf_load_bias (fst p)) process_memory in
              dor (on_pointer (get_beside elf_interface) (put_beside set_interface) Undef step)
                  (on_pointer (get_beside elf_gnu_debugdata_interface) (put_beside set_gnu_debugdata_interface) Fail step)
                  (fst p, regs))"

section \<open>MapInfo\<close>

text \<open>A map with the members \<open>elf\<close> and \<open>elf_offset\<close>. The second is not initialised in a new map.\<close>

record map_object = map_info +
  map_elf :: "elf option"
  map_elf_offset :: "u64 option"

definition new_map_object :: "map_info \<Rightarrow> map_object" where
  "new_map_object mi = map_info.extend mi \<lparr>map_elf = None, map_elf_offset = None\<rparr>"

text \<open>\<open>GetRelPc\<close>; the offset must have been set.\<close>

definition GetRelPc :: "u64 \<Rightarrow> map_object \<Rightarrow> elf \<Rightarrow> u64 res" where
  "GetRelPc pc mi e =
     (case map_elf_offset mi of None \<Rightarrow> Undef | Some elf_offset \<Rightarrow> Ret (pc - map_start mi + elf_load_bias e + elf_offset))"

text \<open>The functions that create the memory return \<open>Fail\<close> for the null pointer. The state of \<open>GetFileMemory\<close> is the object \<open>memory\<close> with the
  map.\<close>

definition file_init :: "os \<Rightarrow> u64 \<Rightarrow> u64 \<Rightarrow> (mapped_file \<times> map_object, bool) op" where
  "file_init sys offset sz p =
     (case MemoryFileAtOffset_Init sys (map_name (snd p)) offset sz (fst p) of
        (Ret _, f) \<Rightarrow> (Ret True, f, snd p)
      | (Fail, f) \<Rightarrow> (Ret False, f, snd p)
      | (Abort, f) \<Rightarrow> (Abort, f, snd p)
      | (Undef, f) \<Rightarrow> (Undef, f, snd p))"

definition file_memory :: "(mapped_file \<times> map_object, memory) op" where
  "file_memory p = (Ret (MemoryFileAtOffset (fst p)), p)"

definition embedded_memory :: "os \<Rightarrow> u64 \<Rightarrow> u64 \<Rightarrow> (mapped_file \<times> map_object, memory) op" where
  "embedded_memory sys offset map_size =
     rbind (file_init sys offset map_size) (\<lambda>ok.
     if \<not> ok then rfail
     else
       rbind (\<lambda>p. (GetInfo (MemoryFileAtOffset (fst p)), p)) (\<lambda>info.
       case info of
         None \<Rightarrow>
           rbind (file_init sys 0 (-1)) (\<lambda>ok.
           if ok then rbind (modify (map_prod id (\<lambda>mi. mi\<lparr>map_elf_offset := Some offset\<rparr>))) (\<lambda>_. file_memory)
           else rfail)
       | Some max_size \<Rightarrow>
           if max_size > map_size then
             rbind (file_init sys offset max_size) (\<lambda>ok.
             if ok then file_memory
             else rbind (file_init sys offset map_size) (\<lambda>ok. if ok then file_memory else rfail))
           else file_memory))"

definition GetFileMemory :: "os \<Rightarrow> (map_object, memory) op" where
  "GetFileMemory sys mi =
     (let (r, _, mi') =
        (if map_offset mi = 0 then rbind (file_init sys 0 (-1)) (\<lambda>ok. if ok then file_memory else rfail)
         else embedded_memory sys (map_offset mi) (map_end mi - map_start mi)) (new_mapped_file, mi)
      in (r, mi'))"

definition CreateMemory :: "os \<Rightarrow> memory \<Rightarrow> (map_object, memory) op" where
  "CreateMemory sys process_memory mi0 =
     (if map_end mi0 \<le> map_start mi0 then (Fail, mi0)
      else
        let mi = mi0\<lparr>map_elf_offset := Some 0\<rparr>;
            rest = (\<lambda>mi. if map_flags mi AND PROT_READ = 0 then (Fail, mi)
                        else (new_MemoryRange process_memory (map_start mi) (map_end mi), mi)) in
        if map_flags mi AND MAPS_FLAGS_DEVICE_MAP \<noteq> 0 then (Fail, mi)
        else if map_name mi \<noteq> [] then
          (case GetFileMemory sys mi of (Fail, mi) \<Rightarrow> rest mi | q \<Rightarrow> q)
        else rest mi)"

text \<open>\<open>GetElf\<close>: the result of \<open>Init\<close> is ignored.\<close>

definition GetElf :: "'x unwind_env \<Rightarrow> memory \<Rightarrow> bool \<Rightarrow> (map_object, elf) dop" where
  "GetElf env process_memory init_gnu_debugdata mi =
     (case map_elf mi of
        Some e \<Rightarrow> Some (Ret e, mi)
      | None \<Rightarrow>
          dbind (dtry (total (CreateMemory (env_os env) process_memory))) (\<lambda>m mi.
            case dtry (Elf_Init env init_gnu_debugdata) (new_Elf m) of
              None \<Rightarrow> None
            | Some (Ret _, e) \<Rightarrow> Some (Ret e, mi\<lparr>map_elf := Some e\<rparr>)
            | Some (Fail, e) \<Rightarrow> Some (Fail, mi)
            | Some (Abort, e) \<Rightarrow> Some (Abort, mi)
            | Some (Undef, e) \<Rightarrow> Some (Undef, mi)) mi)"

end
