(* ===== verification/Elf_Valid.thy ===== *)
theory Elf_Valid
  imports Elf
begin

text \<open>
  The members \<open>valid_\<close> and \<open>interface_\<close> of an \<open>Elf\<close>: a valid object has an interface, so no operation calls through the null pointer.
\<close>

definition elf_state :: "elf \<Rightarrow> bool \<times> bool" where
  "elf_state e = (elf_valid e, elf_interface e = None)"

definition elf_ok :: "elf \<Rightarrow> bool" where
  "elf_ok e \<longleftrightarrow> (elf_valid e \<longleftrightarrow> elf_interface e \<noteq> None)"

lemma elf_ok_state: "elf_state e' = elf_state e \<Longrightarrow> elf_ok e' = elf_ok e"
  by (simp add: elf_state_def elf_ok_def)

lemma CreateInterface_keeps: "keeps elf_state (CreateInterfaceFromMemory m)"
proof (cases m)
  case None
  then show ?thesis by (simp add: CreateInterfaceFromMemory_def keeps_def rbind_def rfail_def split: res.split)
next
  case (Some a)
  have k: "keeps elf_state (\<lambda>e. (q, e))" "keeps elf_state (read_machine a)" "keeps elf_state (modify (\<lambda>e. e\<lparr>elf_class_type := c\<rparr>))"
      "keeps elf_state (modify (\<lambda>e. e\<lparr>elf_machine_type := t\<rparr>))" for q :: "'q res" and c t
    by (simp_all add: keeps_def elf_state_def read_machine_def modify_def)
  show ?thesis unfolding CreateInterfaceFromMemory_def Some option.case by (intro keeps_rules k)
qed

lemma InitGnuDebugdata_state: "dkeeps elf_state (InitGnuDebugdata env)"
proof (rule dkeepsI)
  fix e r e' assume r: "InitGnuDebugdata env e = Some (r, e')"
  note create = dkeepsD [OF dkeeps_dtry [OF dkeeps_total [OF CreateInterface_keeps]]]
  show "elf_state e' = elf_state e"
    using r by (auto simp: InitGnuDebugdata_def dbind_def Let_def elf_state_def split: if_splits option.splits prod.splits res.splits
      dest!: create)
qed

lemma InitGnuDebugdata_not_Fail: "InitGnuDebugdata env e \<noteq> Some (Fail, e')"
  by (auto simp: InitGnuDebugdata_def dbind_def dtry_def Let_def split: if_splits option.splits prod.splits res.splits)

lemma InitGnuDebugdata_result: "InitGnuDebugdata env e = Some (q, e') \<Longrightarrow> q \<noteq> Fail \<and> elf_state e' = elf_state e"
  using InitGnuDebugdata_not_Fail [of env e e'] dkeepsD [OF InitGnuDebugdata_state] by metis

lemma Elf_Init_ok:
  assumes "Elf_Init env g (new_Elf m) = Some (q, e)" and "q = Ret () \<or> q = Fail"
  shows "elf_ok e \<and> (elf_valid e \<longleftrightarrow> q = Ret ())"
proof -
  note create = dkeepsD [OF dkeeps_dtry [OF dkeeps_total [OF CreateInterface_keeps]]]
  show ?thesis
    using assms
    by (auto simp: Elf_Init_def new_Elf_def dbind_def Let_def elf_ok_def elf_state_def split: if_splits option.splits prod.splits res.splits
      dest!: create InitGnuDebugdata_result)
qed

lemma on_interface_state:
  "dkeeps elf_state (on_pointer elf_interface set_interface a f)"
  "dkeeps elf_state (on_pointer elf_gnu_debugdata_interface set_gnu_debugdata_interface a f)"
  by (auto simp: dkeeps_def on_pointer_def set_interface_def set_gnu_debugdata_interface_def elf_state_def split: option.splits)

lemma on_interface_state_beside:
  "dkeeps (\<lambda>p. elf_state (fst p)) (on_pointer (get_beside elf_interface) (put_beside set_interface) a f)"
  "dkeeps (\<lambda>p. elf_state (fst p)) (on_pointer (get_beside elf_gnu_debugdata_interface) (put_beside set_gnu_debugdata_interface) a f)"
  by (auto simp: dkeeps_def on_pointer_def get_beside_def put_beside_def set_interface_def set_gnu_debugdata_interface_def elf_state_def
    split: option.splits)

lemma Elf_operations_state:
  "dkeeps elf_state Elf_GetSoname" "dkeeps elf_state (Elf_GetFunctionName env addr)"
  "dkeeps (\<lambda>p. elf_state (fst p)) (Elf_Step env rel_pc off pm)"
proof -
  note dor = dkeepsD [OF dkeeps_dor [OF on_interface_state]] and dor' = dkeepsD [OF dkeeps_dor [OF on_interface_state_beside]]
  show "dkeeps elf_state Elf_GetSoname" "dkeeps elf_state (Elf_GetFunctionName env addr)"
    by (rule dkeepsI; auto simp: Elf_GetSoname_def Elf_GetFunctionName_def Let_def split: if_splits dest: dkeepsD [OF on_interface_state(1)] dor)+
  show "dkeeps (\<lambda>p. elf_state (fst p)) (Elf_Step env rel_pc off pm)"
    by (rule dkeepsI) (auto simp: Elf_Step_def Let_def split: if_splits prod.splits res.splits dest!: dor')
qed


text \<open>The header of a 64 bit object without program and section headers.\<close>

definition sample_elf_bytes :: "u8 list" where
  "sample_elf_bytes = ELFMAG @ [2] @ replicate 13 0 @ [0x3e, 0] @ replicate 44 0"


end
