(* ===== verification/MapInfo_File.thy ===== *)
theory MapInfo_File
  imports Elf
begin

text \<open>
  The memory that \<open>MapInfo::CreateMemory\<close> makes for a map of a file. There are three cases: the map starts at the start of the file, an ELF
  object is embedded in the file at the offset of the map, or the map is a later part of an ELF file. In all of them an address of
  the map and the offset \<open>elf_offset\<close> give the place in the memory.
\<close>

lemma file_init_window:
  assumes "os_maps sys (map_name mi) contents" and "unat offset < length contents"
  obtains f' where "file_init sys offset sz (f, mi) = (Ret True, f', mi)"
    and "maps_window f' contents (unat offset) (min (unat sz) (length contents - unat offset))"
  using MemoryFileAtOffset_Init_window [OF assms, of sz f] by (auto simp: file_init_def)

lemma file_init_whole:
  assumes "os_maps sys (map_name mi) contents" and "0 < length contents"
  obtains f' where "file_init sys 0 (-1) (f, mi) = (Ret True, f', mi)" and "maps_window f' contents 0 (length contents)"
proof -
  have "min (unat (-1 :: u64)) (length contents - unat (0 :: u64)) = length contents"
    using assms(1) by (simp add: os_maps_def unsigned_minus_1_eq_mask mask_eq_exp_minus_1)
  then show ?thesis using file_init_window [OF assms(1), of 0 "-1" f] assms(2) that by auto
qed

text \<open>The only way for \<open>GetInfo\<close> not to return on a mapped file is the overflow of the product in \<open>GetMaxSize\<close>.\<close>

lemma GetInfo_window:
  assumes "maps_window f contents first len"
  shows "GetInfo (MemoryFileAtOffset f) = Undef \<or> is_Ret (GetInfo (MemoryFileAtOffset f))"
proof -
  have r: "(\<exists>bs. mem_Read (MemoryFileAtOffset f) a n = Ret bs) \<or> mem_Read (MemoryFileAtOffset f) a n = Fail" for a n
    using maps_window_Read [OF assms, of a n] by simp
  have m: "is_Ret (GetMaxSize C (MemoryFileAtOffset f) 0) \<or> GetMaxSize C (MemoryFileAtOffset f) 0 = Undef" for C
    using r [of 0 "sizeof_ehdr C"] by (auto simp: GetMaxSize_def int_product_def op_defs simp del: mem_Read.simps split: if_splits)
  have "is_Ret (IsValidElf (Some (MemoryFileAtOffset f)))"
    using r [of 0 4] by (auto simp: IsValidElf_def simp del: mem_Read.simps)
  then obtain b where b: "IsValidElf (Some (MemoryFileAtOffset f)) = Ret b" by (cases "IsValidElf (Some (MemoryFileAtOffset f))") auto
  have ms: "map_res Some (GetMaxSize C (MemoryFileAtOffset f) 0) = Undef \<or> is_Ret (map_res Some (GetMaxSize C (MemoryFileAtOffset f) 0))" for C
    using m [of C] by (cases "GetMaxSize C (MemoryFileAtOffset f) 0") simp_all
  show ?thesis using b r [of EI_CLASS 1] ms [of Elf32] ms [of Elf64] by (cases b) (auto simp: GetInfo_def simp del: mem_Read.simps split: if_splits)
qed

text \<open>A window on the file that has the part of the file from the offset of the map on, up to the size of the map.\<close>

definition shows_map :: "map_object \<Rightarrow> u8 list \<Rightarrow> u64 \<Rightarrow> memory \<Rightarrow> bool" where
  "shows_map mi contents elf_offset m \<longleftrightarrow>
     (\<exists>f first len. m = MemoryFileAtOffset f \<and> maps_window f contents first len \<and> first + unat elf_offset = unat (map_offset mi) \<and>
       unat elf_offset + min (unat (map_end mi - map_start mi)) (length contents - unat (map_offset mi)) \<le> len)"

lemma shows_map_elf_offset [simp]: "shows_map (mi\<lparr>map_elf_offset := x\<rparr>) = shows_map mi"
  by (simp add: shows_map_def fun_eq_iff)

lemma shows_map_Read:
  assumes "shows_map mi contents elf_offset m" and "map_start mi \<le> pc" and "unat (pc - map_start mi) + n \<le> unat (map_end mi - map_start mi)"
    and "unat (map_offset mi) + unat (pc - map_start mi) + n \<le> length contents" and "length contents < 2 ^ 63"
  shows "mem_Read m (pc - map_start mi + elf_offset) n = Ret (take n (drop (unat (map_offset mi) + unat (pc - map_start mi)) contents))"
proof -
  obtain f first len where m: "m = MemoryFileAtOffset f" "maps_window f contents first len" "first + unat elf_offset = unat (map_offset mi)"
      "unat elf_offset + min (unat (map_end mi - map_start mi)) (length contents - unat (map_offset mi)) \<le> len"
    using assms(1) by (auto simp: shows_map_def)
  have "unat (pc - map_start mi + elf_offset) = unat (pc - map_start mi) + unat elf_offset"
    using assms(4,5) m(3) by (simp add: unat_word_ariths)
  then have "first + unat (pc - map_start mi + elf_offset) = unat (map_offset mi) + unat (pc - map_start mi)"
      "unat (pc - map_start mi + elf_offset) + n \<le> len"
    using m(3,4) assms(3,4) by simp_all
  then show ?thesis using maps_window_Read [OF m(2), of "pc - map_start mi + elf_offset" n] m(1) by simp
qed

text \<open>The three cases of \<open>GetFileMemory\<close>.\<close>

lemma embedded_memory_shows:
  assumes sys: "os_maps sys (map_name mi) contents" and off: "unat (map_offset mi) < length contents" and "map_elf_offset mi = Some 0"
  shows "case embedded_memory sys (map_offset mi) (map_end mi - map_start mi) (f, mi) of
      (Ret m, f', mi') \<Rightarrow> \<exists>eo. mi' = mi\<lparr>map_elf_offset := Some eo\<rparr> \<and> shows_map mi contents eo m
    | (Undef, p) \<Rightarrow> True
    | (q, p) \<Rightarrow> False"
proof -
  let ?sz = "map_end mi - map_start mi"
  have keep: "mi\<lparr>map_elf_offset := Some 0\<rparr> = mi" using assms(3) by simp
  obtain f1 where f1: "file_init sys (map_offset mi) ?sz (f, mi) = (Ret True, f1, mi)"
      "maps_window f1 contents (unat (map_offset mi)) (min (unat ?sz) (length contents - unat (map_offset mi)))"
    using file_init_window [OF sys off] by blast
  have "0 < length contents" "length contents < 2 ^ 63" using off sys by (auto simp: os_maps_def)
  then obtain f2 where f2: "file_init sys 0 (-1) (f1, mi) = (Ret True, f2, mi)" "maps_window f2 contents 0 (length contents)"
    using file_init_whole [OF sys] by blast
  have win: "shows_map mi contents 0 (MemoryFileAtOffset f')"
    if "maps_window f' contents (unat (map_offset mi)) (min (unat sz) (length contents - unat (map_offset mi)))" "?sz \<le> sz" for f' sz
    using that by (auto simp: shows_map_def word_le_nat_alt min_def)
  have whole: "shows_map mi contents (map_offset mi) (MemoryFileAtOffset f2)"
    using f2(2) off by (auto simp: shows_map_def)
  consider "GetInfo (MemoryFileAtOffset f1) = Undef" | "GetInfo (MemoryFileAtOffset f1) = Ret None"
    | max where "GetInfo (MemoryFileAtOffset f1) = Ret (Some max)"
    using GetInfo_window [OF f1(2)] by (cases "GetInfo (MemoryFileAtOffset f1)") auto
  then show ?thesis
  proof cases
    case 1
    then show ?thesis using f1(1) by (simp add: embedded_memory_def rbind_def)
  next
    case 2
    then show ?thesis using f1(1) f2(1) whole by (auto simp: embedded_memory_def file_memory_def op_defs rbind_def)
  next
    case (3 max)
    obtain f3 where f3: "file_init sys (map_offset mi) max (f1, mi) = (Ret True, f3, mi)"
        "maps_window f3 contents (unat (map_offset mi)) (min (unat max) (length contents - unat (map_offset mi)))"
      using file_init_window [OF sys off] by blast
    show ?thesis
      using 3 f1(1) f3(1) win [OF f1(2)] win [OF f3(2)] keep
      by (cases "?sz < max") (auto simp: embedded_memory_def file_memory_def rbind_def intro!: exI [of _ 0])
  qed
qed

text \<open>C9. For a map of a file that can be mapped, the memory of \<open>CreateMemory\<close> together with \<open>elf_offset\<close> shows the file as the process sees it:
  the bytes at a pc of the map are the bytes of the file behind the offset of the map. This holds for a map of the start of the file, for an
  embedded ELF object and for a later part of an ELF file. \<open>CreateMemory\<close> returns the memory unless the offset is not 0 and the
  size computed from the header of the embedded object overflows, which is undefined.
\<close>

theorem CreateMemory_reads_file:
  assumes sys: "os_maps sys (map_name mi) contents" and off: "unat (map_offset mi) < length contents"
    and "map_name mi \<noteq> []" and "map_start mi < map_end mi" and "map_flags mi AND MAPS_FLAGS_DEVICE_MAP = 0"
  shows "case CreateMemory sys process_memory mi of
      (Ret m, mi') \<Rightarrow> \<exists>eo. mi' = mi\<lparr>map_elf_offset := Some eo\<rparr> \<and>
        (\<forall>pc n. map_start mi \<le> pc \<longrightarrow> unat (pc - map_start mi) + n \<le> unat (map_end mi - map_start mi) \<longrightarrow>
          unat (map_offset mi) + unat (pc - map_start mi) + n \<le> length contents \<longrightarrow>
          mem_Read m (pc - map_start mi + eo) n = Ret (take n (drop (unat (map_offset mi) + unat (pc - map_start mi)) contents)))
    | (Undef, mi') \<Rightarrow> map_offset mi \<noteq> 0
    | (q, mi') \<Rightarrow> False"
proof -
  let ?mi = "mi\<lparr>map_elf_offset := Some 0\<rparr>"
  have n: "length contents < 2 ^ 63" using sys by (simp add: os_maps_def)
  have G: "case GetFileMemory sys ?mi of
      (Ret m, mi') \<Rightarrow> \<exists>eo. mi' = mi\<lparr>map_elf_offset := Some eo\<rparr> \<and> shows_map mi contents eo m
    | (Undef, mi') \<Rightarrow> map_offset mi \<noteq> 0 | (q, mi') \<Rightarrow> False"
  proof (cases "map_offset mi = 0")
    case True
    have "os_maps sys (map_name ?mi) contents" "0 < length contents" using sys off by auto
    then obtain f where "file_init sys 0 (-1) (new_mapped_file, ?mi) = (Ret True, f, ?mi)" "maps_window f contents 0 (length contents)"
      using file_init_whole by blast
    moreover from this(2) have "shows_map mi contents 0 (MemoryFileAtOffset f)" using True by (auto simp: shows_map_def)
    ultimately show ?thesis using True by (auto simp: GetFileMemory_def rbind_def file_memory_def intro!: exI [of _ 0])
  next
    case False
    then show ?thesis
      using embedded_memory_shows [of sys ?mi contents new_mapped_file] sys off
      by (auto simp: GetFileMemory_def split: prod.splits res.splits)
  qed
  have e: "CreateMemory sys process_memory mi = GetFileMemory sys ?mi" if "fst (GetFileMemory sys ?mi) \<noteq> Fail"
    using assms(3-5) that by (auto simp: CreateMemory_def Let_def not_le split: prod.splits res.splits)
  obtain q mi' where q: "GetFileMemory sys ?mi = (q, mi')" by fastforce
  show ?thesis
  proof (cases q)
    case (Ret m)
    then obtain eo where eo: "mi' = mi\<lparr>map_elf_offset := Some eo\<rparr>" "shows_map mi contents eo m" using G q by auto
    then show ?thesis using e q Ret shows_map_Read [OF eo(2) _ _ _ n] by auto
  qed (use G q e in auto)
qed

text \<open>A map at offset 4 of a file that is no ELF object: the memory is the whole file and \<open>elf_offset\<close> is 4.\<close>

definition sample_map :: map_object where
  "sample_map = new_map_object \<lparr>map_start = 0x1000, map_end = 0x1008, map_offset = 4, map_flags = PROT_READ, map_name = ''f''\<rparr>"

lemma CreateMemory_reads_file_witness:
  "\<exists>m. CreateMemory (sample_os [0, 1, 2, 3, 4, 5, 6, 7, 8, 9, 10]) (MemoryBuffer []) sample_map =
     (Ret m, sample_map\<lparr>map_elf_offset := Some 4\<rparr>) \<and> mem_Read m 5 3 = Ret [5, 6, 7]"
proof -
  let ?c = "[0, 1, 2, 3, 4, 5, 6, 7, 8, 9, 10] :: u8 list"
  note defs = sample_map_def new_map_object_def map_info.extend_def MAPS_FLAGS_DEVICE_MAP_def PROT_READ_def
  have m: "os_maps (sample_os ?c) (map_name sample_map) ?c" by (rule sample_os_maps) simp
  have "\<exists>m. CreateMemory (sample_os ?c) (MemoryBuffer []) sample_map = (Ret m, sample_map\<lparr>map_elf_offset := Some 4\<rparr>)"
    by (simp add: CreateMemory_def GetFileMemory_def embedded_memory_def file_init_def MemoryFileAtOffset_Init_def MemoryFileAtOffset_Clear_def
      new_mapped_file_def sample_os_def defs GetInfo_def IsValidElf_def ELFMAG_def MemoryFileAtOffset_Read_def map_copy_def add_overflow_def
      file_memory_def op_defs rbind_def)
  then obtain m' where m': "CreateMemory (sample_os ?c) (MemoryBuffer []) sample_map = (Ret m', sample_map\<lparr>map_elf_offset := Some 4\<rparr>)" ..
  have f: "map_start sample_map = 0x1000" "map_end sample_map = 0x1008" "map_offset sample_map = 4" "map_name sample_map \<noteq> []"
      "map_flags sample_map AND MAPS_FLAGS_DEVICE_MAP = 0"
    by (simp_all add: defs)
  have l: "unat (map_offset sample_map) < length ?c" "map_start sample_map < map_end sample_map" by (simp_all add: f)
  obtain eo where eo: "sample_map\<lparr>map_elf_offset := Some 4\<rparr> = sample_map\<lparr>map_elf_offset := Some eo\<rparr>"
    and r: "\<And>pc n. 0x1000 \<le> pc \<Longrightarrow> unat (pc - 0x1000) + n \<le> unat (0x1008 - 0x1000 :: u64) \<Longrightarrow> unat (4 :: u64) + unat (pc - 0x1000) + n \<le> length ?c \<Longrightarrow>
      mem_Read m' (pc - 0x1000 + eo) n = Ret (take n (drop (unat (4 :: u64) + unat (pc - 0x1000)) ?c))"
    using CreateMemory_reads_file [OF m l(1) f(4) l(2) f(5), of "MemoryBuffer []"] unfolding m' prod.case res.case f by blast
  have "eo = 4" using eo by (simp add: defs)
  then have "mem_Read m' 5 3 = Ret [5, 6, 7]" using r [of "0x1001" 3] by simp
  with m' show ?thesis by blast
qed

end
