(* ===== verification/Unwinder.thy ===== *)
theory Unwinder
  imports Elf
begin

text \<open>
  \<open>Unwinder\<close> (\<open>Unwinder.h\<close>, \<open>Unwinder.cpp\<close>): the loop that collects the frames of a stack, and the text of a frame. The loop need not
  end, so it is a partial function. A pointer to a map is its index in the list of maps.
\<close>

section \<open>Data\<close>

record frame_data =
  fr_num :: nat
  fr_rel_pc :: u64
  fr_pc :: u64
  fr_sp :: u64
  fr_function_name :: "u8 list"
  fr_function_offset :: u64
  fr_map_name :: string
  fr_map_offset :: u64
  fr_map_start :: u64
  fr_map_end :: u64
  fr_map_load_bias :: u64
  fr_map_flags :: int

text \<open>A new element of the vector of frames.\<close>

definition new_frame :: frame_data where
  "new_frame = \<lparr>fr_num = 0, fr_rel_pc = 0, fr_pc = 0, fr_sp = 0, fr_function_name = [], fr_function_offset = 0, fr_map_name = [],
     fr_map_offset = 0, fr_map_start = 0, fr_map_end = 0, fr_map_load_bias = 0, fr_map_flags = 0\<rparr>"

record unwinder =
  un_max_frames :: nat
  un_maps :: "map_object list"
  un_regs :: machine_regs
  un_frames :: "frame_data list"
  un_process_memory :: memory

definition new_Unwinder :: "nat \<Rightarrow> map_object list \<Rightarrow> machine_regs \<Rightarrow> memory \<Rightarrow> unwinder" where
  "new_Unwinder max_frames maps regs process_memory =
     \<lparr>un_max_frames = max_frames, un_maps = maps, un_regs = regs, un_frames = [], un_process_memory = process_memory\<rparr>"

section \<open>Maps of the unwinder\<close>

text \<open>\<open>Find\<close> returns a pointer into the vector of maps: the maps are searched with their indices.\<close>

record map_slot = map_info +
  slot_index :: nat

definition slots :: "map_object list \<Rightarrow> map_slot list" where
  "slots maps = map (\<lambda>(i, m). map_info.extend (map_info.truncate m) \<lparr>slot_index = i\<rparr>) (enumerate 0 maps)"

definition find_map :: "u64 \<Rightarrow> unwinder \<Rightarrow> nat option" where
  "find_map pc u = map_option slot_index (Maps_Find (slots (un_maps u)) pc)"

text \<open>Calls of the members of one map, and of its ELF object.\<close>

definition on_map :: "nat \<Rightarrow> (map_object, 'a) dop \<Rightarrow> (unwinder, 'a) dop" where
  "on_map i = on_dpart (\<lambda>u. un_maps u ! i) (\<lambda>m u. u\<lparr>un_maps := (un_maps u)[i := m]\<rparr>)"

definition on_map_elf :: "nat \<Rightarrow> (elf, 'a) dop \<Rightarrow> (unwinder, 'a) dop" where
  "on_map_elf i f = on_map i (on_pointer map_elf (\<lambda>e m. m\<lparr>map_elf := Some e\<rparr>) Undef f)"

section \<open>FillInFrame\<close>

text \<open>The members set from the map, before the name of the function is looked up.\<close>

definition map_frame :: "map_object \<Rightarrow> elf \<Rightarrow> frame_data \<Rightarrow> frame_data" where
  "map_frame m e fr = fr\<lparr>fr_map_name := map_name m, fr_map_offset := map_offset m, fr_map_start := map_start m,
     fr_map_end := map_end m, fr_map_flags := uint (map_flags m), fr_map_load_bias := elf_load_bias e\<rparr>"

definition push_frame :: "frame_data \<Rightarrow> (unwinder, unit) dop" where
  "push_frame fr = total (modify (\<lambda>u. u\<lparr>un_frames := un_frames u @ [fr]\<rparr>))"

definition FillInFrame :: "'x unwind_env \<Rightarrow> (nat \<times> elf) option \<Rightarrow> u64 \<Rightarrow> bool \<Rightarrow> (unwinder, unit) dop" where
  "FillInFrame env map_info rel_pc adjust_pc u =
     (let fr = new_frame\<lparr>fr_num := length (un_frames u), fr_pc := pc_of (un_regs u), fr_sp := sp_of (un_regs u), fr_rel_pc := rel_pc\<rparr> in
      case map_info of
        None \<Rightarrow> push_frame fr u
      | Some (i, elf) \<Rightarrow>
          dbind (\<lambda>u. Some (if adjust_pc then GetAdjustedPc (un_regs u) rel_pc elf else Ret rel_pc, u)) (\<lambda>adjusted u.
            let fr = map_frame (un_maps u ! i) elf (fr\<lparr>fr_rel_pc := adjusted, fr_pc := fr_pc fr - (rel_pc - adjusted)\<rparr>) in
            dbind (dtry (on_map_elf i (Elf_GetFunctionName env adjusted))) (\<lambda>found.
            push_frame (case found of
                None \<Rightarrow> fr\<lparr>fr_function_name := [], fr_function_offset := 0\<rparr>
              | Some (nm, off) \<Rightarrow> fr\<lparr>fr_function_name := nm, fr_function_offset := off\<rparr>)) u) u)"

section \<open>Unwind\<close>

text \<open>The part of a string after the last occurrence of a character, \<open>None\<close> if it does not occur.\<close>

definition after_last :: "char \<Rightarrow> string \<Rightarrow> string option" where
  "after_last c s = (if c \<in> set s then Some (rev (takeWhile (\<lambda>d. d \<noteq> c) (rev s))) else None)"

definition ShouldStop :: "string list option \<Rightarrow> string \<Rightarrow> bool" where
  "ShouldStop map_suffixes_to_ignore nm =
     (case (map_suffixes_to_ignore, after_last (CHR ''.'') nm) of
        (Some suffixes, Some suffix) \<Rightarrow> suffix \<in> set suffixes
      | _ \<Rightarrow> False)"

text \<open>The \<open>basename\<close> of the GNU library.\<close>

definition basename :: "string \<Rightarrow> string" where
  "basename path = (case after_last (CHR ''/'') path of None \<Rightarrow> path | Some nm \<Rightarrow> nm)"

text \<open>The variables of the loop.\<close>

record loop_vars =
  initial_map_names_to_skip :: "string list option"
  return_address_attempt :: bool
  adjust_pc_next :: bool

text \<open>The parts of one pass through the loop: the lookup of the map (the result is \<open>None\<close> when the loop is left), the frame, and the
  step. The result of the step is \<open>Inl ()\<close> when the last frame is reached, otherwise \<open>stepped\<close> and \<open>in_device_map\<close>.\<close>

definition lookup_map ::
  "'x unwind_env \<Rightarrow> string list option \<Rightarrow> (unwinder, ((nat \<times> elf) option \<times> u64) option) dop" where
  "lookup_map env map_suffixes_to_ignore u =
     (let pc = pc_of (un_regs u) in
      case find_map pc u of
        None \<Rightarrow> Some (Ret (Some (None, pc)), u)
      | Some i \<Rightarrow>
          if ShouldStop map_suffixes_to_ignore (map_name (un_maps u ! i)) then Some (Ret None, u)
          else
            dbind (on_map i (GetElf env (un_process_memory u) True)) (\<lambda>e u.
            dbind (\<lambda>u. Some (GetRelPc pc (un_maps u ! i) e, u)) (\<lambda>rel_pc u. Some (Ret (Some (Some (i, e), rel_pc)), u)) u) u)"

definition skipped :: "string list option \<Rightarrow> (nat \<times> elf) option \<Rightarrow> unwinder \<Rightarrow> bool" where
  "skipped to_skip map_info u =
     (case (map_info, to_skip) of
        (Some (i, _), Some names) \<Rightarrow> basename (c_str (map_name (un_maps u ! i))) \<in> set names
      | _ \<Rightarrow> False)"

definition in_device :: "nat \<Rightarrow> unwinder \<Rightarrow> bool" where
  "in_device i u \<longleftrightarrow> map_flags (un_maps u ! i) AND MAPS_FLAGS_DEVICE_MAP \<noteq> 0"

definition step_elf :: "'x unwind_env \<Rightarrow> nat \<Rightarrow> u64 \<Rightarrow> (unwinder, bool) dop" where
  "step_elf env i rel_pc u =
     (case (map_elf (un_maps u ! i), map_elf_offset (un_maps u ! i)) of
        (Some e, Some elf_offset) \<Rightarrow>
          map_option (\<lambda>(r, e, regs). (r, u\<lparr>un_maps := (un_maps u)[i := (un_maps u ! i)\<lparr>map_elf := Some e\<rparr>], un_regs := regs\<rparr>))
            (Elf_Step env rel_pc elf_offset (un_process_memory u) (e, un_regs u))
      | _ \<Rightarrow> Some (Undef, u))"

definition step_frame :: "'x unwind_env \<Rightarrow> (nat \<times> elf) option \<Rightarrow> u64 \<Rightarrow> (unwinder, unit + bool \<times> bool) dop" where
  "step_frame env map_info rel_pc u =
     (case map_info of
        None \<Rightarrow> Some (Ret (Inr (False, False)), u)
      | Some (i, _) \<Rightarrow>
          if in_device i u \<or> (case find_map (sp_of (un_regs u)) u of None \<Rightarrow> False | Some j \<Rightarrow> in_device j u)
          then Some (Ret (Inr (False, True)), u)
          else
            dbind (dtry (step_elf env i rel_pc)) (\<lambda>r u.
              Some (Ret (case r of None \<Rightarrow> Inr (False, False) | Some finished \<Rightarrow> if finished then Inl () else Inr (True, False)), u)) u)"

text \<open>What follows the step; the result is whether the loop goes on, with the new value of \<open>return_address_attempt\<close>.\<close>

definition pop_frame :: "(unwinder, unit) op" where
  "pop_frame u = (if un_frames u = [] then (Undef, u) else (Ret (), u\<lparr>un_frames := butlast (un_frames u)\<rparr>))"

definition after_step :: "bool \<Rightarrow> bool \<Rightarrow> bool \<Rightarrow> (unwinder, bool option) op" where
  "after_step attempt stepped in_device_map =
     (if stepped then rret (Some False)
      else if attempt then rbind pop_frame (\<lambda>_. rret None)
      else if in_device_map then rret None
      else (\<lambda>u. case SetPcFromReturnAddress (un_process_memory u) (un_regs u) of
              (Ret _, regs) \<Rightarrow> (Ret (Some True), u\<lparr>un_regs := regs\<rparr>)
            | (Fail, regs) \<Rightarrow> (Ret None, u\<lparr>un_regs := regs\<rparr>)
            | (Abort, regs) \<Rightarrow> (Abort, u\<lparr>un_regs := regs\<rparr>)
            | (Undef, regs) \<Rightarrow> (Undef, u\<lparr>un_regs := regs\<rparr>)))"

text \<open>One pass; the result is \<open>None\<close> when the loop is left. The last part compares with \<open>cur_pc\<close> and \<open>cur_sp\<close>, those of the unwinder
  \<open>u0\<close> at the start of the pass.\<close>

definition end_pass ::
  "unwinder \<Rightarrow> loop_vars \<Rightarrow> bool \<Rightarrow> unit + bool \<times> bool \<Rightarrow> (unwinder, loop_vars option) op" where
  "end_pass u0 v skip step =
     (case step of
        Inl _ \<Rightarrow> rret None
      | Inr (stepped, in_device_map) \<Rightarrow>
          rbind (after_step (return_address_attempt v) stepped in_device_map) (\<lambda>next u.
          case next of
            None \<Rightarrow> (Ret None, u)
          | Some attempt \<Rightarrow>
              if pc_of (un_regs u0) = pc_of (un_regs u) \<and> sp_of (un_regs u0) = sp_of (un_regs u) then (Ret None, u)
              else (Ret (Some \<lparr>initial_map_names_to_skip = (if skip then initial_map_names_to_skip v else None),
                     return_address_attempt = attempt, adjust_pc_next = True\<rparr>), u)))"

definition frame_pass ::
  "'x unwind_env \<Rightarrow> unwinder \<Rightarrow> loop_vars \<Rightarrow> (nat \<times> elf) option \<Rightarrow> u64 \<Rightarrow> (unwinder, loop_vars option) dop" where
  "frame_pass env u0 v map_info rel_pc u =
     (let skip = skipped (initial_map_names_to_skip v) map_info u in
      dbind (if skip then total (rret ()) else FillInFrame env map_info rel_pc (adjust_pc_next v)) (\<lambda>_.
      dbind (step_frame env map_info rel_pc) (\<lambda>step.
      total (end_pass u0 v skip step))) u)"

definition unwind_pass ::
  "'x unwind_env \<Rightarrow> string list option \<Rightarrow> loop_vars \<Rightarrow> (unwinder, loop_vars option) dop" where
  "unwind_pass env map_suffixes_to_ignore v u0 =
     dbind (lookup_map env map_suffixes_to_ignore) (\<lambda>found.
       case found of
         None \<Rightarrow> total (rret None)
       | Some (map_info, rel_pc) \<Rightarrow> frame_pass env u0 v map_info rel_pc) u0"

partial_function (option) unwind_loop ::
  "'x unwind_env \<Rightarrow> string list option \<Rightarrow> loop_vars \<Rightarrow> unwinder \<Rightarrow> (unit res \<times> unwinder) option" where
  "unwind_loop env suffixes v u =
     (if length (un_frames u) < un_max_frames u then
        do {
          (r, u) \<leftarrow> unwind_pass env suffixes v u;
          case r of
            Ret None \<Rightarrow> Some (Ret (), u)
          | Ret (Some v) \<Rightarrow> unwind_loop env suffixes v u
          | Fail \<Rightarrow> Some (Fail, u)
          | Abort \<Rightarrow> Some (Abort, u)
          | Undef \<Rightarrow> Some (Undef, u)
        }
      else Some (Ret (), u))"

definition Unwind :: "'x unwind_env \<Rightarrow> string list option \<Rightarrow> string list option \<Rightarrow> (unwinder, unit) dop" where
  "Unwind env to_skip suffixes u =
     unwind_loop env suffixes \<lparr>initial_map_names_to_skip = to_skip, return_address_attempt = False, adjust_pc_next = False\<rparr>
       (u\<lparr>un_frames := []\<rparr>)"

section \<open>FormatFrame\<close>

text \<open>Numbers with at least the given number of digits.\<close>

definition zero_padded :: "nat \<Rightarrow> string \<Rightarrow> string" where
  "zero_padded w s = replicate (w - length s) (CHR ''0'') @ s"

definition frame_map_text :: "frame_data \<Rightarrow> string" where
  "frame_map_text fr =
     (if fr_map_start fr = fr_map_end fr then ''  <unknown>''
      else if fr_map_name fr \<noteq> [] then ''  '' @ fr_map_name fr
      else ''  <anonymous:'' @ hex_digits (unat (fr_map_start fr)) @ ''>'')"

definition frame_function_text :: "frame_data \<Rightarrow> string" where
  "frame_function_text fr =
     (if fr_function_name fr = [] then []
      else '' ('' @ string_of_bytes (fr_function_name fr) @
        (if fr_function_offset fr \<noteq> 0 then ''+'' @ dec_int (sint (fr_function_offset fr)) else []) @ '')'')"

definition FormatFrame_data :: "frame_data \<Rightarrow> bool \<Rightarrow> string" where
  "FormatFrame_data fr bits32 =
     ''  #'' @ zero_padded 2 (dec (fr_num fr)) @ '' pc '' @ zero_padded (if bits32 then 8 else 16) (hex_digits (unat (fr_rel_pc fr))) @
     (if fr_map_offset fr \<noteq> 0 then '' (offset 0x'' @ hex_digits (unat (fr_map_offset fr)) @ '')'' else []) @
     frame_map_text fr @ frame_function_text fr"

definition FormatFrame :: "nat \<Rightarrow> unwinder \<Rightarrow> string" where
  "FormatFrame frame_num u =
     (if frame_num \<ge> length (un_frames u) then []
      else FormatFrame_data (un_frames u ! frame_num) (MachineType (un_regs u) = EM_ARM \<or> MachineType (un_regs u) = EM_386))"

end
