(* ===== verification/Unwinder_Frames.thy ===== *)
theory Unwinder_Frames
  imports Unwinder
begin

text \<open>
  What the unwinder leaves alone and what it builds: the maps, the machine and the memory stay as they are, and the frames are numbered
  and agree with the maps, whatever the unwind information says.
\<close>

section \<open>The machine of the registers\<close>

lemma MachineType_signal: "MachineType (snd (StepIfSignalHandler pc e pm regs)) = MachineType regs"
  by (cases regs) (simp_all split: prod.splits)

lemma MachineType_return: "MachineType (snd (SetPcFromReturnAddress pm regs)) = MachineType regs"
  by (cases regs) (simp_all split: prod.splits)

text \<open>The part of the pair of an object and the registers that is kept.\<close>

abbreviation machine :: "'o \<times> machine_regs \<Rightarrow> u32" where
  "machine p \<equiv> MachineType (snd p)"

lemma machine_section_step: "dkeeps machine (section_step order C pc pm)"
  by (intro dkeepsI) (auto simp: section_step_def split: elf_class.splits machine_regs.splits prod.splits)

lemma machine_StepExidx: "keeps machine (StepExidx pc pm)"
  by (simp add: keeps_def StepExidx_def split: prod.split res.split machine_regs.split)

lemma machine_on_pointer:
  "dkeeps machine f \<Longrightarrow> dkeeps machine (on_pointer (get_beside get) (put_beside put) absent f)"
  by (rule dkeeps_on_pointer) (auto simp: get_beside_def put_beside_def)

lemma machine_ElfInterface_Step: "dkeeps machine (ElfInterface_Step order pc pm)"
proof (rule dkeepsI)
  fix s :: "elf_interface \<times> machine_regs" and r s'
  assume "ElfInterface_Step order pc pm s = Some (r, s')"
  then show "machine s' = machine s"
    unfolding ElfInterface_Step_def Let_def on_eh_frame_def on_debug_frame_def
    by (rule dkeepsD [OF dkeeps_dor [OF machine_on_pointer machine_on_pointer], OF machine_section_step machine_section_step])
qed

lemma machine_Interface_Step: "dkeeps machine (Interface_Step order pc pm)"
  by (rule dkeepsI)
     (auto simp: Interface_Step_def split: if_splits
       dest: dkeepsD [OF machine_ElfInterface_Step]
             dkeepsD [OF dkeeps_dor [OF machine_ElfInterface_Step dkeeps_total [OF machine_StepExidx]]])

lemma machine_Elf_Step: "dkeeps machine (Elf_Step env rel_pc off pm)"
proof (rule dkeepsI)
  fix p :: "elf \<times> machine_regs" and r q
  assume e: "Elf_Step env rel_pc off pm p = Some (r, q)"
  obtain sr regs where s: "StepIfSignalHandler (rel_pc + off) (fst p) pm (snd p) = (sr, regs)" by fastforce
  have m: "MachineType regs = MachineType (snd p)" using MachineType_signal [of "rel_pc + off" "fst p" pm "snd p"] s by simp
  note step = dkeepsD [OF dkeeps_dor [OF machine_on_pointer [OF machine_Interface_Step] machine_on_pointer [OF machine_Interface_Step]]]
  show "machine q = machine p"
    using e s m by (auto simp: Elf_Step_def Let_def split: if_splits res.splits dest: step)
qed

section \<open>The maps\<close>

lemma truncate_map [simp]:
  "map_info.truncate (m\<lparr>map_elf := e\<rparr>) = map_info.truncate m"
  "map_info.truncate (m\<lparr>map_elf_offset := off\<rparr>) = map_info.truncate m"
  by (simp_all add: map_info.defs)

lemma file_init_keeps [keeps_rules]: "keeps (\<lambda>p. map_info.truncate (snd p)) (file_init sys off sz)"
  by (simp add: keeps_def file_init_def split: prod.split res.split)

lemma file_memory_keeps [keeps_rules]: "keeps (\<lambda>p. map_info.truncate (snd p)) file_memory"
  by (simp add: keeps_def file_memory_def)

lemma embedded_memory_keeps: "keeps (\<lambda>p. map_info.truncate (snd p)) (embedded_memory sys off sz)"
  unfolding embedded_memory_def
  by (intro keeps_rules; (simp split: option.split)?; (intro conjI allI impI keeps_rules)?)
     (simp_all add: keeps_def modify_def split: prod.split)

lemma GetFileMemory_keeps [keeps_rules]: "keeps map_info.truncate (GetFileMemory sys)"
proof -
  have 1: "keeps (\<lambda>p. map_info.truncate (snd p)) (rbind (file_init sys 0 (-1)) (\<lambda>ok. if ok then file_memory else rfail))"
    by (intro keeps_rules)
  show ?thesis
    using 1 embedded_memory_keeps
    by (auto simp: keeps_def GetFileMemory_def split: prod.splits if_splits) (metis snd_conv)+
qed

lemma CreateMemory_keeps: "keeps map_info.truncate (CreateMemory sys pm)"
  unfolding keeps_def CreateMemory_def
  using keepsD [OF GetFileMemory_keeps]
  by (auto simp: Let_def split: prod.splits res.splits)

lemma GetElf_keeps: "dkeeps map_info.truncate (GetElf env pm g)"
proof (rule dkeepsI)
  fix m r m'
  assume e: "GetElf env pm g m = Some (r, m')"
  show "map_info.truncate m' = map_info.truncate m"
  proof (cases "map_elf m")
    case (Some x)
    then show ?thesis using e by (simp add: GetElf_def)
  next
    case None
    have "dkeeps map_info.truncate (dbind (dtry (total (CreateMemory (env_os env) pm))) (\<lambda>m mi.
            case dtry (Elf_Init env g) (new_Elf m) of
              None \<Rightarrow> None
            | Some (Ret _, e) \<Rightarrow> Some (Ret e, mi\<lparr>map_elf := Some e\<rparr>)
            | Some (Fail, e) \<Rightarrow> Some (Fail, mi)
            | Some (Abort, e) \<Rightarrow> Some (Abort, mi)
            | Some (Undef, e) \<Rightarrow> Some (Undef, mi)))"
      by (intro dkeeps_dbind dkeeps_dtry dkeeps_total CreateMemory_keeps dkeepsI) (auto split: option.splits prod.splits res.splits)
    from dkeepsD [OF this] e None show ?thesis by (simp add: GetElf_def)
  qed
qed

section \<open>The part of the unwinder that does not change\<close>

definition fixed_part :: "unwinder \<Rightarrow> nat \<times> memory \<times> map_info list \<times> u32" where
  "fixed_part u = (un_max_frames u, un_process_memory u, map map_info.truncate (un_maps u), MachineType (un_regs u))"

lemma map_update_same: "f x = f (xs ! i) \<Longrightarrow> map f (xs[i := x]) = map f xs"
  by (metis list_update_beyond list_update_id map_update not_le nth_map)

lemma on_map_keeps:
  assumes "dkeeps map_info.truncate f"
  shows "dkeeps (\<lambda>u. (fixed_part u, un_frames u)) (on_map i f)"
  unfolding on_map_def by (rule dkeeps_on_dpart [OF assms]) (simp add: fixed_part_def map_update_same)

lemma on_map_elf_keeps: "dkeeps (\<lambda>u. (fixed_part u, un_frames u)) (on_map_elf i f)"
  unfolding on_map_elf_def
  by (intro on_map_keeps dkeeps_on_pointer [where q = "\<lambda>_. ()"]) (simp_all add: dkeeps_def)

lemma lookup_map_keeps: "dkeeps (\<lambda>u. (fixed_part u, un_frames u)) (lookup_map env sfx)"
proof (rule dkeepsI)
  fix u r u'
  assume e: "lookup_map env sfx u = Some (r, u')"
  have k: "dkeeps (\<lambda>u. (fixed_part u, un_frames u)) (dbind (on_map i (GetElf env pm True)) (\<lambda>e u.
      dbind (\<lambda>u. Some (GetRelPc pc (un_maps u ! i) e, u)) (\<lambda>rel_pc u. Some (Ret (Some (Some (i, e), rel_pc)), u)) u))" for i pm pc
    by (intro dkeeps_dbind on_map_keeps GetElf_keeps) (auto simp: dkeeps_def dbind_def split: res.splits)
  show "(fixed_part u', un_frames u') = (fixed_part u, un_frames u)"
    using e by (auto simp: lookup_map_def Let_def split: option.splits if_splits dest: dkeepsD [OF k])
qed

lemma step_elf_keeps: "dkeeps (\<lambda>u. (fixed_part u, un_frames u)) (step_elf env i rel_pc)"
  by (intro dkeepsI)
     (auto simp: step_elf_def fixed_part_def map_update_same dest: dkeepsD [OF machine_Elf_Step] split: option.splits)

lemma step_frame_keeps: "dkeeps (\<lambda>u. (fixed_part u, un_frames u)) (step_frame env mi rel_pc)"
proof (rule dkeepsI)
  fix u r u'
  assume e: "step_frame env mi rel_pc u = Some (r, u')"
  have k: "dkeeps (\<lambda>u. (fixed_part u, un_frames u)) (dbind (dtry (step_elf env i rel_pc)) (\<lambda>r u.
     Some (Ret (case r of None \<Rightarrow> Inr (False, False) | Some finished \<Rightarrow> if finished then Inl () else Inr (True, False)), u)))" for i
    by (intro dkeeps_dbind dkeeps_dtry step_elf_keeps) (auto simp: dkeeps_def)
  show "(fixed_part u', un_frames u') = (fixed_part u, un_frames u)"
    using e by (auto simp: step_frame_def split: option.splits if_splits dest: dkeepsD [OF k])
qed

section \<open>The frames\<close>

text \<open>A frame carries its number, and either no map or the data of one of the maps, which is not empty.\<close>

definition frame_ok :: "map_info list \<Rightarrow> nat \<Rightarrow> frame_data \<Rightarrow> bool" where
  "frame_ok maps i fr \<longleftrightarrow> fr_num fr = i \<and>
     (fr_map_start fr = 0 \<and> fr_map_end fr = 0 \<and> fr_map_name fr = [] \<and> fr_function_name fr = [] \<or>
      (\<exists>m \<in> set maps. map_start m < map_end m \<and> fr_map_start fr = map_start m \<and> fr_map_end fr = map_end m \<and>
        fr_map_name fr = map_name m \<and> fr_map_offset fr = map_offset m \<and> fr_map_flags fr = uint (map_flags m)))"

definition frames_ok :: "map_info list \<Rightarrow> frame_data list \<Rightarrow> bool" where
  "frames_ok maps frs \<longleftrightarrow> (\<forall>i < length frs. frame_ok maps i (frs ! i))"

lemma frames_ok_snoc: "frames_ok maps (frs @ [fr]) \<longleftrightarrow> frames_ok maps frs \<and> frame_ok maps (length frs) fr"
  by (auto simp: frames_ok_def nth_append less_Suc_eq)

lemma frames_ok_butlast: "frames_ok maps frs \<Longrightarrow> frames_ok maps (butlast frs)"
  by (simp add: frames_ok_def nth_butlast)

text \<open>The index that the search returns is one of a map that contains the address.\<close>

lemma find_map_Some:
  assumes "find_map pc u = Some i"
  shows "i < length (un_maps u) \<and> map_start (un_maps u ! i) \<le> pc \<and> pc < map_end (un_maps u ! i)"
proof -
  obtain x where x: "Maps_Find (slots (un_maps u)) pc = Some x" "slot_index x = i" using assms by (auto simp: find_map_def)
  then have "covers map_start map_end pc x \<and> x \<in> set (slots (un_maps u))"
    by (intro map_search.search_Some [of _ _ 0 "length (slots (un_maps u))"]) (auto simp: Maps_Find_def split: if_splits)
  then show ?thesis
    using x(2) by (auto simp: covers_def slots_def in_set_conv_nth nth_enumerate_eq map_info.defs)
qed

text \<open>The map that a lookup returned.\<close>

definition map_ok :: "(nat \<times> elf) option \<Rightarrow> unwinder \<Rightarrow> bool" where
  "map_ok mi u \<longleftrightarrow> (case mi of None \<Rightarrow> True | Some (i, _) \<Rightarrow> i < length (un_maps u) \<and> map_start (un_maps u ! i) < map_end (un_maps u ! i))"

lemma map_ok_fixed_part:
  assumes "fixed_part u' = fixed_part u"
  shows "map_ok mi u' = map_ok mi u"
proof -
  have "length (un_maps u') = length (un_maps u)" "map map_info.truncate (un_maps u') = map map_info.truncate (un_maps u)"
    using assms by (auto simp: fixed_part_def dest: map_eq_imp_length_eq)
  moreover from this have "map_start (un_maps u' ! i) = map_start (un_maps u ! i) \<and> map_end (un_maps u' ! i) = map_end (un_maps u ! i)"
    if "i < length (un_maps u)" for i
  proof -
    have "map_info.truncate (un_maps u' ! i) = map_info.truncate (un_maps u ! i)"
      using calculation that by (metis nth_map)
    then show ?thesis by (simp add: map_info.defs)
  qed
  ultimately show ?thesis by (auto simp: map_ok_def split: option.splits)
qed

lemma lookup_map_ok:
  assumes "lookup_map env sfx u = Some (Ret (Some (mi, rel_pc)), u')"
  shows "map_ok mi u'"
proof -
  have "fixed_part u' = fixed_part u" using dkeepsD [OF lookup_map_keeps assms] by simp
  moreover have "map_ok mi u"
  proof (cases "find_map (pc_of (un_regs u)) u")
    case None
    then show ?thesis using assms by (simp add: lookup_map_def Let_def map_ok_def)
  next
    case (Some i)
    then have "\<exists>e. mi = Some (i, e)" using assms by (auto simp: lookup_map_def Let_def dbind_eq_Ret split: if_splits)
    then show ?thesis using find_map_Some [OF Some] by (auto simp: map_ok_def)
  qed
  ultimately show ?thesis using map_ok_fixed_part by blast
qed

text \<open>\<open>FillInFrame\<close> adds one frame, unless it does not return normally.\<close>

lemma push_frame_eq: "push_frame fr u = Some (Ret (), u\<lparr>un_frames := un_frames u @ [fr]\<rparr>)"
  by (simp add: push_frame_def total_def modify_def)

lemma fixed_part_push [simp]: "fixed_part (u\<lparr>un_frames := frs\<rparr>) = fixed_part u"
  by (simp add: fixed_part_def)

definition frame_added :: "unwinder \<Rightarrow> unit res \<Rightarrow> unwinder \<Rightarrow> bool" where
  "frame_added u r u' \<longleftrightarrow> fixed_part u' = fixed_part u \<and>
     (if is_Ret r then \<exists>fr. un_frames u' = un_frames u @ [fr] \<and> frame_ok (map map_info.truncate (un_maps u)) (length (un_frames u)) fr
      else un_frames u' = un_frames u)"

lemma map_frame_ok:
  assumes "i < length maps" and "map_start (maps ! i) < map_end (maps ! i)" and "fr_num fr = n"
  shows "frame_ok (map map_info.truncate maps) n (map_frame (maps ! i) e fr\<lparr>fr_function_name := nm, fr_function_offset := off\<rparr>)"
proof -
  have "map_info.truncate (maps ! i) \<in> set (map map_info.truncate maps)" using assms(1) by simp
  then show ?thesis using assms(2,3)
    by (auto simp: frame_ok_def map_frame_def map_info.defs intro!: bexI [of _ "map_info.truncate (maps ! i)"])
qed

lemma FillInFrame_adds:
  assumes "FillInFrame env mi rel_pc adjust u = Some (r, u')" and "map_ok mi u"
  shows "frame_added u r u'"
proof (cases mi)
  case None
  then show ?thesis using assms(1) by (auto simp: FillInFrame_def Let_def push_frame_eq frame_added_def frame_ok_def new_frame_def)
next
  case (Some p)
  obtain i e where mi: "mi = Some (i, e)" using Some by (cases p) auto
  have i: "i < length (un_maps u)" "map_start (un_maps u ! i) < map_end (un_maps u ! i)" using assms(2) mi by (simp_all add: map_ok_def)
  let ?a = "if adjust then GetAdjustedPc (un_regs u) rel_pc e else Ret rel_pc"
  show ?thesis
  proof (cases ?a)
    case (Ret adjusted)
    obtain q u1 where q: "dtry (on_map_elf i (Elf_GetFunctionName env adjusted)) u = Some (q, u1)"
      using assms(1) Ret by (auto simp: FillInFrame_def Let_def mi dbind_def split: option.splits)
    have k: "fixed_part u1 = fixed_part u" "un_frames u1 = un_frames u"
      using dkeepsD [OF dkeeps_dtry [OF on_map_elf_keeps] q] by simp_all
    show ?thesis
      using assms(1) Ret q k
      by (cases q) (auto simp: FillInFrame_def Let_def mi dbind_def push_frame_eq frame_added_def intro!: map_frame_ok [OF i]
        split: option.splits prod.splits)
  qed (use assms(1) in \<open>auto simp: FillInFrame_def Let_def mi dbind_def frame_added_def\<close>)
qed

section \<open>One pass\<close>

lemma dbindE:
  assumes "dbind m f s = Some (r, s')"
  obtains v s1 where "m s = Some (Ret v, s1)" and "f v s1 = Some (r, s')"
    | q where "m s = Some (q, s')" and "\<not> is_Ret q" and "\<not> is_Ret r"
  using assms by (auto simp: dbind_def split: option.splits res.splits)

text \<open>The frames after a pass: at most one more. A pass that goes on added exactly one, unless the frame was skipped.\<close>

definition frames_inv :: "unwinder \<Rightarrow> unwinder \<Rightarrow> bool" where
  "frames_inv u u' \<longleftrightarrow> fixed_part u' = fixed_part u \<and> frames_ok (map map_info.truncate (un_maps u)) (un_frames u')"

lemma frames_invD: "frames_inv u u' \<Longrightarrow> map map_info.truncate (un_maps u') = map map_info.truncate (un_maps u)"
  by (simp add: frames_inv_def fixed_part_def)

lemma frames_inv_keeps:
  assumes "dkeeps (\<lambda>u. (fixed_part u, un_frames u)) f" and "f u1 = Some (r, u2)" and "frames_inv u u1"
  shows "frames_inv u u2" and "un_frames u2 = un_frames u1"
  using dkeepsD [OF assms(1,2)] assms(3) by (simp_all add: frames_inv_def)

lemma frames_inv_added:
  assumes "frame_added u1 r u2" and "frames_inv u u1"
  shows "frames_inv u u2" and "length (un_frames u2) = (if is_Ret r then Suc (length (un_frames u1)) else length (un_frames u1))"
  using assms frames_invD [OF assms(2)] by (auto simp: frame_added_def frames_inv_def frames_ok_snoc split: if_splits)

lemma after_step_frames:
  assumes "after_step attempt stepped dev u = (r, u')" and "frames_inv u0 u"
  shows "frames_inv u0 u'" and "un_frames u' = un_frames u \<or> un_frames u' = butlast (un_frames u)"
    and "r = Ret (Some b) \<Longrightarrow> un_frames u' = un_frames u"
proof -
  have "frames_inv u0 u' \<and> (un_frames u' = un_frames u \<or> un_frames u' = butlast (un_frames u)) \<and> (\<forall>b. r = Ret (Some b) \<longrightarrow> un_frames u' = un_frames u)"
    using assms MachineType_return [of "un_process_memory u" "un_regs u"]
    by (auto simp: after_step_def pop_frame_def rbind_def op_defs frames_inv_def fixed_part_def frames_ok_butlast
      split: if_splits prod.splits res.splits)
  then show "frames_inv u0 u'" "un_frames u' = un_frames u \<or> un_frames u' = butlast (un_frames u)"
    "r = Ret (Some b) \<Longrightarrow> un_frames u' = un_frames u" by auto
qed

text \<open>The outcome of a pass that started with \<open>n\<close> frames; \<open>skipping\<close> says whether its frame was skipped.\<close>

definition pass_inv :: "unwinder \<Rightarrow> bool \<Rightarrow> loop_vars option res \<Rightarrow> unwinder \<Rightarrow> bool" where
  "pass_inv u skipping r u' \<longleftrightarrow> frames_inv u u' \<and> length (un_frames u') \<le> Suc (length (un_frames u)) \<and>
    (\<forall>v. r = Ret (Some v) \<longrightarrow> \<not> skipping \<longrightarrow>
       length (un_frames u') = Suc (length (un_frames u)) \<and> initial_map_names_to_skip v = None)"

lemma end_pass_frames:
  assumes "end_pass u0 v skip step u2 = (r, u')" and "frames_inv u u2" and "length (un_frames u2) \<le> Suc (length (un_frames u))"
    and "\<not> skip \<Longrightarrow> length (un_frames u2) = Suc (length (un_frames u))"
  shows "pass_inv u skip r u'"
proof (cases step)
  case (Inl x)
  then show ?thesis using assms by (auto simp: end_pass_def op_defs pass_inv_def)
next
  case (Inr p)
  obtain stepped dev where p: "p = (stepped, dev)" by fastforce
  obtain q u3 where q: "after_step (return_address_attempt v) stepped dev u2 = (q, u3)" by fastforce
  note a = after_step_frames [OF q assms(2)]
  have "length (un_frames u3) \<le> Suc (length (un_frames u))" using a(2) assms(3) by auto
  then show ?thesis
    using assms(1,4) a(1,3) q by (cases q) (auto simp: end_pass_def Inr p rbind_def pass_inv_def split: option.splits if_splits)
qed

lemma frame_pass_frames:
  assumes "frame_pass env u0 v mi rel_pc u1 = Some (r, u')" and "frames_inv u u1" and "un_frames u1 = un_frames u" and "map_ok mi u1"
  shows "pass_inv u (skipped (initial_map_names_to_skip v) mi u1) r u'"
proof -
  define skip where "skip = skipped (initial_map_names_to_skip v) mi u1"
  define fill where "fill = (if skip then total (rret ()) else FillInFrame env mi rel_pc (adjust_pc_next v))"
  have f: "frames_inv u u2 \<and> length (un_frames u2) = (if skip \<or> \<not> is_Ret q then length (un_frames u) else Suc (length (un_frames u)))"
    if "fill u1 = Some (q, u2)" for q u2
  proof (cases skip)
    case True
    then show ?thesis using that assms(2,3) by (simp add: fill_def total_def op_defs)
  next
    case False
    then have F: "FillInFrame env mi rel_pc (adjust_pc_next v) u1 = Some (q, u2)" using that by (simp add: fill_def)
    show ?thesis using False frames_inv_added [OF FillInFrame_adds [OF F assms(4)] assms(2)] assms(3) by simp
  qed
  have k: "frames_inv u u3 \<and> un_frames u3 = un_frames u2"
    if "step_frame env mi rel_pc u2 = Some (q, u3)" "frames_inv u u2" for q u2 u3
    using frames_inv_keeps [OF step_frame_keeps that] by simp
  have "dbind fill (\<lambda>_. dbind (step_frame env mi rel_pc) (\<lambda>step. total (end_pass u0 v skip step))) u1 = Some (r, u')"
    using assms(1) by (simp add: frame_pass_def Let_def skip_def fill_def)
  then have "pass_inv u skip r u'"
  proof (cases rule: dbindE)
    case (1 x u2)
    note f1 = f [OF 1(1)]
    from 1(2) show ?thesis
    proof (cases rule: dbindE)
      case (1 step u3)
      then show ?thesis using f1 k [OF 1(1)] by (intro end_pass_frames [of u0 v skip step u3]) (auto simp: total_def)
    next
      case (2 q)
      then show ?thesis using f1 k [OF 2(1)] by (cases r) (auto simp: pass_inv_def)
    qed
  next
    case (2 q)
    then show ?thesis using f [OF 2(1)] by (cases r) (auto simp: pass_inv_def)
  qed
  then show ?thesis by (simp add: skip_def)
qed

lemma unwind_pass_frames:
  assumes "unwind_pass env sfx v u = Some (r, u')" and "frames_ok (map map_info.truncate (un_maps u)) (un_frames u)"
  shows "pass_inv u (initial_map_names_to_skip v \<noteq> None) r u'"
proof -
  have u: "frames_inv u u" using assms(2) by (simp add: frames_inv_def)
  from assms(1)[unfolded unwind_pass_def] show ?thesis
  proof (cases rule: dbindE)
    case (1 found u1)
    note u1 = frames_inv_keeps [OF lookup_map_keeps 1(1) u]
    show ?thesis
    proof (cases found)
      case None
      then show ?thesis using 1 u1 by (auto simp: total_def op_defs pass_inv_def)
    next
      case (Some mp)
      obtain mi rel_pc where mp: "mp = (mi, rel_pc)" by fastforce
      have ok: "map_ok mi u1" using lookup_map_ok 1(1) Some mp by blast
      have F: "frame_pass env u v mi rel_pc u1 = Some (r, u')" using 1(2) Some mp by simp
      have X: "pass_inv u b r u'" if "skipped (initial_map_names_to_skip v) mi u1 \<Longrightarrow> b" for b
        using frame_pass_frames [OF F u1 ok] that unfolding pass_inv_def by blast
      show ?thesis by (rule X) (auto simp: skipped_def split: option.splits)
    qed
  next
    case (2 q)
    then show ?thesis using frames_inv_keeps [OF lookup_map_keeps 2(1) u] by (cases r) (auto simp: pass_inv_def)
  qed
qed

section \<open>The loop\<close>

text \<open>What each pass keeps, the loop keeps.\<close>

definition loop_inv :: "unwinder \<Rightarrow> bool" where
  "loop_inv u \<longleftrightarrow> frames_ok (map map_info.truncate (un_maps u)) (un_frames u) \<and> length (un_frames u) \<le> un_max_frames u"

lemma pass_inv_loop_inv:
  assumes "pass_inv u b r u'" and "length (un_frames u) < un_max_frames u"
  shows "loop_inv u' \<and> fixed_part u' = fixed_part u"
  using assms frames_invD [of u u'] by (auto simp: pass_inv_def loop_inv_def frames_inv_def fixed_part_def)

lemma unwind_loop_frames:
  assumes "unwind_loop env sfx v u = Some q" and "loop_inv u"
  shows "loop_inv (snd q) \<and> fixed_part (snd q) = fixed_part u"
  using assms(2)
proof (induction rule: unwind_loop.raw_induct [OF _ assms(1)])
  case (1 loop env sfx v u q)
  show ?case
  proof (cases "length (un_frames u) < un_max_frames u")
    case True
    then obtain r u1 where p: "unwind_pass env sfx v u = Some (r, u1)" and rest: "(case r of
            Ret None \<Rightarrow> Some (Ret (), u1) | Ret (Some v) \<Rightarrow> loop env sfx v u1
          | Fail \<Rightarrow> Some (Fail, u1) | Abort \<Rightarrow> Some (Abort, u1) | Undef \<Rightarrow> Some (Undef, u1)) = Some q"
      using "1.hyps" by (auto simp: bind_eq_Some_conv)
    have u1: "loop_inv u1" "fixed_part u1 = fixed_part u"
      using pass_inv_loop_inv [OF unwind_pass_frames [OF p] True] "1.prems" by (simp_all add: loop_inv_def)
    show ?thesis using rest u1 "1.IH" by (auto split: res.splits option.splits)
  next
    case False
    then show ?thesis using "1.hyps" "1.prems" by auto
  qed
qed

text \<open>C2. Whatever the unwind information says, a call of \<open>Unwind\<close> that returns has at most \<open>max_frames\<close> frames; they are numbered from 0, each
  one has either no map or the name, range, offset and flags of one of the maps, and the maps and the
  architecture of the registers are the same as before.\<close>

theorem Unwind_frames:
  assumes "Unwind env to_skip suffixes u = Some (r, u')"
  shows "length (un_frames u') \<le> un_max_frames u \<and>
    (\<forall>i < length (un_frames u'). frame_ok (map map_info.truncate (un_maps u)) i (un_frames u' ! i)) \<and>
    map map_info.truncate (un_maps u') = map map_info.truncate (un_maps u) \<and> MachineType (un_regs u') = MachineType (un_regs u)"
  using unwind_loop_frames [OF assms [unfolded Unwind_def]] by (auto simp: loop_inv_def frames_ok_def fixed_part_def)

section \<open>The number of passes\<close>

text \<open>At most so many passes, as a structural recursion.\<close>

fun unwind_passes ::
  "'x unwind_env \<Rightarrow> string list option \<Rightarrow> nat \<Rightarrow> loop_vars \<Rightarrow> unwinder \<Rightarrow> (unit res \<times> unwinder) option" where
  "unwind_passes env sfx 0 v u = Some (Ret (), u)"
| "unwind_passes env sfx (Suc n) v u =
     (case unwind_pass env sfx v u of
        None \<Rightarrow> None
      | Some (Ret None, u) \<Rightarrow> Some (Ret (), u)
      | Some (Ret (Some v), u) \<Rightarrow> unwind_passes env sfx n v u
      | Some (Fail, u) \<Rightarrow> Some (Fail, u)
      | Some (Abort, u) \<Rightarrow> Some (Abort, u)
      | Some (Undef, u) \<Rightarrow> Some (Undef, u))"

lemma unwind_loop_passes:
  assumes "loop_inv u" and "initial_map_names_to_skip v = None" and "un_max_frames u - length (un_frames u) = n"
  shows "unwind_loop env sfx v u = unwind_passes env sfx n v u"
  using assms
proof (induction n arbitrary: v u)
  case 0
  then show ?case by (subst unwind_loop.simps) simp
next
  case (Suc n)
  then have l: "length (un_frames u) < un_max_frames u" by simp
  show ?case
  proof (cases "unwind_pass env sfx v u")
    case None
    then show ?thesis using l by (subst unwind_loop.simps) simp
  next
    case (Some p)
    obtain r u1 where p: "unwind_pass env sfx v u = Some (r, u1)" using Some by (cases p) auto
    have i: "pass_inv u (initial_map_names_to_skip v \<noteq> None) r u1" using unwind_pass_frames [OF p] Suc.prems(1) by (simp add: loop_inv_def)
    note u1 = pass_inv_loop_inv [OF i l]
    have "unwind_loop env sfx v' u1 = unwind_passes env sfx n v' u1" if "r = Ret (Some v')" for v'
      using that i u1 Suc.prems by (intro Suc.IH) (auto simp: pass_inv_def fixed_part_def)
    then show ?thesis using l p by (subst unwind_loop.simps) (auto split: res.splits option.splits)
  qed
qed

text \<open>C11. With no names to skip, \<open>Unwind\<close> makes at most \<open>max_frames\<close> passes through its loop: it does not return only if one of these
  passes does not return.\<close>

theorem Unwind_bounded:
  "Unwind env None suffixes u =
     unwind_passes env suffixes (un_max_frames u)
       \<lparr>initial_map_names_to_skip = None, return_address_attempt = False, adjust_pc_next = False\<rparr> (u\<lparr>un_frames := []\<rparr>)"
  unfolding Unwind_def by (rule unwind_loop_passes) (simp_all add: loop_inv_def frames_ok_def)

section \<open>Loops that do not end\<close>

lemma unwind_loop_diverges:
  assumes step: "\<And>v u. I v u \<Longrightarrow> length (un_frames u) < un_max_frames u \<and> (\<exists>v' u'. unwind_pass env sfx v u = Some (Ret (Some v'), u') \<and> I v' u')"
    and "I v u"
  shows "unwind_loop env sfx v u = None"
proof (rule ccontr)
  assume "unwind_loop env sfx v u \<noteq> None"
  then obtain q where q: "unwind_loop env sfx v u = Some q" by auto
  have "I v u \<Longrightarrow> False"
    using step
  proof (induction rule: unwind_loop.raw_induct [OF _ q])
    case (1 loop env sfx v u q)
    from "1.prems"(2) [OF "1.prems"(1)] obtain v' u' where
      "length (un_frames u) < un_max_frames u" "unwind_pass env sfx v u = Some (Ret (Some v'), u')" "I v' u'" by auto
    then show ?case using "1.hyps" "1.IH" [of env sfx v' u' q] "1.prems"(2) by (auto simp: bind_eq_Some_conv)
  qed
  then show False using assms(2) by simp
qed

section \<open>Witnesses\<close>

definition sample_env :: "unit unwind_env" where
  "sample_env = \<lparr>env_os = \<lparr>os_open = (\<lambda>_. None), os_fstat_ok = (\<lambda>_. False), os_pagesize = 4096, os_mmap_ok = (\<lambda>_ _ _. False)\<rparr>,
     env_symbol_sort = (\<lambda>xs. xs), env_fde_sort = (\<lambda>xs. xs), env_order = (\<lambda>_. []),
     env_xz = \<lparr>xz_new = (), xz_code = (\<lambda>_ _ _. ((), False, False, [], 0)), xz_finished = (\<lambda>_. False)\<rparr>, env_load_bias = 0\<rparr>"

text \<open>No maps at all: one frame is found; the second, which the return address gives, is removed again.\<close>

lemma Unwind_no_maps:
  defines "u \<equiv> new_Unwinder 4 [] (RegsArm (new_RegsArm 8 16)) (MemoryBuffer [])"
  shows "Unwind sample_env None None u = Some (Ret (), u\<lparr>un_regs := RegsArm (new_RegsArm 0 16),
    un_frames := [new_frame\<lparr>fr_pc := 8, fr_sp := 16, fr_rel_pc := 8\<rparr>]\<rparr>)"
proof -
  let ?v = "\<lambda>b. \<lparr>initial_map_names_to_skip = None, return_address_attempt = b, adjust_pc_next = b\<rparr>"
  let ?f = "new_frame\<lparr>fr_pc := 8, fr_sp := 16, fr_rel_pc := 8\<rparr>"
  let ?u1 = "u\<lparr>un_regs := RegsArm (new_RegsArm 0 16), un_frames := [?f]\<rparr>"
  have nf: "find_map pc w = None" if "un_maps w = []" for pc w using that by (simp add: find_map_def slots_def Maps_Find_def)
  have lr: "get_reg 14 (new_RegsArm 8 16) = (Ret 0, new_RegsArm 8 16)"
    by (simp add: get_reg_def regs_at_def new_RegsArm_def new_RegsImpl_def)
  have ps: "regs_pc (new_RegsArm p s) = p" "regs_sp (new_RegsArm p s) = s" "set_pc q (new_RegsArm p s) = new_RegsArm q s" for p q s
    by (simp_all add: new_RegsArm_def new_RegsImpl_def set_pc_def)
  note defs = unwind_pass_def lookup_map_def frame_pass_def end_pass_def after_step_def pop_frame_def step_frame_def skipped_def FillInFrame_def
    push_frame_eq dbind_def total_def rbind_def op_defs Let_def new_Unwinder_def
  have p1: "unwind_pass sample_env None (?v False) (u\<lparr>un_frames := []\<rparr>) = Some (Ret (Some (?v True)), ?u1)"
    by (simp add: defs nf u_def ps lr RegsArm_SetPcFromReturnAddress_def set_pc_from_lr_def new_frame_def)
  have p2: "unwind_pass sample_env None (?v True) ?u1 = Some (Ret None, ?u1)"
    by (simp add: defs nf u_def ps)
  show ?thesis
    unfolding Unwind_def using p1 p2 by (subst unwind_loop.simps, subst unwind_loop.simps) (simp add: u_def new_Unwinder_def)
qed

theorem Unwind_frames_witness:
  "\<exists>u'. Unwind sample_env None None (new_Unwinder 4 [] (RegsArm (new_RegsArm 8 16)) (MemoryBuffer [])) = Some (Ret (), u') \<and>
     length (un_frames u') \<le> 4 \<and> frame_ok [] 0 (un_frames u' ! 0)"
  using Unwind_frames [OF Unwind_no_maps] Unwind_no_maps by (simp add: new_Unwinder_def)

end
