(* ===== verification/Unwinder_Skip.thy ===== *)
theory Unwinder_Skip
  imports Unwinder_Frames Regs_Signal
begin

text \<open>
  Unwinding with a list of map names to skip: the frames of such maps at the top of the stack are not added, so they neither count for
  \<open>max_frames\<close> nor are there to be removed again.
\<close>

text \<open>The map of an address: it has an ELF object already, is no device map, and its name is to be skipped.\<close>

definition skipped_map :: "string list \<Rightarrow> unwinder \<Rightarrow> u64 \<Rightarrow> nat \<Rightarrow> elf \<Rightarrow> u64 \<Rightarrow> bool" where
  "skipped_map names u pc i e off \<longleftrightarrow> find_map pc u = Some i \<and> map_elf (un_maps u ! i) = Some e \<and>
     map_elf_offset (un_maps u ! i) = Some off \<and> \<not> in_device i u \<and> basename (c_str (map_name (un_maps u ! i))) \<in> set names"

definition sp_in_device :: "unwinder \<Rightarrow> bool" where
  "sp_in_device u \<longleftrightarrow> (case find_map (sp_of (un_regs u)) u of None \<Rightarrow> False | Some j \<Rightarrow> in_device j u)"

lemma update_map_same: "u\<lparr>un_maps := (un_maps u)[i := (un_maps u ! i)]\<rparr> = u"
  by simp

lemma update_elf_same: "map_elf m = Some e \<Longrightarrow> m\<lparr>map_elf := Some e\<rparr> = (m :: map_object)"
  by (cases m) simp

lemma pass_skipped:
  assumes m: "skipped_map names u (pc_of (un_regs u)) i e off" and "\<not> sp_in_device u" and "initial_map_names_to_skip v = Some names"
    and s: "Elf_Step env (pc_of (un_regs u) - map_start (un_maps u ! i) + elf_load_bias e + off) off (un_process_memory u) (e, un_regs u) =
      Some (q, e, regs)"
    and q: "q = Fail \<or> q = Ret False"
  shows "unwind_pass env None v u = Some (end_pass u v True (Inr (is_Ret q, False)) (u\<lparr>un_regs := regs\<rparr>))"
proof -
  let ?rel = "pc_of (un_regs u) - map_start (un_maps u ! i) + elf_load_bias e + off"
  have "on_map i (GetElf env (un_process_memory u) True) u = Some (Ret e, u)"
    using m by (simp add: on_map_def on_dpart_def GetElf_def skipped_map_def)
  then have l: "lookup_map env None u = Some (Ret (Some (Some (i, e), ?rel)), u)"
    using m by (simp add: lookup_map_def Let_def skipped_map_def ShouldStop_def dbind_def GetRelPc_def)
  have sk: "skipped (initial_map_names_to_skip v) (Some (i, e)) u" using m assms(3) by (simp add: skipped_def skipped_map_def)
  have "step_elf env i ?rel u = Some (q, u\<lparr>un_regs := regs\<rparr>)"
    using m s by (simp add: step_elf_def skipped_map_def update_elf_same)
  then have st: "step_frame env (Some (i, e)) ?rel u = Some (Ret (Inr (is_Ret q, False)), u\<lparr>un_regs := regs\<rparr>)"
    using m assms(2) q by (auto simp: step_frame_def skipped_map_def sp_in_device_def dbind_def dtry_def split: option.splits)
  show ?thesis
    using l sk st by (simp add: unwind_pass_def dbind_Ret frame_pass_def Let_def total_def op_defs)
qed

lemma Elf_Step_invalid: "\<not> elf_valid e \<Longrightarrow> Elf_Step env rel_pc off pm (e, regs) = Some (Fail, e, regs)"
  by (simp add: Elf_Step_def)

section \<open>Removing a frame that was not added\<close>

text \<open>An unwinder on ARM, with the pc and the return address in maps that are skipped and have no valid ELF object.\<close>

definition no_unwind_info :: "string list \<Rightarrow> unwinder \<Rightarrow> u64 \<Rightarrow> bool" where
  "no_unwind_info names u pc \<longleftrightarrow> (\<exists>i e off. skipped_map names u pc i e off \<and> \<not> elf_valid e)"

lemma maps_regs_irrelevant [simp]:
  "find_map pc (u\<lparr>un_regs := regs\<rparr>) = find_map pc u" "find_map pc (u\<lparr>un_frames := frs\<rparr>) = find_map pc u"
  "in_device i (u\<lparr>un_regs := regs\<rparr>) = in_device i u" "in_device i (u\<lparr>un_frames := frs\<rparr>) = in_device i u"
  "skipped_map names (u\<lparr>un_regs := regs\<rparr>) pc i e off = skipped_map names u pc i e off"
  "skipped_map names (u\<lparr>un_frames := frs\<rparr>) pc i e off = skipped_map names u pc i e off"
  by (simp_all add: find_map_def in_device_def skipped_map_def)

lemma ucast_u32_eq_iff: "(ucast (a :: u32) :: u64) = ucast b \<longleftrightarrow> a = b"
  by (metis unat_ucast_u32 unsigned_word_eqI)

lemma arm_return_address:
  assumes "regs_at r 14 = Ret lr" and "lr \<noteq> regs_pc r"
  shows "SetPcFromReturnAddress pm (RegsArm r) = (Ret (), RegsArm (set_pc lr r))"
  using assms
  by (simp add: RegsArm_SetPcFromReturnAddress_def set_pc_from_lr_def get_reg_def rbind_def op_defs)

text \<open>C35. A speculative step through the return address is undone with \<open>frames_.pop_back()\<close> even when the frame was skipped: if the pc and
  the return address are in skipped maps without unwind information, the vector is empty and the behaviour is
  undefined.\<close>

theorem Unwind_skip_undefined:
  assumes regs: "un_regs u = RegsArm r" "regs_at r 14 = Ret lr" "lr \<noteq> regs_pc r"
    and maps: "no_unwind_info names u (ucast (regs_pc r))" "no_unwind_info names u (ucast lr)"
    and "\<not> sp_in_device u" and "0 < un_max_frames u"
  shows "\<exists>u'. Unwind env (Some names) None u = Some (Undef, u')"
proof -
  define u0 where "u0 = u\<lparr>un_frames := []\<rparr>"
  define v where "v = \<lparr>initial_map_names_to_skip = Some names, return_address_attempt = False, adjust_pc_next = False\<rparr>"
  define u1 where "u1 = u0\<lparr>un_regs := RegsArm (set_pc lr r)\<rparr>"
  have sp: "\<not> sp_in_device u0" "\<not> sp_in_device u1"
    using assms(6) regs(1) by (simp_all add: sp_in_device_def u1_def u0_def set_pc_def split: option.splits)
  obtain i e off where i: "skipped_map names u0 (pc_of (un_regs u0)) i e off" "\<not> elf_valid e"
    using maps(1) regs(1) by (auto simp: no_unwind_info_def u0_def)
  obtain j e' off' where j: "skipped_map names u1 (pc_of (un_regs u1)) j e' off'" "\<not> elf_valid e'"
    using maps(2) by (auto simp: no_unwind_info_def u1_def u0_def set_pc_def)
  have "unwind_pass env None v u0 = Some (end_pass u0 v True (Inr (False, False)) (u0\<lparr>un_regs := un_regs u0\<rparr>))"
    using pass_skipped [OF i(1) sp(1) _ Elf_Step_invalid [OF i(2)], of v] by (simp add: v_def)
  also have "\<dots> = Some (Ret (Some (v\<lparr>return_address_attempt := True, adjust_pc_next := True\<rparr>)), u1)"
    using regs arm_return_address [OF regs(2,3)]
    by (simp add: end_pass_def after_step_def v_def u0_def u1_def rbind_def set_pc_def ucast_u32_eq_iff)
  finally have p1: "unwind_pass env None v u0 = Some (Ret (Some (v\<lparr>return_address_attempt := True, adjust_pc_next := True\<rparr>)), u1)" .
  have p2: "unwind_pass env None (v\<lparr>return_address_attempt := True, adjust_pc_next := True\<rparr>) u1 = Some (Undef, u1\<lparr>un_regs := un_regs u1\<rparr>)"
    using pass_skipped [OF j(1) sp(2) _ Elf_Step_invalid [OF j(2)], of "v\<lparr>return_address_attempt := True, adjust_pc_next := True\<rparr>"]
    by (simp add: v_def end_pass_def after_step_def rbind_def pop_frame_def u1_def u0_def)
  have "unwind_loop env None v u0 = Some (Undef, u1\<lparr>un_regs := un_regs u1\<rparr>)"
    using p1 p2 assms(7) by (subst unwind_loop.simps, subst unwind_loop.simps) (simp add: u0_def u1_def)
  then show ?thesis by (auto simp: Unwind_def v_def u0_def)
qed

section \<open>Frames that do not count\<close>

text \<open>A signal frame on the stack at \<open>sp\<close> that returns to \<open>pc\<close> with the stack pointer \<open>sp'\<close>.\<close>

definition signal_frame :: "memory \<Rightarrow> u32 \<Rightarrow> u32 \<Rightarrow> u32 \<Rightarrow> u32 \<Rightarrow> bool" where
  "signal_frame pm code pc sp sp' \<longleftrightarrow> unat sp + 8 < 2 ^ 32 \<and>
     (\<exists>fr ws. mem_holds pm (ucast sp) (raw_of_regs (sigframe_words sp fr @ ws)) \<and> arm_frame_ok sp fr \<and> code \<in> arm_sigreturn fr \<and>
        length ws = 16 \<and> ws ! 15 = pc \<and> ws ! 13 = sp')"

lemma Elf_Step_signal_frame:
  assumes "elf_valid e" and "elf_memory e = Some m" and "mem_holds m (rel_pc + off) (le_bytes 4 code)"
    and "signal_frame pm code pc (regs_sp r) sp'" and "length (regs_data r) = 16"
  obtains ws where "length ws = 16"
    and "Elf_Step env rel_pc off pm (e, RegsArm r) = Some (Ret False, e, RegsArm (r\<lparr>regs_data := ws, regs_pc := pc, regs_sp := sp'\<rparr>))"
proof -
  obtain fr ws where f: "mem_holds pm (ucast (regs_sp r)) (raw_of_regs (sigframe_words (regs_sp r) fr @ ws))" "arm_frame_ok (regs_sp r) fr"
      "code \<in> arm_sigreturn fr" "length ws = 16" "ws ! 15 = pc" "ws ! 13 = sp'" "unat (regs_sp r) + 8 < 2 ^ 32"
    using assms(4) by (auto simp: signal_frame_def)
  show ?thesis
    using that [OF f(4)] RegsArm_StepIfSignalHandler_frame [OF assms(2,3) f(3,1,2,7,4) assms(5)] f(5,6) assms(1)
    by (simp add: Elf_Step_def)
qed

text \<open>C36. Skipped frames do not count for \<open>max_frames\<close>, so the loop need not end: with two signal frames on the stack that return to each
  other, and the code of the signal trampoline in a map that is skipped, \<open>Unwind\<close> runs for ever.\<close>

theorem Unwind_skip_diverges:
  assumes regs: "un_regs u = RegsArm r" "regs_pc r = pc" "regs_sp r = s1" "length (regs_data r) = 16"
    and map: "skipped_map names u (ucast pc) i e off" "elf_valid e" "elf_memory e = Some m"
      "mem_holds m (ucast pc - map_start (un_maps u ! i) + elf_load_bias e + off + off) (le_bytes 4 code)"
    and stack: "signal_frame (un_process_memory u) code pc s1 s2" "signal_frame (un_process_memory u) code pc s2 s1" "s1 \<noteq> s2"
    and device: "\<forall>sp \<in> {s1, s2}. \<forall>j. find_map (ucast sp) u = Some j \<longrightarrow> \<not> in_device j u" and "0 < un_max_frames u"
  shows "Unwind env (Some names) None u = None"
proof -
  define I where "I v u' \<longleftrightarrow> initial_map_names_to_skip v = Some names \<and> (\<exists>r'. u' = u\<lparr>un_frames := [], un_regs := RegsArm r'\<rparr> \<and>
      length (regs_data r') = 16 \<and> regs_pc r' = pc \<and> regs_sp r' \<in> {s1, s2})" for v :: loop_vars and u'
  have "unwind_loop env None \<lparr>initial_map_names_to_skip = Some names, return_address_attempt = False, adjust_pc_next = False\<rparr>
      (u\<lparr>un_frames := []\<rparr>) = None"
  proof (rule unwind_loop_diverges [of I])
    fix v u1
    assume "I v u1"
    then obtain r' where v: "initial_map_names_to_skip v = Some names" and u1: "u1 = u\<lparr>un_frames := [], un_regs := RegsArm r'\<rparr>"
      and r': "length (regs_data r') = 16" "regs_pc r' = pc" "regs_sp r' \<in> {s1, s2}" by (auto simp: I_def)
    define sp' where "sp' = (if regs_sp r' = s1 then s2 else s1)"
    have f: "signal_frame (un_process_memory u) code pc (regs_sp r') sp'" "sp' \<noteq> regs_sp r'" "sp' \<in> {s1, s2}"
      using r'(3) stack by (auto simp: sp'_def)
    let ?rel = "ucast pc - map_start (un_maps u ! i) + elf_load_bias e + off"
    obtain ws where ws: "length ws = 16" and st: "Elf_Step env ?rel off (un_process_memory u) (e, RegsArm r') =
        Some (Ret False, e, RegsArm (r'\<lparr>regs_data := ws, regs_pc := pc, regs_sp := sp'\<rparr>))"
      using Elf_Step_signal_frame [OF map(2-4) f(1) r'(1)] by metis
    have "\<not> sp_in_device u1" using device r'(3) by (auto simp: sp_in_device_def u1 split: option.splits)
    then have "unwind_pass env None v u1 = Some (end_pass u1 v True (Inr (True, False))
        (u1\<lparr>un_regs := RegsArm (r'\<lparr>regs_data := ws, regs_pc := pc, regs_sp := sp'\<rparr>)\<rparr>))"
      using pass_skipped [of names u1 i e off v env "Ret False"] map(1) v st r'(2) by (simp add: u1)
    then have "\<exists>v' u'. unwind_pass env None v u1 = Some (Ret (Some v'), u') \<and> I v' u'"
      using f(2,3) ws v by (auto simp: end_pass_def after_step_def rbind_def op_defs u1 I_def ucast_u32_eq_iff)
    then show "length (un_frames u1) < un_max_frames u1 \<and> (\<exists>v' u'. unwind_pass env None v u1 = Some (Ret (Some v'), u') \<and> I v' u')"
      using assms(13) by (simp add: u1)
  next
    show "I \<lparr>initial_map_names_to_skip = Some names, return_address_attempt = False, adjust_pc_next = False\<rparr> (u\<lparr>un_frames := []\<rparr>)"
      using regs by (auto simp: I_def intro!: exI [of _ r])
  qed
  then show ?thesis by (simp add: Unwind_def)
qed

section \<open>Witnesses\<close>

definition skip_map :: "elf \<Rightarrow> map_object" where
  "skip_map e = \<lparr>map_start = 0x1000, map_end = 0x2000, map_offset = 0, map_flags = 5, map_name = ''/lib/skip.so'', map_elf = Some e,
     map_elf_offset = Some 0\<rparr>"

lemma find_skip_map:
  "un_maps u = [skip_map e] \<Longrightarrow> find_map pc u = (if 0x1000 \<le> pc \<and> pc < 0x2000 then Some 0 else None)"
  by (simp add: find_map_def slots_def Maps_Find_def Maps_Find_loop.simps [of _ _ 0 "Suc 0"] Maps_Find_loop.simps [of _ _ "Suc 0" "Suc 0"]
    Maps_Find_loop.simps [of _ _ 0 0] skip_map_def map_info.defs Let_def)

lemma skip_map_skipped:
  assumes "un_maps u = [skip_map e]" and "0x1000 \<le> pc" and "pc < 0x2000"
  shows "skipped_map [''skip.so''] u pc 0 e 0"
proof -
  have "basename (c_str (map_name (skip_map e))) = ''skip.so''" by (simp add: skip_map_def basename_def after_last_def c_str_def)
  moreover have "\<not> in_device 0 u" using assms(1) by (simp add: in_device_def skip_map_def MAPS_FLAGS_DEVICE_MAP_def)
  ultimately show ?thesis using assms by (simp add: skipped_map_def find_skip_map) (simp add: skip_map_def)
qed

theorem Unwind_skip_undefined_witness:
  "\<exists>u'. Unwind sample_env (Some [''skip.so'']) None
     (new_Unwinder 8 [skip_map (new_Elf None)] (RegsArm ((new_RegsArm 0x1000 0)\<lparr>regs_data := (replicate 16 0)[14 := 0x1004]\<rparr>)) (MemoryBuffer [])) =
     Some (Undef, u')"
proof -
  let ?r = "(new_RegsArm 0x1000 0)\<lparr>regs_data := (replicate 16 0)[14 := 0x1004]\<rparr>"
  let ?u = "new_Unwinder 8 [skip_map (new_Elf None)] (RegsArm ?r) (MemoryBuffer [])"
  have m: "un_maps ?u = [skip_map (new_Elf None)]" by (simp add: new_Unwinder_def)
  have d: "regs_pc ?r = 0x1000" "regs_sp ?r = 0" by (simp_all add: new_RegsArm_def new_RegsImpl_def)
  have i: "no_unwind_info [''skip.so''] ?u pc" if "0x1000 \<le> pc" "pc < 0x2000" for pc
  proof -
    have "\<not> elf_valid (new_Elf None)" by (simp add: new_Elf_def)
    then show ?thesis unfolding no_unwind_info_def using skip_map_skipped [OF m that] by blast
  qed
  show ?thesis
  proof (rule Unwind_skip_undefined)
    show "un_regs ?u = RegsArm ?r" by (simp add: new_Unwinder_def)
    show "regs_at ?r 14 = Ret 0x1004" by (simp add: regs_at_def)
    show "0x1004 \<noteq> regs_pc ?r" unfolding d by simp
    show "no_unwind_info [''skip.so''] ?u (ucast (regs_pc ?r))" unfolding d by (rule i) simp_all
    show "no_unwind_info [''skip.so''] ?u (ucast (0x1004 :: u32))" by (rule i) simp_all
    show "\<not> sp_in_device ?u" using find_skip_map [OF m] d by (simp add: sp_in_device_def new_Unwinder_def)
  qed (simp add: new_Unwinder_def)
qed

text \<open>Two signal frames that return to each other.\<close>

definition loop_frame :: "u32 \<Rightarrow> u32 list" where
  "loop_frame sp' = [0, 0, 0, 0, 0, 0, 0, 0, 0, 0, 0, 0, 0, sp', 0, 0x1000]"

definition loop_stack :: "u8 list" where
  "loop_stack = raw_of_regs (sigframe_words 0 (OldSigframe 0 0 0) @ loop_frame 76) @ raw_of_regs (sigframe_words 76 (OldSigframe 0 0 0) @ loop_frame 0)"

lemma loop_stack_frames:
  "signal_frame (MemoryBuffer loop_stack) 0xe3a07077 0x1000 0 76" "signal_frame (MemoryBuffer loop_stack) 0xe3a07077 0x1000 76 0"
proof -
  let ?a = "raw_of_regs (sigframe_words 0 (OldSigframe 0 0 0) @ loop_frame 76)" and ?b = "raw_of_regs (sigframe_words 76 (OldSigframe 0 0 0) @ loop_frame 0)"
  have l: "length (loop_frame sp') = 16" "loop_frame sp' ! 15 = 0x1000" "loop_frame sp' ! 13 = sp'" for sp' by (simp_all add: loop_frame_def)
  have "mem_holds (MemoryBuffer loop_stack) 0 ?a" "mem_holds (MemoryBuffer loop_stack) 76 ?b"
    using mem_holds_MemoryBuffer [of "[]" ?a ?b] mem_holds_MemoryBuffer [of ?a ?b "[]"]
    by (simp_all add: loop_stack_def l del: raw_of_regs_simps)
  then show "signal_frame (MemoryBuffer loop_stack) 0xe3a07077 0x1000 0 76" "signal_frame (MemoryBuffer loop_stack) 0xe3a07077 0x1000 76 0"
    unfolding signal_frame_def using l by (force simp del: raw_of_regs_simps sigframe_words.simps)+
qed

definition loop_elf :: elf where
  "loop_elf = (new_Elf (Some (MemoryBuffer (le_bytes 4 (0xe3a07077 :: u32)))))\<lparr>elf_valid := True\<rparr>"

theorem Unwind_skip_diverges_witness:
  "Unwind sample_env (Some [''skip.so'']) None
     (new_Unwinder 8 [skip_map loop_elf] (RegsArm (new_RegsArm 0x1000 0)) (MemoryBuffer loop_stack)) = None"
proof -
  let ?u = "new_Unwinder 8 [skip_map loop_elf] (RegsArm (new_RegsArm 0x1000 0)) (MemoryBuffer loop_stack)"
  have m: "un_maps ?u = [skip_map loop_elf]" by (simp add: new_Unwinder_def)
  have c: "mem_holds (MemoryBuffer (le_bytes 4 (0xe3a07077 :: u32))) 0 (le_bytes 4 (0xe3a07077 :: u32))"
    using mem_holds_MemoryBuffer [of "[]" "le_bytes 4 (0xe3a07077 :: u32)" "[]"] by simp
  show ?thesis
  proof (rule Unwind_skip_diverges)
    show "un_regs ?u = RegsArm (new_RegsArm 0x1000 0)" by (simp add: new_Unwinder_def)
    show "regs_pc (new_RegsArm 0x1000 0) = 0x1000" "regs_sp (new_RegsArm 0x1000 0) = 0" "length (regs_data (new_RegsArm 0x1000 0)) = 16"
      by (simp_all add: new_RegsArm_def new_RegsImpl_def)
    show "skipped_map [''skip.so''] ?u (ucast (0x1000 :: u32)) 0 loop_elf 0" by (rule skip_map_skipped [OF m]) simp_all
    show "elf_valid loop_elf" "elf_memory loop_elf = Some (MemoryBuffer (le_bytes 4 (0xe3a07077 :: u32)))"
      by (simp_all add: loop_elf_def new_Elf_def)
    show "mem_holds (MemoryBuffer (le_bytes 4 (0xe3a07077 :: u32)))
        (ucast (0x1000 :: u32) - map_start (un_maps ?u ! 0) + elf_load_bias loop_elf + 0 + 0) (le_bytes 4 (0xe3a07077 :: u32))"
      using c by (simp add: new_Unwinder_def skip_map_def loop_elf_def new_Elf_def)
    show "signal_frame (un_process_memory ?u) 0xe3a07077 0x1000 0 76" "signal_frame (un_process_memory ?u) 0xe3a07077 0x1000 76 0"
      using loop_stack_frames by (simp_all add: new_Unwinder_def)
    show "\<forall>sp \<in> {0, 76 :: u32}. \<forall>j. find_map (ucast sp) ?u = Some j \<longrightarrow> \<not> in_device j ?u" using find_skip_map [OF m] by simp
  qed (simp_all add: new_Unwinder_def)
qed

end
