(* ===== verification/Spec2Isabelle.thy ===== *)
theory Spec2Isabelle
  imports DwarfOp_Expr DwarfCfa_Safety ArmExidx_Eval Maps_Text Regs_Signal Section_Eval Section_Parse Dwarf_Log Table_Search Debug_Search
    ElfInterface_Headers Elf_Valid MapInfo_File Unwinder_Skip
begin

text \<open>
  A model of \<open>libunwindstack\<close> (\<open>src/core/libunwindstack\<close>), the stack unwinder of Android, with the theorems that make it correct.

  \<^bold>\<open>The program.\<close> \<open>Unwinder::Unwind\<close> starts with the registers of a thread. It finds the map of the pc (\<open>Maps\<close>), creates the ELF
  object of the map (\<open>MapInfo\<close>, \<open>Elf\<close>, \<open>ElfInterface\<close>, \<open>Symbols\<close>), adds a frame, and steps to the caller: out of a signal handler
  (\<open>Regs\<close>), or with the call frame information of the file. That is DWARF data (\<open>DwarfSection\<close> with \<open>DwarfEhFrame\<close> or
  \<open>DwarfDebugFrame\<close>, whose instructions \<open>DwarfCfa\<close> interprets and whose expressions \<open>DwarfOp\<close> evaluates) or the exception table of
  ARM (\<open>ElfInterfaceArm\<close>, \<open>ArmExidx\<close>). All bytes come through \<open>Memory\<close> and the cursor \<open>DwarfMemory\<close>.

  \<^bold>\<open>The language of the model.\<close> \<open>Unwind_Prelude\<close> has the outcome of a member function: \<open>Ret\<close> for a result or \<open>true\<close>, \<open>Fail\<close> for
  \<open>false\<close>, \<open>Abort\<close> for a failed \<open>CHECK\<close> and \<open>Undef\<close> for undefined behaviour of C++. A member function takes the object
  and returns its outcome with the object after the call, also when it fails half way. \<open>keeps\<close>, \<open>no_abort\<close> and \<open>reports\<close> say what
  a function leaves alone, that it does not abort, and that it records its failures; they are closed under composition, and their
  rules are collected. \<open>Diverge\<close> has the functions that need not return. Integers keep the width they have in the code; a
  template argument \<open>AddressType\<close> is a type variable.

  \<^bold>\<open>Theories and sources.\<close>
  \<^item> \<open>Memory\<close>, \<open>Memory_Partial\<close>: \<open>Memory.cpp\<close>, \<open>Memory.h\<close>. A constructor per class, the \<open>Read\<close> of each, the virtual call \<open>mem_Read\<close>.
    The locale \<open>memory_reader\<close> is interpreted on \<open>mem_Read\<close> and on \<open>MemoryRemote_Read\<close>. The word-wise remote
    read is the read byte by byte; a mapped file is a window on the file.
  \<^item> \<open>DwarfMemory\<close>: \<open>DwarfMemory.cpp\<close>, \<open>DwarfEncoding.h\<close>. LEB128 numbers are read back; the value of an encoded pointer.
  \<^item> \<open>Regs\<close>, \<open>Regs_Arch\<close>, \<open>Regs_Signal\<close>, \<open>Machine\<close>: \<open>Regs.cpp\<close>, \<open>Regs.h\<close>, \<open>User.h\<close>, \<open>Ucontext.h\<close>, \<open>Machine.h\<close>. The registers a signal frame
    holds are restored; the registers from \<open>ptrace\<close> and from a signal context agree.
  \<^item> \<open>DwarfOp\<close>, \<open>DwarfOp_Expr\<close>: \<open>DwarfOp.cpp\<close>, \<open>DwarfOp.h\<close> with all rows of the table. \<open>Eval\<close> computes the value of compiled
    expressions; the exact inputs with undefined behaviour.
  \<^item> \<open>DwarfStructs\<close>, \<open>DwarfCfa\<close>, \<open>DwarfCfa_Insn\<close>, \<open>DwarfCfa_Safety\<close>: \<open>DwarfCfa.cpp\<close>, \<open>DwarfCfa.h\<close> and the structures. \<open>GetLocationInfo\<close>
    refines the meaning of the instructions; it may diverge; the exact undefined behaviour of a step.
  \<^item> \<open>Dwarf_Log\<close>, \<open>Log_Format\<close>: \<open>GetLogInfo\<close>, the \<open>Log\<close> functions of \<open>DwarfCfa\<close> and \<open>DwarfSectionImpl\<close>, and \<open>Log.cpp\<close>. The log walks
    over the instructions the interpreter executes.
  \<^item> \<open>DwarfSection\<close>, \<open>DwarfDebugFrame\<close>, \<open>DwarfEhFrame\<close>, \<open>DwarfSection_Step\<close>: the files of these names. \<open>Section_Parse\<close> shows
    that CIEs and FDEs are read back from their bytes, \<open>Section_Eval\<close> that every register gets the value of its rule on the old
    registers in whatever order the map is iterated.
  \<^item> \<open>Bisection\<close>, \<open>Floor_Search\<close>: the contracts of the binary searches as locales, interpreted on the loops of \<open>Maps::Find\<close>,
    \<open>Symbols::GetInfoFromCache\<close>, \<open>ElfInterfaceArm::FindEntry\<close> and \<open>DwarfEhFrame::GetFdeOffsetBinary\<close> (\<open>Table_Search\<close>); \<open>Debug_Search\<close>
    treats the search of \<open>.debug_frame\<close>, where the end of a range belongs to it.
  \<^item> \<open>ArmExidx\<close>, \<open>ArmExidx_Insn\<close>, \<open>ArmExidx_Eval\<close>: \<open>ArmExidx.cpp\<close>, \<open>ArmExidx.h\<close> with its messages. \<open>Eval\<close> refines the meaning of
    the instructions and always ends; the extraction of the bytecode of a table entry.
  \<^item> \<open>Symbols\<close>, \<open>Maps\<close>, \<open>Maps_Text\<close>: the files of these names. The cached search for a function is the search of the whole
    table; maps files are parsed independently of the blocks in which they are read.
  \<^item> \<open>ElfInterface\<close>, \<open>ElfInterface_Headers\<close>: \<open>ElfInterface.cpp\<close>, \<open>ElfInterfaceArm.cpp\<close>; what the program headers determine.
  \<^item> \<open>Elf\<close>, \<open>Elf_Valid\<close>, \<open>MapInfo_File\<close>: \<open>Elf.cpp\<close>, \<open>MapInfo.cpp\<close>. The invariant of the object; the memory of a map shows its file.
  \<^item> \<open>Unwinder\<close>, \<open>Unwinder_Frames\<close>, \<open>Unwinder_Skip\<close>: \<open>Unwinder.cpp\<close>. The frames are bounded, numbered and agree with the maps; the loop
    ends when no names are skipped, and need not end otherwise.

  \<^bold>\<open>Loops.\<close> No loop has fuel. A loop that ends is a recursive function with a termination proof. The loops of
  \<open>GetLocationInfo\<close>, \<open>Log\<close>, \<open>GetLogInfo\<close>, \<open>GetName\<close>, the scan of \<open>.debug_frame\<close>, the decompression and \<open>Unwind\<close>, which input can keep running, are
  partial functions whose value \<open>None\<close> is a call that does not return.

  \<^bold>\<open>Parameters.\<close> The answers of the operating system, \<open>std::sort\<close> where elements can be equal, the order in which an \<open>unordered_map\<close> is
  iterated, the XZ decoder, and the initial values of members that the constructors leave uninitialised are arguments. The
  build is LP64 and little endian. Indices into tables are natural numbers, as vectors of \<open>2 ^ 63\<close> elements do not exist.

  \<^bold>\<open>Not modelled.\<close> \<open>RegsGetLocal\<close>, \<open>CreateFromLocal\<close> and \<open>CurrentMachineType\<close>, which are chosen for the machine of the build, and the assembler
  files; where \<open>log\<close> writes, and its warnings outside of \<open>ArmExidx\<close> and the \<open>Log\<close> functions; destructors, which only free memory;
  the bytes that a failing read of a pop of \<open>ArmExidx\<close> may have stored in a register; the command line tools and the tests. The other
  libraries and programs of the repository are independent of the unwinder.
\<close>

end
